(* ===== verification/Dpaste_Prelude.thy ===== *)
theory Dpaste_Prelude
  imports Main "HOL-Library.Word" "HOL-Library.Sublist"
begin

text \<open>
  Prelude of the dpaste development: the two byte-sized types of the program
  (\<open>char\<close> of \<open>std::string\<close> and \<open>uint8_t\<close>), the members of
  \<open>std::string\<close> the sources call (\<open>find\<close>, \<open>find_first_not_of\<close>, \<open>find_last_not_of\<close>,
  \<open>substr\<close>, \<open>std::getline\<close>) and \<open>toupper\<close>, with the lemmas the component theories share.
  A position that may be \<open>std::string::npos\<close> is an option; a call that may throw
  \<open>std::out_of_range\<close> returns a sum.
\<close>

named_theorems text_simps \<open>characteristic equations of the string operations\<close>

section \<open>Bytes and characters\<close>

type_synonym byte = "8 word"
type_synonym bytes = "8 word list"

definition byte_of_char :: "char \<Rightarrow> byte" where
  "byte_of_char c = word_of_nat (of_char c)"

definition char_of_byte :: "byte \<Rightarrow> char" where
  "char_of_byte b = char_of (unat b)"

text \<open>\<open>std::vector<uint8_t> v {s.begin(), s.end()}\<close> and \<open>std::string s {v.begin(), v.end()}\<close>.\<close>

definition bytes_of_string :: "string \<Rightarrow> bytes" where
  "bytes_of_string s = map byte_of_char s"

definition string_of_bytes :: "bytes \<Rightarrow> string" where
  "string_of_bytes b = map char_of_byte b"

lemma char_of_byte_of_char [simp]: "char_of_byte (byte_of_char c) = c"
proof -
  have "(of_char c :: nat) < 256"
    using of_char_mod_256 [of c, where ?'a = nat] by (metis mod_less_divisor zero_less_numeral)
  then have "unat (word_of_nat (of_char c) :: byte) = of_char c"
    by (simp add: unat_of_nat)
  then show ?thesis
    by (simp add: char_of_byte_def byte_of_char_def)
qed

lemma byte_of_char_of_byte [simp]: "byte_of_char (char_of_byte b) = b"
proof -
  have "unat b < 256"
    using unsigned_less [of b, where ?'a = nat] by simp
  then show ?thesis
    by (simp add: char_of_byte_def byte_of_char_def)
qed

lemma string_bytes_string [simp]: "string_of_bytes (bytes_of_string s) = s"
  by (simp add: string_of_bytes_def bytes_of_string_def comp_def)

lemma bytes_string_bytes [simp]: "bytes_of_string (string_of_bytes b) = b"
  by (simp add: string_of_bytes_def bytes_of_string_def comp_def)

lemma bytes_of_string_eq_Nil [simp]: "bytes_of_string s = [] \<longleftrightarrow> s = []"
  by (simp add: bytes_of_string_def)

lemma string_of_bytes_eq_Nil [simp]: "string_of_bytes b = [] \<longleftrightarrow> b = []" "[] = string_of_bytes b \<longleftrightarrow> b = []"
  by (auto simp: string_of_bytes_def)

lemma string_of_bytes_Nil [simp]: "string_of_bytes [] = []"
  by (simp add: string_of_bytes_def)

lemma length_bytes_of_string [simp]: "length (bytes_of_string s) = length s"
  by (simp add: bytes_of_string_def)

section \<open>Members of std::string\<close>

text \<open>\<open>s.substr(pos)\<close> and \<open>s.substr(pos, n)\<close>: \<open>None\<close> is \<open>std::out_of_range\<close>.\<close>

definition substr_from :: "string \<Rightarrow> nat \<Rightarrow> string option" where
  "substr_from s pos = (if pos \<le> length s then Some (drop pos s) else None)"

definition substr :: "string \<Rightarrow> nat \<Rightarrow> nat \<Rightarrow> string option" where
  "substr s pos n = (if pos \<le> length s then Some (take n (drop pos s)) else None)"

text \<open>\<open>s.find(pat)\<close>: the least position where \<open>pat\<close> occurs.\<close>

fun str_find :: "string \<Rightarrow> string \<Rightarrow> nat option" where
  "str_find pat [] = (if pat = [] then Some 0 else None)"
| "str_find pat (c # s) =
     (if take (length pat) (c # s) = pat then Some 0
      else map_option Suc (str_find pat s))"

text \<open>\<open>s.find_first_not_of(" ")\<close> and \<open>s.find_last_not_of(" ")\<close>, for one character.\<close>

fun find_first_not_of :: "char \<Rightarrow> string \<Rightarrow> nat option" where
  "find_first_not_of x [] = None"
| "find_first_not_of x (c # s) =
     (if c \<noteq> x then Some 0 else map_option Suc (find_first_not_of x s))"

fun find_last_not_of :: "char \<Rightarrow> string \<Rightarrow> nat option" where
  "find_last_not_of x [] = None"
| "find_last_not_of x (c # s) =
     (case find_last_not_of x s of
        Some i \<Rightarrow> Some (Suc i)
      | None \<Rightarrow> if c \<noteq> x then Some 0 else None)"

text \<open>\<open>std::min(s.size(), pos)\<close>, where a missing position is \<open>npos\<close>, the largest \<open>size_t\<close>.\<close>

definition min_npos :: "nat \<Rightarrow> nat option \<Rightarrow> nat" where
  "min_npos n p = (case p of None \<Rightarrow> n | Some i \<Rightarrow> min n i)"

lemma str_find_prefix [text_simps]: "str_find pat (pat @ s) = Some 0"
  by (cases "pat @ s") (auto simp: append_eq_Cons_conv)

lemma str_find_Some:
  "str_find pat s = Some i \<Longrightarrow> i + length pat \<le> length s \<and> take (length pat) (drop i s) = pat"
proof (induction s arbitrary: i)
  case Nil
  then show ?case by (simp split: if_splits)
next
  case (Cons c s)
  show ?case
  proof (cases "take (length pat) (c # s) = pat")
    case True
    then have "length pat \<le> length (c # s)"
      by (metis length_take min.cobounded1)
    with True Cons.prems show ?thesis by auto
  next
    case False
    with Cons.prems obtain j where "str_find pat s = Some j" "i = Suc j"
      by auto
    with Cons.IH [of j] show ?thesis by simp
  qed
qed

lemma str_find_None_iff: "str_find pat s = None \<longleftrightarrow> \<not> sublist pat s"
proof (induction s)
  case Nil
  then show ?case by auto
next
  case (Cons c s)
  have "take (length pat) (c # s) = pat \<longleftrightarrow> prefix pat (c # s)"
    by (metis append_eq_conv_conj prefix_def take_is_prefix)
  with Cons show ?case
    by (auto simp: sublist_Cons_right)
qed

lemma find_first_not_of_dropWhile:
  "min_npos (length s) (find_first_not_of x s) = length (takeWhile (\<lambda>c. c = x) s)"
  by (induction s) (auto simp: min_npos_def split: option.splits)

lemma find_last_not_of_None: "find_last_not_of x s = None \<longleftrightarrow> (\<forall>c \<in> set s. c = x)"
  by (induction s) (auto split: option.splits)

lemma find_first_not_of_None: "find_first_not_of x s = None \<longleftrightarrow> (\<forall>c \<in> set s. c = x)"
  by (induction s) auto

lemma find_last_not_of_Some:
  "find_last_not_of x s = Some i \<Longrightarrow>
     i < length s \<and> s ! i \<noteq> x \<and> (\<forall>c \<in> set (drop (Suc i) s). c = x)"
  by (induction s arbitrary: i) (auto split: option.splits if_splits simp: find_last_not_of_None)

section \<open>toupper in the C locale\<close>

definition is_lower :: "char \<Rightarrow> bool" where
  "is_lower c \<longleftrightarrow> 97 \<le> (of_char c :: int) \<and> (of_char c :: int) \<le> 122"

definition toupper :: "char \<Rightarrow> char" where
  "toupper c = (if is_lower c then char_of ((of_char c :: int) - 32) else c)"

section \<open>std::getline\<close>

text \<open>
  One call of \<open>std::getline(is, str, delim)\<close> on a stream that is still good and has \<open>r\<close> left
  to read: \<open>None\<close> when it sets \<open>failbit\<close> (nothing was extracted), otherwise the text stored in
  \<open>str\<close> and what the stream has left, \<open>None\<close> there when \<open>eofbit\<close> was set, which makes
  every later call on the stream fail.
\<close>

definition getline :: "char \<Rightarrow> string \<Rightarrow> (string \<times> string option) option" where
  "getline delim r =
     (if r = [] then None
      else let tok = takeWhile (\<lambda>c. c \<noteq> delim) r; rest = dropWhile (\<lambda>c. c \<noteq> delim) r
           in case rest of [] \<Rightarrow> Some (tok, None) | _ # rest' \<Rightarrow> Some (tok, Some rest'))"

lemma getline_Nil [text_simps]: "getline d [] = None"
  by (simp add: getline_def)

lemma getline_no_delim [text_simps]:
  "r \<noteq> [] \<Longrightarrow> d \<notin> set r \<Longrightarrow> getline d r = Some (r, None)"
proof -
  assume "r \<noteq> []" and "d \<notin> set r"
  then have "\<forall>c \<in> set r. c \<noteq> d" by auto
  then have d: "dropWhile (\<lambda>c. c \<noteq> d) r = []" and t: "takeWhile (\<lambda>c. c \<noteq> d) r = r"
    by simp_all
  show ?thesis
    using \<open>r \<noteq> []\<close> by (simp only: getline_def Let_def d t) simp
qed

lemma getline_delim [text_simps]:
  "d \<notin> set tok \<Longrightarrow> getline d (tok @ d # rest) = Some (tok, Some rest)"
proof -
  assume "d \<notin> set tok"
  then have "takeWhile (\<lambda>c. c \<noteq> d) (tok @ d # rest) = tok"
    and "dropWhile (\<lambda>c. c \<noteq> d) (tok @ d # rest) = d # rest"
    by (simp_all add: takeWhile_append dropWhile_append)
  then show ?thesis
    by (simp add: getline_def Let_def)
qed

lemma getline_length:
  "getline d r = Some (tok, Some rest) \<Longrightarrow> length rest < length r"
proof -
  assume "getline d r = Some (tok, Some rest)"
  then obtain x where "dropWhile (\<lambda>c. c \<noteq> d) r = x # rest"
    by (auto simp: getline_def Let_def split: if_splits list.splits)
  then have "length (x # rest) \<le> length r"
    by (metis length_dropWhile_le)
  then show ?thesis by simp
qed

end
