(* ===== verification/Effects.thy ===== *)
theory Effects
  imports Dpaste_Prelude
begin

text \<open>
  The effects of the program. The C++ exceptions that can leave a function are values of
  \<open>exn\<close>; what a run does to the outside (standard error, standard output, HTTP requests, DHT
  operations, engine checks) is appended to a trace of events. The third-party libraries and the
  network are arguments of the model: a function that answers a call is given the trace so far,
  so it may answer the same call differently at different times.

  A procedure of the program is a \<open>proc\<close>: it takes the process state (the trace and the
  function-local \<open>static\<close> variables) and returns its value or the exception it throws,
  with the new state. \<open>bindP\<close> is sequencing, \<open>catchP\<close> a \<open>try\<close> block.
\<close>

named_theorems proc_simps \<open>running procedures\<close>

section \<open>Values the effects carry\<close>

text \<open>
  \<open>GpgME::Error\<close>: its code, and whether it converts to \<open>true\<close>
  (a non-zero code that is not a cancellation).
\<close>

datatype gpg_error = Gpg_Error (err_code: nat) (err_raised: bool)

definition no_error :: gpg_error where
  "no_error = Gpg_Error 0 False"

text \<open>
  The exceptions: \<open>std::out_of_range\<close>, \<open>std::bad_variant_access\<close>, \<open>GpgME::Exception\<close>,
  \<open>dht::crypto::DecryptError\<close>, \<open>msgpack::type_error\<close>, \<open>msgpack::unpack_error\<close> and the exceptions
  of \<open>nlohmann::json\<close>; the two kinds of \<open>curlpp\<close>, \<open>RuntimeError\<close> and \<open>LogicError\<close>. \<open>Null_Dereference\<close> stands for the undefined behaviour of a call through a
  null pointer.
\<close>

datatype exn =
    Out_Of_Range
  | Bad_Variant_Access
  | Null_Dereference
  | Gpg_Exception gpg_error string
  | Decrypt_Error string
  | Msgpack_Type_Error
  | Msgpack_Unpack_Error string
  | Json_Exception string
  | Curlpp_Runtime_Error
  | Curlpp_Logic_Error

text \<open>\<open>dht::InfoHash\<close> (160 bits) and the two fields of \<open>dht::Value\<close> the program uses.\<close>

type_synonym infohash = "160 word"

record dht_value =
  val_data :: bytes
  val_user_type :: string

text \<open>A request through \<open>curlpp::Easy\<close>: a GET, or a POST of a multipart form.\<close>

record http_request =
  req_url :: string
  req_port :: int
  req_form :: "(string \<times> string) list option"

datatype http_outcome =
    Http_Response nat string \<comment> \<open>response code and body\<close>
  | Http_Runtime_Error \<comment> \<open>\<open>curlpp::RuntimeError\<close>\<close>
  | Http_Logic_Error \<comment> \<open>\<open>curlpp::LogicError\<close>\<close>

datatype event =
    Stderr string
  | Stdout string
  | Http_Perform http_request http_outcome
  | Dht_Run "16 word"
  | Dht_Bootstrap string string
  | Dht_Shutdown
  | Dht_Join
  | Dht_Put infohash dht_value bool \<comment> \<open>with the flag its done callback receives\<close>
  | Dht_Get infohash string
  | Gpg_Engine_Check gpg_error

section \<open>The process state\<close>

text \<open>
  The function-local \<open>static\<close> variables: those of \<open>Bin::random_pin\<close> (the engine, the \<open>seed_seq\<close> built
  from two draws of \<open>random_device\<close>, the flag \<open>initialized\<close>), which come into being at its
  first call, and the flags of \<open>GPG::init\<close> and \<open>Cipher::init\<close>.
\<close>

type_synonym engine = "64 word list"

record pin_static =
  ps_rand :: engine
  ps_seed :: "32 word \<times> 32 word"
  ps_initialized :: bool

record world =
  trace :: "event list"
  pin_statics :: "pin_static option"
  gpg_initialized :: bool
  cipher_initialized :: bool

definition init_world :: world where
  "init_world = \<lparr>trace = [], pin_statics = None,
     gpg_initialized = False, cipher_initialized = False\<rparr>"

type_synonym 'a proc = "world \<Rightarrow> (exn + 'a) \<times> world"

definition returnP :: "'a \<Rightarrow> 'a proc" where
  "returnP x w = (Inr x, w)"

definition throwP :: "exn \<Rightarrow> 'a proc" where
  "throwP e w = (Inl e, w)"

definition bindP :: "'a proc \<Rightarrow> ('a \<Rightarrow> 'b proc) \<Rightarrow> 'b proc" where
  "bindP m f w = (case m w of (r, w') \<Rightarrow> (case r of Inl e \<Rightarrow> (Inl e, w') | Inr x \<Rightarrow> f x w'))"

definition thenP :: "unit proc \<Rightarrow> 'b proc \<Rightarrow> 'b proc" where
  "thenP m n = bindP m (\<lambda>_. n)"

definition liftP :: "exn + 'a \<Rightarrow> 'a proc" where
  "liftP r w = (r, w)"

text \<open>A \<open>try\<close> block: the handler says for which exceptions there is a \<open>catch\<close> clause.\<close>

definition catchP :: "'a proc \<Rightarrow> (exn \<Rightarrow> 'a proc option) \<Rightarrow> 'a proc" where
  "catchP m h w = (case m w of (r, w') \<Rightarrow>
     (case r of
        Inl e \<Rightarrow> (case h e of None \<Rightarrow> (Inl e, w') | Some n \<Rightarrow> n w')
      | Inr x \<Rightarrow> (Inr x, w')))"

text \<open>Asking the environment: the answer depends on the trace so far.\<close>

definition askP :: "(event list \<Rightarrow> 'a) \<Rightarrow> 'a proc" where
  "askP f w = (Inr (f (trace w)), w)"

definition getP :: "(world \<Rightarrow> 'a) \<Rightarrow> 'a proc" where
  "getP f w = (Inr (f w), w)"

definition modifyP :: "(world \<Rightarrow> world) \<Rightarrow> unit proc" where
  "modifyP f w = (Inr (), f w)"

definition record_event :: "event \<Rightarrow> world \<Rightarrow> world" where
  "record_event e w = w\<lparr>trace := trace w @ [e]\<rparr>"

definition emitP :: "event \<Rightarrow> unit proc" where
  "emitP e = modifyP (record_event e)"

section \<open>Running procedures\<close>

lemma run_return [proc_simps]: "returnP x w = (Inr x, w)"
  by (simp add: returnP_def)

lemma run_throw [proc_simps]: "throwP e w = (Inl e, w)"
  by (simp add: throwP_def)

lemma run_lift [proc_simps]: "liftP r w = (r, w)"
  by (simp add: liftP_def)

lemma run_ask [proc_simps]: "askP f w = (Inr (f (trace w)), w)"
  by (simp add: askP_def)

lemma run_get [proc_simps]: "getP f w = (Inr (f w), w)"
  by (simp add: getP_def)

lemma run_modify [proc_simps]: "modifyP f w = (Inr (), f w)"
  by (simp add: modifyP_def)

lemma run_emit [proc_simps]: "emitP e w = (Inr (), record_event e w)"
  by (simp add: emitP_def modifyP_def)

lemma run_bind_Inr [proc_simps]: "m w = (Inr x, w') \<Longrightarrow> bindP m f w = f x w'"
  by (simp add: bindP_def)

lemma run_bind_Inl [proc_simps]: "m w = (Inl e, w') \<Longrightarrow> bindP m f w = (Inl e, w')"
  by (simp add: bindP_def)

lemma run_then_Inr [proc_simps]: "m w = (Inr u, w') \<Longrightarrow> thenP m n w = n w'"
  by (simp add: thenP_def bindP_def)

lemma run_then_Inl [proc_simps]: "m w = (Inl e, w') \<Longrightarrow> thenP m n w = (Inl e, w')"
  by (simp add: thenP_def bindP_def)

lemma run_catch_Inr [proc_simps]: "m w = (Inr x, w') \<Longrightarrow> catchP m h w = (Inr x, w')"
  by (simp add: catchP_def)

lemma run_catch_Inl [proc_simps]:
  "m w = (Inl e, w') \<Longrightarrow>
     catchP m h w = (case h e of None \<Rightarrow> (Inl e, w') | Some n \<Rightarrow> n w')"
  by (simp add: catchP_def)

text \<open>The definitions of the combinators, to evaluate a procedure on a concrete state.\<close>

lemmas proc_defs =
  returnP_def throwP_def bindP_def thenP_def liftP_def catchP_def askP_def getP_def modifyP_def emitP_def

lemma bindP_Inr_iff:
  "bindP m f w = (Inr y, w'') \<longleftrightarrow> (\<exists>x w'. m w = (Inr x, w') \<and> f x w' = (Inr y, w''))"
  by (auto simp: bindP_def split: prod.splits sum.splits)

lemma bindP_assoc: "bindP (bindP m f) g = bindP m (\<lambda>x. bindP (f x) g)"
  by (rule ext) (auto simp: bindP_def split: prod.splits sum.splits)

lemma bindP_return: "bindP m returnP = m"
  by (rule ext) (auto simp: bindP_def returnP_def split: prod.splits sum.splits)

section \<open>Frame facts of the trace\<close>

lemma record_event_frame [simp]:
  "trace (record_event e w) = trace w @ [e]"
  "pin_statics (record_event e w) = pin_statics w"
  "gpg_initialized (record_event e w) = gpg_initialized w"
  "cipher_initialized (record_event e w) = cipher_initialized w"
  by (simp_all add: record_event_def)

text \<open>
  \<open>only_messages m\<close>: a procedure leaves the static variables of \<open>random_pin\<close> alone, and all it does
  to the outside is to write messages to standard error, whether it returns or throws.
\<close>

definition is_message :: "event \<Rightarrow> bool" where
  "is_message e \<longleftrightarrow> (case e of Stderr _ \<Rightarrow> True | _ \<Rightarrow> False)"

definition only_messages :: "'a proc \<Rightarrow> bool" where
  "only_messages m \<longleftrightarrow> (\<forall>w. (\<exists>tr. list_all is_message tr \<and> trace (snd (m w)) = trace w @ tr) \<and>
     pin_statics (snd (m w)) = pin_statics w)"

named_theorems messages_intros \<open>procedures that only write messages\<close>

lemma only_messagesD:
  "\<lbrakk>only_messages m; m w = (r, w')\<rbrakk> \<Longrightarrow>
     (\<exists>tr. list_all is_message tr \<and> trace w' = trace w @ tr) \<and> pin_statics w' = pin_statics w"
  unfolding only_messages_def by (metis snd_conv)

lemma messages_pure: "(\<And>w. snd (m w) = w) \<Longrightarrow> only_messages m"
  by (auto simp: only_messages_def intro: exI [of _ "[]"])

lemma messages_return [messages_intros]: "only_messages (returnP x)"
  by (rule messages_pure) (simp add: returnP_def)

lemma messages_throw [messages_intros]: "only_messages (throwP e)"
  by (rule messages_pure) (simp add: throwP_def)

lemma messages_lift [messages_intros]: "only_messages (liftP r)"
  by (rule messages_pure) (simp add: liftP_def)

lemma messages_ask [messages_intros]: "only_messages (askP f)"
  by (rule messages_pure) (simp add: askP_def)

lemma messages_get [messages_intros]: "only_messages (getP f)"
  by (rule messages_pure) (simp add: getP_def)

lemma messages_emit [messages_intros]: "only_messages (emitP (Stderr s))"
  by (auto simp: only_messages_def run_emit is_message_def intro: exI [of _ "[Stderr s]"])

lemma messages_bind [messages_intros]:
  assumes m: "only_messages m" and f: "\<And>x. only_messages (f x)"
  shows "only_messages (bindP m f)"
  unfolding only_messages_def
proof
  fix w
  obtain r w' where mw: "m w = (r, w')" by (cases "m w")
  obtain tr where w': "list_all is_message tr" "trace w' = trace w @ tr" "pin_statics w' = pin_statics w"
    using only_messagesD [OF m mw] by blast
  show "(\<exists>tr. list_all is_message tr \<and> trace (snd (bindP m f w)) = trace w @ tr) \<and>
     pin_statics (snd (bindP m f w)) = pin_statics w"
  proof (cases r)
    case (Inl e)
    with mw w' show ?thesis by (auto simp: bindP_def)
  next
    case (Inr x)
    obtain r'' w'' where fw: "f x w' = (r'', w'')" by (cases "f x w'")
    obtain tr' where "list_all is_message tr'" "trace w'' = trace w' @ tr'" "pin_statics w'' = pin_statics w'"
      using only_messagesD [OF f fw] by blast
    with mw fw w' Inr show ?thesis by (auto simp: bindP_def intro: exI [of _ "tr @ tr'"])
  qed
qed

lemma messages_then [messages_intros]:
  "only_messages m \<Longrightarrow> only_messages n \<Longrightarrow> only_messages (thenP m n)"
  unfolding thenP_def by (rule messages_bind)

lemma messages_if [messages_intros]:
  "only_messages m \<Longrightarrow> only_messages n \<Longrightarrow> only_messages (if b then m else n)"
  by simp

end
