(* ===== verification/Log.thy ===== *)
theory Log
  imports Effects
begin

text \<open>
  \<open>src/log.cpp\<close>: \<open>DPASTE_MSG\<close> formats a message into a buffer of 8192 bytes with \<open>vsnprintf\<close> and
  writes it to standard error behind a prefix. The format strings of the program use the
  conversion \<open>%s\<close> only.
\<close>

definition DPASTE_MSG_PREFIX :: string where
  "DPASTE_MSG_PREFIX = ''DPASTE: ''"

definition LOG_BUFFER_SIZE :: nat where
  "LOG_BUFFER_SIZE = 8192"

definition NUL :: char where
  "NUL = CHR 0x00"

definition newline :: char where
  "newline = CHR 0x0A"

text \<open>The text a format denotes: each \<open>%s\<close> is replaced by the next argument.\<close>

fun format_text :: "string \<Rightarrow> string list \<Rightarrow> string" where
  "format_text [] args = []"
| "format_text [c] args = [c]"
| "format_text (c # d # f) (a # args) =
     (if c = CHR ''%'' \<and> d = CHR ''s'' then a @ format_text f args
      else c # format_text (d # f) (a # args))"
| "format_text (c # d # f) [] = c # format_text (d # f) []"

text \<open>
  C's \<open>vsnprintf(buf, n, ...)\<close> for a text: the length the text has, or a negative value when it
  does not fit an \<open>int\<close>, and the bytes stored: at most \<open>n - 1\<close> of them, then a NUL.
\<close>

definition vsnprintf :: "nat \<Rightarrow> string \<Rightarrow> int \<times> string" where
  "vsnprintf n txt =
     (if length txt > 2147483647 then (-1, []) else (int (length txt), take (n - 1) txt @ [NUL]))"

definition print_log :: "string \<Rightarrow> string list \<Rightarrow> unit proc" where
  "print_log m args =
     (let (ret, buffer) = vsnprintf LOG_BUFFER_SIZE (format_text m args)
      in if ret < 0 then returnP ()
         else emitP (Stderr (DPASTE_MSG_PREFIX
                @ take (min (nat ret) LOG_BUFFER_SIZE) buffer
                @ (if nat ret \<ge> LOG_BUFFER_SIZE then ''[[TRUNCATED]]'' else [])
                @ [newline])))"

definition DPASTE_MSG :: "string \<Rightarrow> string list \<Rightarrow> unit proc" where
  "DPASTE_MSG format args = print_log format args"

section \<open>Facts the other components use\<close>

lemma format_text_no_args [simp]: "format_text f [] = f"
  by (induction f "[] :: string list" rule: format_text.induct) auto

lemma format_text_percent_s [simp]: "format_text (CHR ''%'' # CHR ''s'' # f) (a # args) = a @ format_text f args"
  by simp

lemma messages_print_log [messages_intros]: "only_messages (print_log m args)"
  by (auto simp: print_log_def Let_def intro!: messages_intros split: prod.split)

lemma messages_msg [messages_intros]: "only_messages (DPASTE_MSG m args)"
  by (simp add: DPASTE_MSG_def messages_print_log)

text \<open>A message never throws and never touches the static variables.\<close>

definition msg_event :: "string \<Rightarrow> event" where
  "msg_event t = Stderr (DPASTE_MSG_PREFIX @ t @ [newline])"

lemma run_msg_short [proc_simps]:
  "length (format_text f args) < LOG_BUFFER_SIZE \<Longrightarrow>
     DPASTE_MSG f args w = (Inr (), record_event (msg_event (format_text f args)) w)"
  by (simp add: DPASTE_MSG_def print_log_def vsnprintf_def LOG_BUFFER_SIZE_def msg_event_def
      proc_simps Let_def)

definition after_msg :: "string \<Rightarrow> string list \<Rightarrow> world \<Rightarrow> world" where
  "after_msg f args w = snd (DPASTE_MSG f args w)"

lemma run_msg: "DPASTE_MSG f args w = (Inr (), after_msg f args w)"
  by (simp add: after_msg_def DPASTE_MSG_def print_log_def vsnprintf_def proc_simps Let_def)

lemma after_msg_statics [simp]:
  "pin_statics (after_msg f args w) = pin_statics w"
  "gpg_initialized (after_msg f args w) = gpg_initialized w"
  "cipher_initialized (after_msg f args w) = cipher_initialized w"
  by (simp_all add: after_msg_def DPASTE_MSG_def print_log_def vsnprintf_def proc_simps Let_def)

section \<open>Properties\<close>

text \<open>
  C40. What one \<open>DPASTE_MSG\<close> does, on every branch: a text shorter than the buffer is written whole
  between the prefix and the end of line; a text that does not fit is cut to 8191 characters, and
  the write of \<open>min(ret, 8192)\<close> bytes also sends the buffer's terminating NUL before the
  truncation mark; a text longer than an \<open>int\<close> can count is dropped.
\<close>

theorem msg_output:
  "DPASTE_MSG f args w =
     (let t = format_text f args in
      (Inr (),
       if length t < 8192 then record_event (Stderr (''DPASTE: '' @ t @ [newline])) w
       else if length t \<le> 2147483647 then
         record_event (Stderr (''DPASTE: '' @ take 8191 t @ [NUL] @ ''[[TRUNCATED]]'' @ [newline])) w
       else w))"
  by (simp add: DPASTE_MSG_def print_log_def vsnprintf_def LOG_BUFFER_SIZE_def
      DPASTE_MSG_PREFIX_def proc_simps Let_def)

end
