(* ===== verification/Cipher_Params.thy ===== *)
theory Cipher_Params
  imports Log
begin

text \<open>
  \<open>src/cipher.h\<close>: the encryption schemes, the parameters of the two ciphers and the
  variant \<open>Parameters\<close> that holds one of them. A \<open>std::shared_ptr<Parameters>\<close> is an option.

  Both constructors of \<open>GPGParameters\<close> that do not take the flags leave \<open>self_recipient\<close> and
  \<open>sign\<close> uninitialised; the values those reads give are arguments of the model (\<open>junk\<close>).
\<close>

datatype scheme = NONE | GPG | AES

text \<open>\<open>enum class Scheme : int\<close>: the value behind each enumerator.\<close>

fun scheme_value :: "scheme \<Rightarrow> int" where
  "scheme_value NONE = 0"
| "scheme_value GPG = 1"
| "scheme_value AES = 2"

instantiation scheme :: linorder
begin

definition less_eq_scheme :: "scheme \<Rightarrow> scheme \<Rightarrow> bool" where
  "less_eq_scheme a b \<longleftrightarrow> scheme_value a \<le> scheme_value b"

definition less_scheme :: "scheme \<Rightarrow> scheme \<Rightarrow> bool" where
  "less_scheme a b \<longleftrightarrow> scheme_value a < scheme_value b"

instance
proof
  fix a b c :: scheme
  show "a < b \<longleftrightarrow> a \<le> b \<and> \<not> b \<le> a"
    by (auto simp: less_eq_scheme_def less_scheme_def)
  show "a \<le> a" by (simp add: less_eq_scheme_def)
  show "a \<le> b \<Longrightarrow> b \<le> c \<Longrightarrow> a \<le> c" by (simp add: less_eq_scheme_def)
  show "a \<le> b \<Longrightarrow> b \<le> a \<Longrightarrow> a = b"
    by (cases a; cases b) (simp_all add: less_eq_scheme_def)
  show "a \<le> b \<or> b \<le> a" by (auto simp: less_eq_scheme_def)
qed

end

record gpg_parameters =
  gp_key_id :: string
  gp_recipients :: "string list"
  gp_self_recipient :: bool
  gp_sign :: bool

record aes_parameters =
  ap_password :: string

datatype parameters = GPG_Params gpg_parameters | AES_Params aes_parameters

text \<open>The flags an uninitialised \<open>GPGParameters\<close> happens to hold.\<close>

record junk_flags =
  junk_self_recipient :: bool
  junk_sign :: bool

text \<open>\<open>GPGParameters()\<close>, \<open>GPGParameters(key_id)\<close>, \<open>GPGParameters(recipients, self, sign)\<close>.\<close>

definition gpg_parameters_default :: "junk_flags \<Rightarrow> gpg_parameters" where
  "gpg_parameters_default j = \<lparr>gp_key_id = '''', gp_recipients = [],
     gp_self_recipient = junk_self_recipient j, gp_sign = junk_sign j\<rparr>"

definition gpg_parameters_key :: "junk_flags \<Rightarrow> string \<Rightarrow> gpg_parameters" where
  "gpg_parameters_key j key_id = \<lparr>gp_key_id = key_id, gp_recipients = [],
     gp_self_recipient = junk_self_recipient j, gp_sign = junk_sign j\<rparr>"

definition gpg_parameters_full :: "string list \<Rightarrow> bool \<Rightarrow> bool \<Rightarrow> gpg_parameters" where
  "gpg_parameters_full recipients self_recipient sign = \<lparr>gp_key_id = '''', gp_recipients = recipients,
     gp_self_recipient = self_recipient, gp_sign = sign\<rparr>"

text \<open>\<open>AESParameters()\<close> and \<open>AESParameters(password)\<close>.\<close>

definition aes_parameters_default :: aes_parameters where
  "aes_parameters_default = \<lparr>ap_password = ''''\<rparr>"

definition aes_parameters :: "string \<Rightarrow> aes_parameters" where
  "aes_parameters password = \<lparr>ap_password = password\<rparr>"

text \<open>\<open>std::get_if<...>(p.get())\<close>: null for a null pointer and for the other alternative.\<close>

definition get_if_gpg :: "parameters option \<Rightarrow> gpg_parameters option" where
  "get_if_gpg p = (case p of Some (GPG_Params g) \<Rightarrow> Some g | _ \<Rightarrow> None)"

definition get_if_aes :: "parameters option \<Rightarrow> aes_parameters option" where
  "get_if_aes p = (case p of Some (AES_Params a) \<Rightarrow> Some a | _ \<Rightarrow> None)"

text \<open>\<open>std::get<GPGParameters>(*p)\<close>.\<close>

definition get_gpg :: "parameters \<Rightarrow> exn + gpg_parameters" where
  "get_gpg p = (case p of GPG_Params g \<Rightarrow> Inr g | AES_Params _ \<Rightarrow> Inl Bad_Variant_Access)"

lemma get_if_simps [simp]:
  "get_if_gpg None = None" "get_if_aes None = None"
  "get_if_gpg (Some (GPG_Params g)) = Some g" "get_if_aes (Some (GPG_Params g)) = None"
  "get_if_gpg (Some (AES_Params a)) = None" "get_if_aes (Some (AES_Params a)) = Some a"
  "get_gpg (GPG_Params g) = Inr g" "get_gpg (AES_Params a) = Inl Bad_Variant_Access"
  by (simp_all add: get_if_gpg_def get_if_aes_def get_gpg_def)

section \<open>The interface of a cipher\<close>

text \<open>
  What \<open>Bin\<close> relies on when it encrypts with one \<open>Cipher\<close> and decrypts with another of the same
  scheme: under the documented behaviour of the library behind it (\<open>lib_ok\<close>) and matching
  parameters (\<open>matches\<close>), decryption of what encryption returned gives the plain text,
  changed by \<open>padded\<close>.
\<close>

locale cipher_scheme =
  fixes encrypt_with :: "'lib \<Rightarrow> 'ep \<Rightarrow> bytes \<Rightarrow> bytes proc"
    and decrypt_with :: "'lib \<Rightarrow> 'dp \<Rightarrow> bytes \<Rightarrow> bytes proc"
    and lib_ok :: "'lib \<Rightarrow> bool"
    and matches :: "'lib \<Rightarrow> 'ep \<Rightarrow> 'dp \<Rightarrow> bool"
    and padded :: "bytes \<Rightarrow> bytes"
  assumes decrypt_encrypt:
    "\<lbrakk>lib_ok L; matches L ep dp; encrypt_with L ep pt w = (Inr ct, w1); ct \<noteq> []\<rbrakk> \<Longrightarrow>
       \<exists>w3. decrypt_with L dp ct w2 = (Inr (padded pt), w3)"
    and padded_inj: "padded a = padded b \<Longrightarrow> a = b"
begin

text \<open>Two plain texts never share a cipher text under matching parameters.\<close>

lemma encrypt_injective:
  assumes "lib_ok L" and "matches L ep dp"
    and "encrypt_with L ep a w = (Inr ct, w1)" and "encrypt_with L ep b v = (Inr ct, v1)"
    and "ct \<noteq> []"
  shows "a = b"
proof -
  obtain x where "decrypt_with L dp ct w = (Inr (padded a), x)"
    using decrypt_encrypt assms(1,2,3,5) by blast
  moreover obtain y where "decrypt_with L dp ct w = (Inr (padded b), y)"
    using decrypt_encrypt assms(1,2,4,5) by blast
  ultimately have "padded a = padded b" by simp
  then show ?thesis by (rule padded_inj)
qed

text \<open>A chain: encrypting, then decrypting with whatever happened in between.\<close>

lemma roundtrip_chain:
  assumes "lib_ok L" and "matches L ep dp"
    and "encrypt_with L ep pt w = (Inr ct, w1)" and "ct \<noteq> []"
  shows "\<exists>w3. bindP (decrypt_with L dp ct) k w2 = k (padded pt) w3"
  using decrypt_encrypt [OF assms(1,2,3,4), of w2] by (auto simp: proc_simps)

end

end
