(* ===== verification/Aes.thy ===== *)
theory Aes
  imports Cipher_Params
begin

text \<open>
  \<open>src/aescrypto.h\<close> and \<open>src/aescrypto.cpp\<close>: the AES cipher, a thin layer over
  \<open>dht::crypto::aesEncrypt\<close> and \<open>aesDecrypt\<close>. Encryption draws a salt and a nonce, so its result may
  depend on the history; decryption throws \<open>DecryptError\<close> (\<open>Inl\<close> its message).
\<close>

record aes_lib =
  aesEncrypt :: "event list \<Rightarrow> bytes \<Rightarrow> string \<Rightarrow> bytes"
  aesDecrypt :: "bytes \<Rightarrow> string \<Rightarrow> string + bytes"

text \<open>The documented behaviour: decryption inverts encryption under the same password.\<close>

definition aes_lib_ok :: "aes_lib \<Rightarrow> bool" where
  "aes_lib_ok A \<longleftrightarrow> (\<forall>tr pt pwd. aesDecrypt A (aesEncrypt A tr pt pwd) pwd = Inr pt \<and>
     aesEncrypt A tr pt pwd \<noteq> [])"

definition PIN_WITH_PASS_LEN :: nat where
  "PIN_WITH_PASS_LEN = 16"

definition CODE_PASS_OFFSET :: nat where
  "CODE_PASS_OFFSET = 4"

definition getPassword :: "parameters option \<Rightarrow> string" where
  "getPassword params = (case get_if_aes params of Some p \<Rightarrow> ap_password p | None \<Rightarrow> [])"

definition aes_processPlainText :: "aes_lib \<Rightarrow> bytes \<Rightarrow> parameters option \<Rightarrow> bytes proc" where
  "aes_processPlainText A plain_text params =
     thenP (DPASTE_MSG ''Encrypting (aes-gcm) data...'' [])
       (askP (\<lambda>tr. aesEncrypt A tr plain_text (getPassword params)))"

definition aes_processCipherText :: "aes_lib \<Rightarrow> bytes \<Rightarrow> parameters option \<Rightarrow> bytes proc" where
  "aes_processCipherText A cipher_text params =
     thenP (DPASTE_MSG ''Decrypting (aes-gcm)...'' [])
       (liftP (case aesDecrypt A cipher_text (getPassword params) of
                 Inl msg \<Rightarrow> Inl (Decrypt_Error msg)
               | Inr pt \<Rightarrow> Inr pt))"

lemma getPassword_simps [simp]:
  "getPassword None = []"
  "getPassword (Some (AES_Params p)) = ap_password p"
  "getPassword (Some (GPG_Params g)) = []"
  by (simp_all add: getPassword_def)

lemma run_aes_encrypt [proc_simps]:
  "aes_processPlainText A pt params w =
     (let w' = record_event (msg_event ''Encrypting (aes-gcm) data...'') w
      in (Inr (aesEncrypt A (trace w') pt (getPassword params)), w'))"
  by (simp add: aes_processPlainText_def proc_simps LOG_BUFFER_SIZE_def)

lemma run_aes_decrypt [proc_simps]:
  "aes_processCipherText A ct params w =
     (case aesDecrypt A ct (getPassword params) of
        Inl msg \<Rightarrow> Inl (Decrypt_Error msg) | Inr pt \<Rightarrow> Inr pt,
      record_event (msg_event ''Decrypting (aes-gcm)...'') w)"
  by (simp add: aes_processCipherText_def proc_simps LOG_BUFFER_SIZE_def)

lemma messages_aes [messages_intros]:
  "only_messages (aes_processPlainText A pt params)"
  "only_messages (aes_processCipherText A ct params)"
  by (auto simp: aes_processPlainText_def aes_processCipherText_def intro!: messages_intros)

interpretation aes: cipher_scheme
  "\<lambda>A params pt. aes_processPlainText A pt params"
  "\<lambda>A params ct. aes_processCipherText A ct params"
  aes_lib_ok "\<lambda>A ep dp. getPassword ep = getPassword dp" "\<lambda>pt. pt"
  by unfold_locales (auto simp: proc_simps aes_lib_ok_def Let_def)

section \<open>Properties\<close>

text \<open>
  The AES cipher round trip, through the two member functions, for any parameters with the same
  password: the decrypting side returns the plain text. The parameters only count through their
  password, which is empty for a null pointer.
\<close>

lemma aes_process_roundtrip:
  assumes "aes_lib_ok A" and "getPassword ep = getPassword dp"
    and "aes_processPlainText A pt ep w = (Inr ct, w1)"
  shows "ct \<noteq> [] \<and> fst (aes_processCipherText A ct dp w2) = Inr pt"
proof -
  have "ct \<noteq> []"
    using assms(1,3) by (auto simp: run_aes_encrypt aes_lib_ok_def Let_def)
  with aes.decrypt_encrypt [OF assms(1,2,3), of w2] show ?thesis by auto
qed

text \<open>
  A toy cipher with the documented behaviour, for concrete instances: the password and a
  separator in front of the text; decryption fails on any other prefix.
\<close>

definition toy_aes :: aes_lib where
  "toy_aes = \<lparr>aesEncrypt = (\<lambda>tr pt pwd. bytes_of_string pwd @ [1] @ pt),
     aesDecrypt = (\<lambda>ct pwd. if take (length pwd + 1) ct = bytes_of_string pwd @ [1]
        then Inr (drop (length pwd + 1) ct) else Inl ''decryption failed'')\<rparr>"

lemma toy_aes_ok: "aes_lib_ok toy_aes"
  by (simp add: aes_lib_ok_def toy_aes_def)

lemma aes_process_roundtrip_witness:
  "fst (aes_processCipherText toy_aes (bytes_of_string ''pw'' @ [1, 0, 1, 2])
      (Some (AES_Params (aes_parameters ''pw''))) init_world) = Inr [0, 1, 2]"
proof -
  have p: "getPassword (Some (AES_Params (aes_parameters ''pw''))) =
      getPassword (Some (AES_Params (aes_parameters ''pw'')))" by simp
  have e: "aes_processPlainText toy_aes [0, 1, 2] (Some (AES_Params (aes_parameters ''pw''))) init_world =
      (Inr (bytes_of_string ''pw'' @ [1, 0, 1, 2]),
       record_event (msg_event ''Encrypting (aes-gcm) data...'') init_world)"
    by (simp add: run_aes_encrypt toy_aes_def aes_parameters_def)
  show ?thesis using aes_process_roundtrip [OF toy_aes_ok p e] by blast
qed

end
