(* ===== verification/Gpg.thy ===== *)
theory Gpg
  imports Cipher_Params
begin

text \<open>
  \<open>src/gpgcrypto.h\<close> and \<open>src/gpgcrypto.cpp\<close>: the GPG cipher, over the GpgME library. The library's
  calls are fields of \<open>gpgme_lib\<close>; encryption and signing may depend on the history. Of the result
  objects the model keeps what the code reads: the error, the signatures of a verification, and
  for signing and encryption whether the result is null.
\<close>

section \<open>The library\<close>

record gpg_key =
  key_id :: string
  primaryFingerprint :: string

record gpg_signature =
  sig_summary :: "32 word"
  sig_fingerprint :: string

text \<open>\<open>GpgME::Context\<close>: the armor flag and the signing keys.\<close>

record gpg_context =
  ctx_armor :: bool
  ctx_signing_keys :: "gpg_key list"

text \<open>
  \<open>gm_create\<close> says whether \<open>createForProtocol\<close> returns a context or null; \<open>gm_reads b\<close> lists
  what successive \<open>Data::read\<close> calls with a buffer of \<open>BUFLEN\<close> bytes deliver on an object that
  holds \<open>b\<close>, an empty read standing for a result of 0 or less; \<open>gm_what\<close> is \<open>Exception::what\<close>.
\<close>

record gpgme_lib =
  gm_create :: "event list \<Rightarrow> bool"
  gm_check_engine :: "event list \<Rightarrow> gpg_error"
  gm_key :: "string \<Rightarrow> gpg_error \<times> gpg_key"
  gm_add_signing_key :: "gpg_key list \<Rightarrow> gpg_key \<Rightarrow> gpg_key list"
  gm_encrypt :: "event list \<Rightarrow> gpg_context \<Rightarrow> gpg_key list \<Rightarrow> bytes \<Rightarrow> gpg_error \<times> bytes"
  gm_sign_and_encrypt ::
    "event list \<Rightarrow> gpg_context \<Rightarrow> gpg_key list \<Rightarrow> bytes \<Rightarrow> gpg_error \<times> gpg_error \<times> bytes"
  gm_decrypt_and_verify :: "bytes \<Rightarrow> gpg_error \<times> gpg_error \<times> gpg_signature list \<times> bytes"
  gm_sign :: "event list \<Rightarrow> gpg_context \<Rightarrow> bytes \<Rightarrow> gpg_error \<times> bytes"
  gm_verify_opaque :: "bytes \<Rightarrow> bytes \<Rightarrow> gpg_error \<times> gpg_signature list"
  gm_is_pgp_encrypted :: "bytes \<Rightarrow> bool"
  gm_reads :: "bytes \<Rightarrow> bytes list"
  gm_sig_valid :: "32 word"
  gm_what :: "gpg_error \<Rightarrow> string \<Rightarrow> string"

section \<open>dataToVector\<close>

text \<open>The read loop: it stops at the first read that delivers nothing.\<close>

fun read_loop :: "bytes list \<Rightarrow> bytes \<Rightarrow> bytes" where
  "read_loop [] v = v"
| "read_loop (buf # reads) v = (if length buf > 0 then read_loop reads (v @ buf) else v)"

definition dataToVector :: "gpgme_lib \<Rightarrow> bytes \<Rightarrow> bytes" where
  "dataToVector G d = read_loop (gm_reads G d) []"

text \<open>Documented: the reads deliver the data in order, and nothing only at its end.\<close>

definition reads_ok :: "gpgme_lib \<Rightarrow> bool" where
  "reads_ok G \<longleftrightarrow> (\<forall>d. \<exists>cs es. gm_reads G d = cs @ es \<and> concat cs = d \<and>
     list_all (\<lambda>c. c \<noteq> []) cs \<and> list_all (\<lambda>e. e = []) es)"

lemma read_loop_append: "list_all (\<lambda>c. c \<noteq> []) cs \<Longrightarrow> read_loop (cs @ es) v = read_loop es (v @ concat cs)"
  by (induction cs arbitrary: v) auto

lemma read_loop_empty: "list_all (\<lambda>e. e = []) es \<Longrightarrow> read_loop es v = v"
  by (cases es) auto

lemma dataToVector_eq:
  assumes "reads_ok G"
  shows "dataToVector G d = d"
proof -
  obtain cs es where "gm_reads G d = cs @ es" "concat cs = d"
    "list_all (\<lambda>c. c \<noteq> []) cs" "list_all (\<lambda>e. e = []) es"
    using assms unfolding reads_ok_def by blast
  then show ?thesis
    by (simp add: dataToVector_def read_loop_append read_loop_empty)
qed

section \<open>The class GPG\<close>

record gpg =
  gpg_ctx :: "gpg_context option"
  signerKey :: string

definition getKey :: "gpgme_lib \<Rightarrow> gpg_context option \<Rightarrow> string \<Rightarrow> exn + gpg_key" where
  "getKey G ctx kid =
     (if ctx = None then Inr \<lparr>key_id = [], primaryFingerprint = []\<rparr>
      else let (err, key) = gm_key G kid
           in if err_raised err
              then Inl (Gpg_Exception err (''Failed to retrieve key with ID '' @ kid))
              else Inr key)"

text \<open>
  The constructor. The context is created twice (the initialiser list, then the body);
  \<open>ctx->setArmor(1)\<close> on a null context is undefined.
\<close>

definition gpg_new :: "gpgme_lib \<Rightarrow> string \<Rightarrow> gpg proc" where
  "gpg_new G signer =
     bindP (askP (gm_create G)) (\<lambda>created.
     if \<not> created then throwP Null_Dereference
     else let ctx = \<lparr>ctx_armor = True, ctx_signing_keys = []\<rparr>
          in if signer \<noteq> [] then
               bindP (liftP (getKey G (Some ctx) signer)) (\<lambda>key.
               returnP \<lparr>gpg_ctx = Some (ctx\<lparr>ctx_signing_keys := gm_add_signing_key G [] key\<rparr>),
                        signerKey = signer\<rparr>)
             else returnP \<lparr>gpg_ctx = Some ctx, signerKey = signer\<rparr>)"

definition gpg_init :: "gpgme_lib \<Rightarrow> unit proc" where
  "gpg_init G =
     bindP (getP gpg_initialized) (\<lambda>initialized.
     if initialized then returnP ()
     else bindP (askP (gm_check_engine G)) (\<lambda>err.
          thenP (emitP (Gpg_Engine_Check err))
            (if err_code err \<noteq> 0
             then throwP (Gpg_Exception err ''Failed to initialize OpenPGP engine'')
             else modifyP (\<lambda>w. w\<lparr>gpg_initialized := True\<rparr>))))"

fun getKeys :: "gpgme_lib \<Rightarrow> gpg_context option \<Rightarrow> string list \<Rightarrow> exn + gpg_key list" where
  "getKeys G ctx [] = Inr []"
| "getKeys G ctx (r # rs) =
     (case getKey G ctx r of
        Inl e \<Rightarrow> Inl e
      | Inr k \<Rightarrow> (case getKeys G ctx rs of Inl e \<Rightarrow> Inl e | Inr ks \<Rightarrow> Inr (k # ks)))"

text \<open>
  \<open>encrypt\<close>: a result is the bytes and the errors of the encryption and the signing result, \<open>None\<close>
  for a null result. The plain text gets a NUL appended, and so does the cipher text.
\<close>

definition encrypt ::
  "gpgme_lib \<Rightarrow> gpg \<Rightarrow> string list \<Rightarrow> bytes \<Rightarrow> bool \<Rightarrow> (bytes \<times> gpg_error option \<times> gpg_error option) proc" where
  "encrypt G g recipients plain_text sign =
     (case gpg_ctx g of
        None \<Rightarrow> returnP ([], None, None)
      | Some ctx \<Rightarrow>
          if sign \<and> ctx_signing_keys ctx = [] then returnP ([], None, None)
          else let plain_text = plain_text @ [0] in
            bindP (liftP (getKeys G (Some ctx) recipients)) (\<lambda>keys.
            bindP (if sign
                   then askP (\<lambda>tr. let (sign_res, enc_res, cipher_text) = gm_sign_and_encrypt G tr ctx keys plain_text
                                   in (Some sign_res, enc_res, cipher_text))
                   else askP (\<lambda>tr. let (enc_res, cipher_text) = gm_encrypt G tr ctx keys plain_text
                                   in (None, enc_res, cipher_text))) (\<lambda>(sign_res, enc_res, cipher_text).
            let cipher_text = cipher_text @ [0] in
            if err_raised enc_res
            then throwP (Gpg_Exception enc_res (''Failed to encrypt with key of ID '' @ hd recipients))
            else if (case sign_res of None \<Rightarrow> False | Some e \<Rightarrow> err_raised e)
            then throwP (Gpg_Exception (the sign_res)
                   (''Failed to sign with key of ID '' @ primaryFingerprint (hd (ctx_signing_keys ctx))))
            else returnP (dataToVector G cipher_text, Some enc_res, sign_res))))"

definition decryptAndVerify :: "gpgme_lib \<Rightarrow> gpg \<Rightarrow> bytes \<Rightarrow> (bytes \<times> gpg_signature list) proc" where
  "decryptAndVerify G g cipher_text =
     (case gpg_ctx g of
        None \<Rightarrow> returnP ([], [])
      | Some ctx \<Rightarrow>
          let (dec_res, sign_res, sigs, pt) = gm_decrypt_and_verify G cipher_text
          in if err_raised dec_res then throwP (Gpg_Exception dec_res [])
             else if err_raised sign_res then throwP (Gpg_Exception sign_res [])
             else returnP (dataToVector G pt, sigs))"

definition gpg_sign :: "gpgme_lib \<Rightarrow> gpg \<Rightarrow> bytes \<Rightarrow> bytes proc" where
  "gpg_sign G g plain_text =
     (case gpg_ctx g of
        None \<Rightarrow> returnP []
      | Some ctx \<Rightarrow>
          if ctx_signing_keys ctx = [] then returnP []
          else bindP (askP (\<lambda>tr. gm_sign G tr ctx plain_text)) (\<lambda>(err, signature).
               if err_raised err
               then throwP (Gpg_Exception err
                      (''Failed to sign with key of ID '' @ primaryFingerprint (hd (ctx_signing_keys ctx))))
               else returnP (dataToVector G signature)))"

definition verify :: "gpgme_lib \<Rightarrow> gpg \<Rightarrow> bytes \<Rightarrow> bytes \<Rightarrow> gpg_signature list proc" where
  "verify G g signature plain_text =
     (case gpg_ctx g of
        None \<Rightarrow> returnP []
      | Some ctx \<Rightarrow>
          let (err, sigs) = gm_verify_opaque G signature plain_text
          in if err_raised err then throwP (Gpg_Exception err []) else returnP sigs)"

definition comment_on_signature :: "gpgme_lib \<Rightarrow> gpg_signature \<Rightarrow> unit proc" where
  "comment_on_signature G sig =
     (if and (sig_summary sig) (gm_sig_valid G) \<noteq> 0
      then DPASTE_MSG ''Valid signature from key with ID %s'' [sig_fingerprint sig]
      else returnP ())"

definition isGPGencrypted :: "gpgme_lib \<Rightarrow> bytes \<Rightarrow> bool" where
  "isGPGencrypted G data = gm_is_pgp_encrypted G data"

definition gpg_processPlainText :: "gpgme_lib \<Rightarrow> gpg \<Rightarrow> bytes \<Rightarrow> parameters option \<Rightarrow> bytes proc" where
  "gpg_processPlainText G g plain_text params =
     (case params of
        None \<Rightarrow> returnP []
      | Some params \<Rightarrow>
          bindP (liftP (get_gpg params)) (\<lambda>gparams.
          let recipients = (if gp_recipients gparams \<noteq> [] \<and> gp_self_recipient gparams \<and> signerKey g \<noteq> []
                            then gp_recipients gparams @ [signerKey g] else gp_recipients gparams);
              to_sign = (gp_sign gparams \<and> signerKey g \<noteq> [])
          in if recipients \<noteq> [] then
               thenP (DPASTE_MSG ''Encrypting (gpg)%s...'' [if to_sign then '' and signing '' else ''''])
                 (bindP (encrypt G g recipients plain_text to_sign) (\<lambda>(cipher_text, _, _). returnP cipher_text))
             else returnP []))"

definition gpg_processCipherText :: "gpgme_lib \<Rightarrow> junk_flags \<Rightarrow> gpg \<Rightarrow> bytes \<Rightarrow> parameters option \<Rightarrow> bytes proc" where
  "gpg_processCipherText G j g cipher_text params =
     bindP (liftP (case params of Some p \<Rightarrow> get_gpg p | None \<Rightarrow> Inr (gpg_parameters_default j))) (\<lambda>gparams.
     thenP (DPASTE_MSG ''Decrypting (gpg)...'' [])
       (bindP (decryptAndVerify G g cipher_text) (\<lambda>(data, sigs).
        thenP (DPASTE_MSG ''Success!'' [])
          (thenP (case sigs of s # _ \<Rightarrow> comment_on_signature G s | [] \<Rightarrow> returnP ())
            (returnP data)))))"

section \<open>Running the members\<close>

lemma comment_on_signature_Inr:
  "\<exists>w'. comment_on_signature G s w = (Inr (), w') \<and> pin_statics w' = pin_statics w"
  by (simp add: comment_on_signature_def run_msg proc_simps)

lemma messages_comment [messages_intros]: "only_messages (comment_on_signature G s)"
  by (auto simp: comment_on_signature_def intro!: messages_intros)

lemma encrypt_pure: "snd (encrypt G g rs pt sign w) = w"
  by (auto simp: encrypt_def bindP_def returnP_def throwP_def liftP_def askP_def Let_def
      split: option.split sum.split prod.split)

lemma messages_encrypt [messages_intros]: "only_messages (encrypt G g rs pt sign)"
  by (rule messages_pure) (rule encrypt_pure)

lemma messages_decrypt [messages_intros]: "only_messages (decryptAndVerify G g ct)"
  by (auto simp: decryptAndVerify_def Let_def intro!: messages_intros split: option.split prod.split)

lemma messages_sign [messages_intros]: "only_messages (gpg_sign G g pt)"
  by (auto simp: gpg_sign_def intro!: messages_intros split: option.split prod.split)

lemma messages_verify [messages_intros]: "only_messages (verify G g s pt)"
  by (auto simp: verify_def intro!: messages_intros split: option.split prod.split)

lemma messages_gpg_new [messages_intros]: "only_messages (gpg_new G signer)"
  by (auto simp: gpg_new_def Let_def intro!: messages_intros)

lemma messages_gpg_processPlain [messages_intros]: "only_messages (gpg_processPlainText G g pt params)"
  by (auto simp: gpg_processPlainText_def Let_def intro!: messages_intros split: option.split prod.split)

lemma messages_gpg_processCipher [messages_intros]: "only_messages (gpg_processCipherText G j g ct params)"
  unfolding gpg_processCipherText_def
  by (intro messages_intros)
    (auto intro!: messages_intros split: prod.split list.split)

lemma getKeys_Inr:
  "getKeys G (Some ctx) rs = Inr ks \<Longrightarrow> ks = map (\<lambda>r. snd (gm_key G r)) rs"
  by (induction rs arbitrary: ks)
    (auto simp: getKey_def Let_def split: sum.splits if_splits prod.splits)

text \<open>A successful encryption, as the calls of the library it is made of.\<close>

lemma encrypt_Inr:
  assumes "encrypt G g rs pt sign w = (Inr (ct, enc, sig), w')"
  shows "ct = [] \<or> (\<exists>ctx c. gpg_ctx g = Some ctx \<and> ct = dataToVector G (c @ [0]) \<and>
     (if sign
      then \<exists>se ee. gm_sign_and_encrypt G (trace w) ctx (map (\<lambda>r. snd (gm_key G r)) rs) (pt @ [0]) = (se, ee, c)
             \<and> \<not> err_raised se \<and> \<not> err_raised ee
      else \<exists>ee. gm_encrypt G (trace w) ctx (map (\<lambda>r. snd (gm_key G r)) rs) (pt @ [0]) = (ee, c) \<and> \<not> err_raised ee))"
proof (cases "gpg_ctx g")
  case None
  with assms show ?thesis by (simp add: encrypt_def proc_simps)
next
  case (Some ctx)
  show ?thesis
  proof (cases "getKeys G (Some ctx) rs")
    case (Inl e)
    with Some assms show ?thesis
      by (auto simp: encrypt_def bindP_def returnP_def liftP_def Let_def split: if_splits)
  next
    case (Inr ks)
    with Some assms show ?thesis
      by (auto simp: encrypt_def bindP_def returnP_def throwP_def liftP_def askP_def Let_def
          getKeys_Inr [OF Inr] split: if_splits prod.splits)
  qed
qed

text \<open>The constructor: what it makes, and that a context is there afterwards.\<close>

definition gpg_wf :: "gpg \<Rightarrow> bool" where
  "gpg_wf g \<longleftrightarrow> (case gpg_ctx g of None \<Rightarrow> False
     | Some ctx \<Rightarrow> ctx_armor ctx \<and> (signerKey g = [] \<or> ctx_signing_keys ctx \<noteq> []))"

definition adds_keys :: "gpgme_lib \<Rightarrow> bool" where
  "adds_keys G \<longleftrightarrow> (\<forall>ks k. gm_add_signing_key G ks k = ks @ [k])"

lemma gpg_new_wf:
  assumes "adds_keys G" and "gpg_new G signer w = (Inr g, w')"
  shows "gpg_wf g \<and> signerKey g = signer \<and> w' = w"
  using assms
  by (auto simp: gpg_new_def bindP_def returnP_def throwP_def liftP_def askP_def Let_def gpg_wf_def
      adds_keys_def split: if_splits sum.splits)

lemma gpg_new_empty:
  "gm_create G (trace w) \<Longrightarrow>
     gpg_new G [] w = (Inr \<lparr>gpg_ctx = Some \<lparr>ctx_armor = True, ctx_signing_keys = []\<rparr>, signerKey = []\<rparr>, w)"
  by (simp add: gpg_new_def proc_simps Let_def)

section \<open>The round trip of the cipher\<close>

text \<open>
  The documented behaviour of GpgME that the round trip rests on: reads deliver the data; whoever
  owns the secret key (\<open>own\<close>) of one of the recipients decrypts what was encrypted for them, also
  with the NUL that \<open>encrypt\<close> writes behind the armored message; and such a message is recognised
  as PGP data.
\<close>

definition decrypts :: "gpgme_lib \<Rightarrow> bytes \<Rightarrow> bytes \<Rightarrow> bool" where
  "decrypts G c pt \<longleftrightarrow> gm_is_pgp_encrypted G (c @ [0]) \<and>
     (\<exists>d s sigs. gm_decrypt_and_verify G (c @ [0]) = (d, s, sigs, pt) \<and> \<not> err_raised d \<and> \<not> err_raised s)"

definition gpgme_ok :: "gpgme_lib \<times> (gpg_key \<Rightarrow> bool) \<Rightarrow> bool" where
  "gpgme_ok L \<longleftrightarrow> (case L of (G, own) \<Rightarrow> reads_ok G \<and>
     (\<forall>tr ctx keys pt ee c. gm_encrypt G tr ctx keys pt = (ee, c) \<and> \<not> err_raised ee \<and>
        list_ex own keys \<longrightarrow> decrypts G c pt) \<and>
     (\<forall>tr ctx keys pt se ee c. gm_sign_and_encrypt G tr ctx keys pt = (se, ee, c) \<and>
        \<not> err_raised se \<and> \<not> err_raised ee \<and> list_ex own keys \<longrightarrow> decrypts G c pt))"

definition recipient_owned :: "gpgme_lib \<times> (gpg_key \<Rightarrow> bool) \<Rightarrow> parameters option \<Rightarrow> bool" where
  "recipient_owned L params \<longleftrightarrow> (case L of (G, own) \<Rightarrow>
     (case get_if_gpg params of None \<Rightarrow> False
      | Some gp \<Rightarrow> list_ex (\<lambda>r. own (snd (gm_key G r))) (gp_recipients gp)))"

lemma gpgme_ok_encrypt:
  "\<lbrakk>gpgme_ok (G, own); gm_encrypt G tr ctx keys pt = (ee, c); \<not> err_raised ee; list_ex own keys\<rbrakk> \<Longrightarrow>
     decrypts G c pt"
  unfolding gpgme_ok_def prod.case by blast

lemma gpgme_ok_sign_encrypt:
  "\<lbrakk>gpgme_ok (G, own); gm_sign_and_encrypt G tr ctx keys pt = (se, ee, c); \<not> err_raised se;
     \<not> err_raised ee; list_ex own keys\<rbrakk> \<Longrightarrow> decrypts G c pt"
  unfolding gpgme_ok_def prod.case by blast

lemma processPlainText_decrypts:
  assumes ok: "gpgme_ok (G, own)" and own: "recipient_owned (G, own) params"
    and enc: "gpg_processPlainText G g pt params w = (Inr ct, w1)" and ne: "ct \<noteq> []"
  shows "\<exists>c. ct = c @ [0] \<and> decrypts G c (pt @ [0])"
proof -
  obtain gp where p: "params = Some (GPG_Params gp)"
    and o: "list_ex (\<lambda>r. own (snd (gm_key G r))) (gp_recipients gp)"
    using own by (auto simp: recipient_owned_def get_if_gpg_def split: option.splits parameters.splits)
  let ?rs = "if gp_recipients gp \<noteq> [] \<and> gp_self_recipient gp \<and> signerKey g \<noteq> []
             then gp_recipients gp @ [signerKey g] else gp_recipients gp"
  let ?s = "gp_sign gp \<and> signerKey g \<noteq> []"
  have rs: "list_ex own (map (\<lambda>r. snd (gm_key G r)) ?rs)" and rs0: "?rs \<noteq> []"
    using o by (auto simp: list_ex_iff)
  obtain enc' sig w0 w2 where e: "encrypt G g ?rs pt ?s w0 = (Inr (ct, enc', sig), w2)"
    using enc rs0 p
    by (auto simp: gpg_processPlainText_def bindP_def thenP_def returnP_def liftP_def Let_def run_msg
        split: prod.splits sum.splits if_splits)
  have r: "reads_ok G" using ok by (simp add: gpgme_ok_def)
  obtain ctx c where c: "ct = dataToVector G (c @ [0])" and lib:
    "if ?s
     then \<exists>se ee. gm_sign_and_encrypt G (trace w0) ctx (map (\<lambda>r. snd (gm_key G r)) ?rs) (pt @ [0]) = (se, ee, c)
            \<and> \<not> err_raised se \<and> \<not> err_raised ee
     else \<exists>ee. gm_encrypt G (trace w0) ctx (map (\<lambda>r. snd (gm_key G r)) ?rs) (pt @ [0]) = (ee, c) \<and> \<not> err_raised ee"
    using encrypt_Inr [OF e] ne by auto
  have "decrypts G c (pt @ [0])"
  proof (cases ?s)
    case True
    then obtain se ee where
      "gm_sign_and_encrypt G (trace w0) ctx (map (\<lambda>r. snd (gm_key G r)) ?rs) (pt @ [0]) = (se, ee, c)"
      "\<not> err_raised se" "\<not> err_raised ee"
      using lib by meson
    then show ?thesis using rs by (rule gpgme_ok_sign_encrypt [OF ok])
  next
    case False
    then obtain ee where
      "gm_encrypt G (trace w0) ctx (map (\<lambda>r. snd (gm_key G r)) ?rs) (pt @ [0]) = (ee, c)"
      "\<not> err_raised ee"
      using lib by meson
    then show ?thesis using rs by (rule gpgme_ok_encrypt [OF ok])
  qed
  moreover have "ct = c @ [0]" using c dataToVector_eq [OF r] by simp
  ultimately show ?thesis by blast
qed

lemma processCipherText_decrypts:
  assumes "reads_ok G" and "gpg_ctx g \<noteq> None" and "decrypts G c pt"
  shows "\<exists>w'. gpg_processCipherText G j g (c @ [0]) None w = (Inr pt, w')"
proof -
  obtain ctx where ctx: "gpg_ctx g = Some ctx" using assms(2) by blast
  obtain d s sigs where d: "gm_decrypt_and_verify G (c @ [0]) = (d, s, sigs, pt)"
    "\<not> err_raised d" "\<not> err_raised s"
    using assms(3) unfolding decrypts_def by blast
  have dv: "decryptAndVerify G g (c @ [0]) v = (Inr (pt, sigs), v)" for v
    by (simp add: decryptAndVerify_def ctx d proc_simps dataToVector_eq [OF assms(1)])
  let ?comment = "case sigs of s # _ \<Rightarrow> comment_on_signature G s | [] \<Rightarrow> returnP ()"
  let ?v = "after_msg ''Success!'' [] (after_msg ''Decrypting (gpg)...'' [] w)"
  have "\<exists>v'. ?comment ?v = (Inr (), v')"
  proof (cases sigs)
    case Nil
    then show ?thesis by (simp add: run_return)
  next
    case (Cons a list)
    then show ?thesis using comment_on_signature_Inr [of G a ?v] by auto
  qed
  then obtain v' where v': "?comment ?v = (Inr (), v')" by blast
  have "gpg_processCipherText G j g (c @ [0]) None w = (Inr pt, v')"
    unfolding gpg_processCipherText_def
    by (simp add: run_lift run_bind_Inr run_then_Inr run_msg dv v' run_return)
  then show ?thesis by blast
qed

interpretation gpg: cipher_scheme
  "\<lambda>L ep pt. gpg_processPlainText (fst L) (fst ep) pt (snd ep)"
  "\<lambda>L dp ct. gpg_processCipherText (fst L) (fst dp) (snd dp) ct None"
  gpgme_ok
  "\<lambda>L ep dp. recipient_owned L (snd ep) \<and> gpg_ctx (snd dp) \<noteq> None"
  "\<lambda>pt. pt @ [0]"
proof
  fix L :: "gpgme_lib \<times> (gpg_key \<Rightarrow> bool)" and ep :: "gpg \<times> parameters option"
    and dp :: "junk_flags \<times> gpg" and pt ct w w1 w2
  assume a: "gpgme_ok L" "recipient_owned L (snd ep) \<and> gpg_ctx (snd dp) \<noteq> None"
    "gpg_processPlainText (fst L) (fst ep) pt (snd ep) w = (Inr ct, w1)" "ct \<noteq> []"
  obtain G own where L: "L = (G, own)" by (cases L)
  with a obtain c where c: "ct = c @ [0]" "decrypts G c (pt @ [0])"
    using processPlainText_decrypts [of G own "snd ep" "fst ep" pt w ct w1] by auto
  have "reads_ok G" using a(1) L by (simp add: gpgme_ok_def)
  with processCipherText_decrypts [of G "snd dp" c "pt @ [0]" "fst dp" w2] a(2) c L
  show "\<exists>w3. gpg_processCipherText (fst L) (fst dp) (snd dp) ct None w2 = (Inr (pt @ [0]), w3)"
    by simp
qed simp

section \<open>A concrete library\<close>

text \<open>
  A toy GpgME with the documented behaviour, for concrete instances: messages are marked by four
  bytes, the key \<open>nobody\<close> does not exist, and data objects are read in blocks of 1024 bytes.
\<close>

fun block_reads :: "nat \<Rightarrow> bytes \<Rightarrow> bytes list" where
  "block_reads n [] = [[]]"
| "block_reads n (b # bs) = take (Suc n) (b # bs) # block_reads n (drop n bs)"

lemma block_reads_ok:
  "\<exists>cs es. block_reads n d = cs @ es \<and> concat cs = d \<and> list_all (\<lambda>c. c \<noteq> []) cs \<and> list_all (\<lambda>e. e = []) es"
proof (induction n d rule: block_reads.induct)
  case (1 n)
  have "block_reads n [] = [] @ [[]]" by simp
  then show ?case by force
next
  case (2 n b bs)
  then obtain cs es where i: "block_reads n (drop n bs) = cs @ es" "concat cs = drop n bs"
    "list_all (\<lambda>c. c \<noteq> []) cs" "list_all (\<lambda>e. e = []) es" by blast
  have "block_reads n (b # bs) = (take (Suc n) (b # bs) # cs) @ es" using i by simp
  moreover have "concat (take (Suc n) (b # bs) # cs) = b # bs" using i by simp
  moreover have "list_all (\<lambda>c. c \<noteq> []) (take (Suc n) (b # bs) # cs)" using i by simp
  ultimately show ?case using i(4) by blast
qed

definition PGP_MARK :: bytes where
  "PGP_MARK = [80, 71, 80, 58]"

definition toy_key :: "string \<Rightarrow> gpg_key" where
  "toy_key r = \<lparr>key_id = r, primaryFingerprint = ''FPR-'' @ r\<rparr>"

definition toy_gpgme :: gpgme_lib where
  "toy_gpgme = \<lparr>gm_create = (\<lambda>tr. True), gm_check_engine = (\<lambda>tr. no_error),
     gm_key = (\<lambda>r. (if r = ''nobody'' then Gpg_Error 9 True else no_error, toy_key r)),
     gm_add_signing_key = (\<lambda>ks k. ks @ [k]),
     gm_encrypt = (\<lambda>tr ctx keys pt. (no_error, PGP_MARK @ pt)),
     gm_sign_and_encrypt = (\<lambda>tr ctx keys pt. (no_error, no_error, PGP_MARK @ pt)),
     gm_decrypt_and_verify = (\<lambda>ct. if take 4 ct = PGP_MARK
        then (no_error, no_error, [\<lparr>sig_summary = 1, sig_fingerprint = ''FPR-me''\<rparr>], butlast (drop 4 ct))
        else (Gpg_Error 58 True, no_error, [], [])),
     gm_sign = (\<lambda>tr ctx pt. (no_error, 83 # pt)),
     gm_verify_opaque = (\<lambda>sig pt. (no_error, [\<lparr>sig_summary = (if sig = 83 # pt then 1 else 4),
        sig_fingerprint = ''FPR-me''\<rparr>])),
     gm_is_pgp_encrypted = (\<lambda>d. take 4 d = PGP_MARK),
     gm_reads = block_reads 1023, gm_sig_valid = 1, gm_what = (\<lambda>e m. m)\<rparr>"

definition toy_own :: "gpg_key \<Rightarrow> bool" where
  "toy_own k = (key_id k = ''me'')"

lemma toy_reads_ok: "reads_ok toy_gpgme"
  unfolding reads_ok_def by (simp add: toy_gpgme_def block_reads_ok)

lemma toy_dataToVector [simp]: "dataToVector toy_gpgme d = d"
  by (rule dataToVector_eq [OF toy_reads_ok])

lemma toy_gpgme_simps [simp]:
  "gm_create toy_gpgme = (\<lambda>tr. True)" "gm_check_engine toy_gpgme = (\<lambda>tr. no_error)"
  "gm_key toy_gpgme = (\<lambda>r. (if r = ''nobody'' then Gpg_Error 9 True else no_error, toy_key r))"
  "gm_add_signing_key toy_gpgme = (\<lambda>ks k. ks @ [k])"
  "gm_encrypt toy_gpgme = (\<lambda>tr ctx keys pt. (no_error, PGP_MARK @ pt))"
  "gm_sign_and_encrypt toy_gpgme = (\<lambda>tr ctx keys pt. (no_error, no_error, PGP_MARK @ pt))"
  "gm_sign toy_gpgme = (\<lambda>tr ctx pt. (no_error, 83 # pt))"
  "gm_is_pgp_encrypted toy_gpgme = (\<lambda>d. take 4 d = PGP_MARK)"
  by (simp_all add: toy_gpgme_def)

lemma no_error_simps [simp]: "\<not> err_raised no_error" "err_code no_error = 0"
  by (simp_all add: no_error_def)

lemma toy_adds_keys: "adds_keys toy_gpgme"
  by (simp add: adds_keys_def toy_gpgme_def)

lemma toy_decrypts: "decrypts toy_gpgme (PGP_MARK @ pt) pt"
  by (simp add: decrypts_def toy_gpgme_def PGP_MARK_def no_error_def)

lemma toy_gpgme_ok: "gpgme_ok (toy_gpgme, toy_own)"
proof -
  have "decrypts toy_gpgme c pt" if "gm_encrypt toy_gpgme tr ctx keys pt = (ee, c)" for tr ctx keys pt ee c
    using that toy_decrypts by (auto simp: toy_gpgme_def)
  moreover have "decrypts toy_gpgme c pt"
    if "gm_sign_and_encrypt toy_gpgme tr ctx keys pt = (se, ee, c)" for tr ctx keys pt se ee c
    using that toy_decrypts by (auto simp: toy_gpgme_def)
  ultimately show ?thesis
    using toy_reads_ok unfolding gpgme_ok_def prod.case by blast
qed

section \<open>Properties\<close>

text \<open>
  Encrypting with \<open>processPlainText\<close> for recipients one of whose secret keys is at hand, then
  decrypting the result with any other \<open>GPG\<close> object, gives the plain text followed by the NUL
  byte that \<open>encrypt\<close> appends: the NUL is inside what is encrypted, and decryption does not
  remove it. The values of uninitialised flags play no role.
\<close>

lemma gpg_process_roundtrip:
  assumes "gpgme_ok (G, own)" and "recipient_owned (G, own) params" and "gpg_ctx g' \<noteq> None"
    and "gpg_processPlainText G g pt params w = (Inr ct, w1)" and "ct \<noteq> []"
  shows "fst (gpg_processCipherText G j g' ct None w2) = Inr (pt @ [0])"
  using gpg.decrypt_encrypt [of "(G, own)" "(g, params)" "(j, g')" pt w ct w1 w2] assms by auto

definition toy_gpg :: gpg where
  "toy_gpg = \<lparr>gpg_ctx = Some \<lparr>ctx_armor = True, ctx_signing_keys = []\<rparr>, signerKey = []\<rparr>"

lemma gpg_process_roundtrip_witness:
  "\<exists>ct. fst (gpg_processPlainText toy_gpgme toy_gpg [104, 105]
            (Some (GPG_Params (gpg_parameters_full [''me''] False False))) init_world) = Inr ct \<and>
     fst (gpg_processCipherText toy_gpgme \<lparr>junk_self_recipient = True, junk_sign = True\<rparr> toy_gpg ct None init_world)
       = Inr [104, 105, 0]"
proof -
  let ?p = "Some (GPG_Params (gpg_parameters_full [''me''] False False))"
  let ?ct = "PGP_MARK @ [104, 105, 0, 0]"
  have e: "gpg_processPlainText toy_gpgme toy_gpg [104, 105] ?p init_world =
      (Inr ?ct, after_msg ''Encrypting (gpg)%s...'' [[]] init_world)"
    by (simp add: gpg_processPlainText_def encrypt_def toy_gpg_def proc_defs run_msg
        gpg_parameters_full_def getKey_def)
  have o: "recipient_owned (toy_gpgme, toy_own) ?p"
    by (simp add: recipient_owned_def gpg_parameters_full_def toy_own_def toy_gpgme_def toy_key_def)
  have c: "gpg_ctx toy_gpg \<noteq> None" by (simp add: toy_gpg_def)
  have n: "?ct \<noteq> []" by simp
  show ?thesis
    using gpg_process_roundtrip [OF toy_gpgme_ok o c e n, of "\<lparr>junk_self_recipient = True, junk_sign = True\<rparr>"]
    by (simp add: e)
qed

lemma encrypt_not_empty:
  assumes "reads_ok G" and "gpg_wf g" and "sign \<longrightarrow> signerKey g \<noteq> []"
    and "encrypt G g rs pt sign w = (Inr (ct, enc, sig), w')"
  shows "\<exists>c. ct = c @ [0]"
proof -
  obtain ctx where ctx: "gpg_ctx g = Some ctx"
    using assms(2) by (auto simp: gpg_wf_def split: option.splits)
  have keys: "\<not> (sign \<and> ctx_signing_keys ctx = [])"
    using assms(2,3) ctx by (auto simp: gpg_wf_def)
  have "\<exists>c. ct = dataToVector G (c @ [0])"
  proof (cases "getKeys G (Some ctx) rs")
    case (Inl e)
    with ctx keys assms(4) show ?thesis
      by (auto simp: encrypt_def bindP_def liftP_def Let_def)
  next
    case (Inr ks)
    with ctx keys assms(4) show ?thesis
      by (auto simp: encrypt_def bindP_def returnP_def throwP_def liftP_def askP_def Let_def
          split: if_splits prod.splits)
  qed
  then show ?thesis using dataToVector_eq [OF assms(1)] by auto
qed

lemma processPlainText_not_empty:
  assumes "reads_ok G" and "gpg_wf g" and "gp_recipients gp \<noteq> []"
    and "gpg_processPlainText G g pt (Some (GPG_Params gp)) w = (Inr ct, w')"
  shows "\<exists>c. ct = c @ [0]"
proof -
  let ?rs = "if gp_self_recipient gp \<and> signerKey g \<noteq> [] then gp_recipients gp @ [signerKey g] else gp_recipients gp"
  let ?s = "gp_sign gp \<and> signerKey g \<noteq> []"
  obtain enc sig w1 w2 where "encrypt G g ?rs pt ?s w1 = (Inr (ct, enc, sig), w2)"
    using assms(3,4)
    by (auto simp: gpg_processPlainText_def bindP_def thenP_def returnP_def liftP_def Let_def run_msg
        split: prod.splits sum.splits if_splits)
  then show ?thesis
    by (rule encrypt_not_empty [OF assms(1,2), rotated]) simp
qed

text \<open>
  A \<open>GPG\<close> object the constructor made never falls back to plain text when there are recipients:
  \<open>processPlainText\<close> either throws or returns a cipher text, which ends in the NUL that \<open>encrypt\<close>
  writes. (The branch of \<open>encrypt\<close> that returns nothing, signing without a signing key, is closed
  by the constructor's invariant.)
\<close>

lemma gpg_never_plain_text:
  assumes "reads_ok G" and "adds_keys G" and "gpg_new G signer w0 = (Inr g, w0')"
    and "gp_recipients gp \<noteq> []"
    and "gpg_processPlainText G g pt (Some (GPG_Params gp)) w = (Inr ct, w')"
  shows "\<exists>c. ct = c @ [0]"
  using processPlainText_not_empty [OF assms(1) _ assms(4,5)] gpg_new_wf [OF assms(2,3)] by blast

lemma gpg_never_plain_text_witness:
  "\<exists>c. fst (gpg_processPlainText toy_gpgme
        \<lparr>gpg_ctx = Some \<lparr>ctx_armor = True, ctx_signing_keys = [toy_key ''me'']\<rparr>, signerKey = ''me''\<rparr>
        [104, 105] (Some (GPG_Params (gpg_parameters_full [''bob''] True True))) init_world)
     = Inr (c @ [0])"
proof -
  let ?g = "\<lparr>gpg_ctx = Some \<lparr>ctx_armor = True, ctx_signing_keys = [toy_key ''me'']\<rparr>, signerKey = ''me''\<rparr>"
  let ?gp = "gpg_parameters_full [''bob''] True True"
  have n: "gpg_new toy_gpgme ''me'' init_world = (Inr ?g, init_world)"
    by (simp add: gpg_new_def proc_defs getKey_def)
  have r: "gp_recipients ?gp \<noteq> []"
    by (simp add: gpg_parameters_full_def)
  have e: "gpg_processPlainText toy_gpgme ?g [104, 105] (Some (GPG_Params ?gp)) init_world =
      (Inr (PGP_MARK @ [104, 105, 0, 0]), after_msg ''Encrypting (gpg)%s...'' ['' and signing ''] init_world)"
    by (simp add: gpg_processPlainText_def encrypt_def proc_defs run_msg gpg_parameters_full_def getKey_def)
  show ?thesis
    using gpg_never_plain_text [OF toy_reads_ok toy_adds_keys n r e] by (simp add: e)
qed

text \<open>
  C34. What \<open>processCipherText\<close> returns or throws, for every answer of the library: an error of the
  decryption is thrown first, then one of the verification, and otherwise the result is the
  decrypted data, whether or not there is a signature and whatever the signature is worth. The
  uninitialised flags of the default parameters (\<open>j\<close>) play no role.
\<close>

theorem gpg_decrypt_outcomes:
  assumes "gpg_ctx g = Some ctx"
  shows "fst (gpg_processCipherText G j g ct None w) =
     (case gm_decrypt_and_verify G ct of (dec, ver, sigs, pt) \<Rightarrow>
        if err_raised dec then Inl (Gpg_Exception dec [])
        else if err_raised ver then Inl (Gpg_Exception ver [])
        else Inr (dataToVector G pt))"
proof -
  obtain dec ver sigs pt where d: "gm_decrypt_and_verify G ct = (dec, ver, sigs, pt)"
    by (cases "gm_decrypt_and_verify G ct")
  have "comment_on_signature G s v = (Inr (), snd (comment_on_signature G s v))" for s v
    using comment_on_signature_Inr [of G s v] by auto
  then have c: "\<And>s v n. thenP (comment_on_signature G s) n v = n (snd (comment_on_signature G s v))"
    by (rule run_then_Inr)
  show ?thesis
    by (cases sigs) (simp_all add: gpg_processCipherText_def decryptAndVerify_def assms d c proc_simps run_msg)
qed

theorem gpg_decrypt_outcomes_witness:
  "fst (gpg_processCipherText toy_gpgme \<lparr>junk_self_recipient = False, junk_sign = True\<rparr> toy_gpg [1, 2, 3] None init_world)
     = Inl (Gpg_Exception (Gpg_Error 58 True) [])"
proof -
  have c: "gpg_ctx toy_gpg = Some \<lparr>ctx_armor = True, ctx_signing_keys = []\<rparr>"
    by (simp add: toy_gpg_def)
  show ?thesis
    using gpg_decrypt_outcomes [OF c] by (simp add: toy_gpgme_def PGP_MARK_def)
qed

end
