(* ===== verification/Cipher.thy ===== *)
theory Cipher
  imports Aes Gpg
begin

text \<open>
  \<open>src/cipher.cpp\<close>: initialisation, and the two functions that choose a cipher: by scheme when
  pasting, by looking at the data and at the length of the code when getting. The abstract class
  \<open>Cipher\<close> is the datatype of its two implementations, its virtual members dispatch on it.
\<close>

datatype cipher = AES_Cipher | GPG_Cipher gpg

definition cipher_init :: "gpgme_lib \<Rightarrow> unit proc" where
  "cipher_init G =
     bindP (getP cipher_initialized) (\<lambda>initialized.
     if initialized then returnP ()
     else thenP (gpg_init G) (modifyP (\<lambda>w. w\<lparr>cipher_initialized := True\<rparr>)))"

definition cipher_get_by_text :: "gpgme_lib \<Rightarrow> bytes \<Rightarrow> string \<Rightarrow> cipher option proc" where
  "cipher_get_by_text G cipher_text pin =
     (if isGPGencrypted G cipher_text
      then bindP (gpg_new G []) (\<lambda>g. returnP (Some (GPG_Cipher g)))
      else if length pin = PIN_WITH_PASS_LEN then returnP (Some AES_Cipher)
      else returnP None)"

text \<open>
  The scheme is the raw \<open>int\<close> behind the enumeration, since the caller may pass an uninitialised
  one: every value that is neither AES nor GPG takes the \<open>default\<close> branch.
\<close>

definition cipher_get_by_scheme :: "gpgme_lib \<Rightarrow> int \<Rightarrow> parameters option \<Rightarrow> cipher option proc" where
  "cipher_get_by_scheme G s params =
     (if s = scheme_value AES then returnP (Some AES_Cipher)
      else if s = scheme_value GPG then
        (case get_if_gpg params of
           Some gpg_params \<Rightarrow> bindP (gpg_new G (gp_key_id gpg_params)) (\<lambda>g. returnP (Some (GPG_Cipher g)))
         | None \<Rightarrow> bindP (gpg_new G []) (\<lambda>g. returnP (Some (GPG_Cipher g))))
      else returnP None)"

fun processPlainText :: "aes_lib \<Rightarrow> gpgme_lib \<Rightarrow> cipher \<Rightarrow> bytes \<Rightarrow> parameters option \<Rightarrow> bytes proc" where
  "processPlainText A G AES_Cipher plain_text params = aes_processPlainText A plain_text params"
| "processPlainText A G (GPG_Cipher g) plain_text params = gpg_processPlainText G g plain_text params"

fun processCipherText ::
  "aes_lib \<Rightarrow> gpgme_lib \<Rightarrow> junk_flags \<Rightarrow> cipher \<Rightarrow> bytes \<Rightarrow> parameters option \<Rightarrow> bytes proc" where
  "processCipherText A G j AES_Cipher cipher_text params = aes_processCipherText A cipher_text params"
| "processCipherText A G j (GPG_Cipher g) cipher_text params = gpg_processCipherText G j g cipher_text params"

lemma messages_get_by_text [messages_intros]: "only_messages (cipher_get_by_text G ct pin)"
  by (auto simp: cipher_get_by_text_def intro!: messages_intros)

lemma messages_get_by_scheme [messages_intros]: "only_messages (cipher_get_by_scheme G s params)"
  by (auto simp: cipher_get_by_scheme_def intro!: messages_intros split: option.split)

lemma messages_processPlainText [messages_intros]: "only_messages (processPlainText A G c pt params)"
  by (cases c) (auto intro!: messages_intros)

lemma messages_processCipherText [messages_intros]: "only_messages (processCipherText A G j c ct params)"
  by (cases c) (auto intro!: messages_intros)

lemma get_by_text_plain [proc_simps]:
  "\<lbrakk>\<not> isGPGencrypted G ct; length pin \<noteq> 16\<rbrakk> \<Longrightarrow> cipher_get_by_text G ct pin w = (Inr None, w)"
  by (simp add: cipher_get_by_text_def PIN_WITH_PASS_LEN_def proc_simps)

lemma get_by_text_aes [proc_simps]:
  "\<lbrakk>\<not> isGPGencrypted G ct; length pin = 16\<rbrakk> \<Longrightarrow> cipher_get_by_text G ct pin w = (Inr (Some AES_Cipher), w)"
  by (simp add: cipher_get_by_text_def PIN_WITH_PASS_LEN_def proc_simps)

definition fresh_gpg :: gpg where
  "fresh_gpg = \<lparr>gpg_ctx = Some \<lparr>ctx_armor = True, ctx_signing_keys = []\<rparr>, signerKey = []\<rparr>"

lemma get_by_text_gpg [proc_simps]:
  "\<lbrakk>isGPGencrypted G ct; gm_create G (trace w)\<rbrakk> \<Longrightarrow>
     cipher_get_by_text G ct pin w = (Inr (Some (GPG_Cipher fresh_gpg)), w)"
  by (simp add: cipher_get_by_text_def gpg_new_empty fresh_gpg_def proc_simps)

lemma get_by_scheme_cases:
  "cipher_get_by_scheme G s params w =
     (if s = 2 then (Inr (Some AES_Cipher), w)
      else if s = 1 then
        (case gpg_new G (case get_if_gpg params of Some gp \<Rightarrow> gp_key_id gp | None \<Rightarrow> []) w of
           (Inl e, w') \<Rightarrow> (Inl e, w') | (Inr g, w') \<Rightarrow> (Inr (Some (GPG_Cipher g)), w'))
      else (Inr None, w))"
  by (auto simp: cipher_get_by_scheme_def bindP_def returnP_def split: option.split prod.split sum.split)

section \<open>Initialisation\<close>

definition engine_ok :: "event \<Rightarrow> bool" where
  "engine_ok e \<longleftrightarrow> (case e of Gpg_Engine_Check err \<Rightarrow> err_code err = 0 | _ \<Rightarrow> False)"

definition init_inv :: "world \<Rightarrow> bool" where
  "init_inv w \<longleftrightarrow> cipher_initialized w = gpg_initialized w \<and>
     length (filter engine_ok (trace w)) = (if gpg_initialized w then 1 else 0)"

lemma run_cipher_init:
  "init_inv w \<Longrightarrow> cipher_init G w =
     (if cipher_initialized w then (Inr (), w)
      else let err = gm_check_engine G (trace w); w' = record_event (Gpg_Engine_Check err) w
           in if err_code err \<noteq> 0
              then (Inl (Gpg_Exception err ''Failed to initialize OpenPGP engine''), w')
              else (Inr (), w'\<lparr>gpg_initialized := True, cipher_initialized := True\<rparr>))"
  by (simp add: cipher_init_def gpg_init_def init_inv_def proc_simps Let_def)

lemma cipher_init_inv: "init_inv w \<Longrightarrow> init_inv (snd (cipher_init G w))"
  by (simp add: run_cipher_init Let_def) (simp add: init_inv_def engine_ok_def record_event_def)

text \<open>
  However often \<open>Cipher::init\<close> is called, and whichever calls throw, the two flags agree and say
  whether an engine check has succeeded; there is at most one successful check, after which a call
  does nothing.
\<close>

lemma cipher_init_once:
  "let w = ((\<lambda>w. snd (cipher_init G w)) ^^ n) init_world
   in cipher_initialized w = gpg_initialized w \<and>
      length (filter engine_ok (trace w)) = of_bool (gpg_initialized w) \<and>
      cipher_init G w =
        (if gpg_initialized w then (Inr (), w)
         else let err = gm_check_engine G (trace w); w' = record_event (Gpg_Engine_Check err) w
              in if err_code err \<noteq> 0
                 then (Inl (Gpg_Exception err ''Failed to initialize OpenPGP engine''), w')
                 else (Inr (), w'\<lparr>gpg_initialized := True, cipher_initialized := True\<rparr>))"
proof -
  let ?w = "((\<lambda>w. snd (cipher_init G w)) ^^ n) init_world"
  have inv: "init_inv ?w"
  proof (induction n)
    case 0
    show ?case by (simp add: init_inv_def init_world_def)
  next
    case (Suc n)
    then show ?case by (simp add: cipher_init_inv)
  qed
  then have "cipher_initialized ?w = gpg_initialized ?w"
    and "length (filter engine_ok (trace ?w)) = of_bool (gpg_initialized ?w)"
    by (simp_all add: init_inv_def)
  with run_cipher_init [OF inv, of G] show ?thesis
    unfolding Let_def by simp
qed

text \<open>
  Which cipher opens a pasted packet: GPG exactly when the data is a PGP message, otherwise AES
  exactly when the code has the length of a PIN with a password, otherwise none. So a code printed
  for a plain paste never selects AES and one printed for an AES paste selects it.
\<close>

lemma cipher_selection:
  assumes "gm_create G (trace w)"
  shows "\<exists>c. cipher_get_by_text G ct pin w = (Inr c, w) \<and>
     (case c of
        Some (GPG_Cipher g) \<Rightarrow> isGPGencrypted G ct \<and> gpg_wf g
      | Some AES_Cipher \<Rightarrow> \<not> isGPGencrypted G ct \<and> length pin = 16
      | None \<Rightarrow> \<not> isGPGencrypted G ct \<and> length pin \<noteq> 16)"
proof (cases "isGPGencrypted G ct")
  case True
  then show ?thesis
    using get_by_text_gpg [OF True assms] by (simp add: gpg_wf_def fresh_gpg_def)
next
  case False
  then show ?thesis
    using get_by_text_plain [OF False, of pin w] get_by_text_aes [OF False, of pin w]
    by (cases "length pin = 16") simp_all
qed

lemma cipher_selection_witness:
  "\<exists>c. cipher_get_by_text toy_gpgme [1, 2] ''B79F2F91C811D5DC'' init_world = (Inr c, init_world)"
  using cipher_selection [of toy_gpgme init_world "[1, 2]" "''B79F2F91C811D5DC''"] by auto

end
