(* ===== verification/Conf.thy ===== *)
theory Conf
  imports Effects
begin

text \<open>
  \<open>src/conf.h\<close> and \<open>src/conf.cpp\<close>: the configuration file. A \<open>ConfigurationFile\<close> holds a path and
  a map from option names to values, filled with the defaults by the constructor; \<open>load\<close> reads
  the file line by line and overwrites the options it knows.
\<close>

type_synonym config = "string \<rightharpoonup> string"

record configuration_file =
  filePath :: string
  config_map :: config

text \<open>The host: the user's configuration directory and the files that can be opened.\<close>

record host_lib =
  user_config_dir :: string
  read_file :: "string \<Rightarrow> string option"

definition CONFIG_FILE_NAME :: string where
  "CONFIG_FILE_NAME = ''dpaste.conf''"

definition default_config :: config where
  "default_config = [''host'' \<mapsto> ''127.0.0.1'', ''port'' \<mapsto> ''6509'', ''pgp_key_id'' \<mapsto> '''']"

definition configuration_file :: "host_lib \<Rightarrow> string \<Rightarrow> configuration_file" where
  "configuration_file H file_path =
     \<lparr>filePath = (if file_path = [] then user_config_dir H @ ''/'' @ CONFIG_FILE_NAME else file_path),
      config_map = default_config\<rparr>"

section \<open>trim_str\<close>

text \<open>
  \<open>first\<close> and \<open>last\<close> are clipped to the size, so a string of blanks gives \<open>substr(size, 1)\<close>.
  The subtraction is the one of the source; \<open>trim_no_underflow\<close> shows that it never wraps.
\<close>

definition trim_str :: "string \<Rightarrow> string option" where
  "trim_str str =
     (let first = min_npos (length str) (find_first_not_of (CHR '' '') str);
          last = min_npos (length str) (find_last_not_of (CHR '' '') str)
      in substr str first (last - first + 1))"

text \<open>The reference: blanks dropped at both ends.\<close>

definition trimmed :: "string \<Rightarrow> string" where
  "trimmed s = rev (dropWhile (\<lambda>c. c = CHR '' '') (rev (dropWhile (\<lambda>c. c = CHR '' '') s)))"

lemma dropWhile_rev_split:
  assumes "i < length s" and "\<not> P (s ! i)" and "\<forall>c \<in> set (drop (Suc i) s). P c"
  shows "rev (dropWhile P (rev s)) = take (Suc i) s"
proof -
  have "s = take (Suc i) s @ drop (Suc i) s" by simp
  then have "rev s = rev (drop (Suc i) s) @ rev (take (Suc i) s)"
    by (metis rev_append)
  moreover have "rev (take (Suc i) s) = s ! i # rev (take i s)"
    using assms(1) by (simp add: take_Suc_conv_app_nth)
  ultimately show ?thesis
    using assms(1,2,3) by (simp add: dropWhile_append take_Suc_conv_app_nth)
qed

lemma trim_no_underflow:
  "min_npos (length s) (find_first_not_of x s) \<le> min_npos (length s) (find_last_not_of x s)"
proof (cases "find_last_not_of x s")
  case None
  then show ?thesis by (simp add: min_npos_def split: option.split)
next
  case (Some i)
  then have i: "i < length s" "s ! i \<noteq> x"
    using find_last_not_of_Some [of x s i] by auto
  have "length (takeWhile (\<lambda>c. c = x) s) \<le> i"
  proof (rule ccontr)
    assume "\<not> ?thesis"
    then have "s ! i \<in> set (takeWhile (\<lambda>c. c = x) s)"
      by (metis not_le nth_mem takeWhile_nth)
    with i(2) show False by (auto dest: set_takeWhileD)
  qed
  with Some i show ?thesis
    by (simp add: find_first_not_of_dropWhile) (simp add: min_npos_def)
qed

lemma trimmed_blanks: "set s \<subseteq> {CHR '' ''} \<Longrightarrow> trimmed s = []"
  by (auto simp: trimmed_def dropWhile_eq_Nil_conv dest: set_dropWhileD)

lemma trim_str_eq: "trim_str s = Some (trimmed s)"
proof (cases "find_last_not_of (CHR '' '') s")
  case None
  then have "\<forall>c \<in> set s. c = CHR '' ''" by (simp add: find_last_not_of_None)
  then have "set s \<subseteq> {CHR '' ''}" by blast
  then have t: "trimmed s = []" by (rule trimmed_blanks)
  from \<open>\<forall>c \<in> set s. c = CHR '' ''\<close> have "find_first_not_of (CHR '' '') s = None"
    by (simp add: find_first_not_of_None)
  then have "trim_str s = Some []"
    by (simp add: trim_str_def substr_def min_npos_def None)
  with t show ?thesis by simp
next
  case (Some i)
  let ?P = "\<lambda>c. c = CHR '' ''"
  let ?f = "length (takeWhile ?P s)"
  have i: "i < length s" "\<not> ?P (s ! i)" "\<forall>c \<in> set (drop (Suc i) s). ?P c"
    using find_last_not_of_Some [OF Some] by auto
  have f: "min_npos (length s) (find_first_not_of (CHR '' '') s) = ?f"
    by (rule find_first_not_of_dropWhile)
  have l: "min_npos (length s) (Some i) = i"
    using i(1) by (simp add: min_npos_def)
  have le: "?f \<le> i"
    using trim_no_underflow [of s "CHR '' ''"] Some f l by simp
  have "rev (dropWhile ?P (rev (drop ?f s))) = take (Suc (i - ?f)) (drop ?f s)"
  proof (rule dropWhile_rev_split)
    show "i - ?f < length (drop ?f s)" using i(1) le by simp
    show "\<not> ?P (drop ?f s ! (i - ?f))" using i le by simp
    show "\<forall>c \<in> set (drop (Suc (i - ?f)) (drop ?f s)). ?P c" using i(3) le by simp
  qed
  moreover have "dropWhile ?P s = drop ?f s"
    by (rule dropWhile_eq_drop)
  moreover have "?f \<le> length s" by (rule length_takeWhile_le)
  ultimately show ?thesis
    using Some f l by (simp add: trim_str_def trimmed_def substr_def Let_def)
qed

definition tidy :: "string \<Rightarrow> bool" where
  "tidy s \<longleftrightarrow> s \<noteq> [] \<and> hd s \<noteq> CHR '' '' \<and> last s \<noteq> CHR '' ''"

lemma trimmed_pad:
  assumes "tidy s" and "set a \<subseteq> {CHR '' ''}" and "set b \<subseteq> {CHR '' ''}"
  shows "trimmed (a @ s @ b) = s"
proof -
  let ?P = "\<lambda>c. c = CHR '' ''"
  obtain x xs where s: "s = x # xs" "x \<noteq> CHR '' ''"
    using assms(1) by (cases s) (auto simp: tidy_def)
  have "dropWhile ?P (a @ s @ b) = s @ b"
    using assms(2) s by (induction a) auto
  moreover obtain y ys where t: "rev s = y # ys" "y \<noteq> CHR '' ''"
    using assms(1) by (cases "rev s") (auto simp: tidy_def hd_rev [symmetric])
  have "dropWhile ?P (rev (s @ b)) = rev s"
    using assms(3) t by (induction b rule: rev_induct) auto
  ultimately show ?thesis by (simp add: trimmed_def)
qed

lemma trimmed_tidy [simp]: "tidy s \<Longrightarrow> trimmed s = s"
  using trimmed_pad [of s "[]" "[]"] by simp

lemma trimmed_decomposition:
  "\<exists>a b. s = a @ trimmed s @ b \<and> set a \<subseteq> {CHR '' ''} \<and> set b \<subseteq> {CHR '' ''}"
proof -
  let ?P = "\<lambda>c. c = CHR '' ''"
  let ?d = "dropWhile ?P s"
  have "s = takeWhile ?P s @ ?d" by simp
  moreover have "rev ?d = takeWhile ?P (rev ?d) @ dropWhile ?P (rev ?d)" by simp
  then have "?d = trimmed s @ rev (takeWhile ?P (rev ?d))"
    unfolding trimmed_def by (metis rev_append rev_rev_ident)
  ultimately have "s = takeWhile ?P s @ trimmed s @ rev (takeWhile ?P (rev ?d))"
    by simp
  moreover have "set (takeWhile ?P s) \<subseteq> {CHR '' ''}"
    and "set (rev (takeWhile ?P (rev ?d))) \<subseteq> {CHR '' ''}"
    by (auto dest: set_takeWhileD)
  ultimately show ?thesis by blast
qed

lemma trimmed_tidy_or_Nil: "trimmed s = [] \<or> tidy (trimmed s)"
proof (cases "trimmed s = []")
  case False
  let ?P = "\<lambda>c. c = CHR '' ''"
  let ?r = "dropWhile ?P (rev (dropWhile ?P s))"
  have tr: "trimmed s = rev ?r" by (simp only: trimmed_def)
  have r: "?r \<noteq> []" using False unfolding tr rev_is_Nil_conv .
  then have "hd ?r \<noteq> CHR '' ''" by (rule hd_dropWhile)
  then have l: "last (trimmed s) \<noteq> CHR '' ''" unfolding tr last_rev .
  obtain b where b: "dropWhile ?P s = trimmed s @ b"
    unfolding trimmed_def by (metis rev_append rev_rev_ident takeWhile_dropWhile_id)
  then have "dropWhile ?P s \<noteq> []" using False by (metis Nil_is_append_conv)
  then have "hd (dropWhile ?P s) \<noteq> CHR '' ''" by (rule hd_dropWhile)
  with b False have "hd (trimmed s) \<noteq> CHR '' ''" by simp
  with l False show ?thesis by (simp add: tidy_def)
qed simp

section \<open>ConfigurationFile::load\<close>

text \<open>
  The inner loop reads the line up to the next \<open>=\<close>. \<open>arg\<close> is a fresh empty string in every
  iteration and stays empty when the second \<open>getline\<close> fails. That \<open>getline\<close> takes
  the rest of the line, so the loop ends after it; an unknown name makes the loop go on with what
  follows the \<open>=\<close>. \<open>None\<close> is an escaping \<open>std::out_of_range\<close>.
\<close>

definition assign :: "config \<Rightarrow> string \<Rightarrow> string \<Rightarrow> config" where
  "assign config key arg = (if arg \<noteq> [] then config(key \<mapsto> arg) else config)"

function parse_line :: "config \<Rightarrow> string \<Rightarrow> config option" where
  "parse_line config r =
     (case getline (CHR ''='') r of
        None \<Rightarrow> Some config
      | Some (arg_name, rest) \<Rightarrow>
          (case trim_str arg_name of
             None \<Rightarrow> None
           | Some arg_name \<Rightarrow>
               if config arg_name \<noteq> None then
                 (let arg = (case Option.bind rest (getline (CHR 0x0A)) of
                               None \<Rightarrow> []
                             | Some (arg, _) \<Rightarrow> arg)
                  in case trim_str arg of
                       None \<Rightarrow> None
                     | Some arg \<Rightarrow>
                         (case Option.bind rest (getline (CHR 0x0A)) of
                            Some (_, Some rest') \<Rightarrow> parse_line (assign config arg_name arg) rest'
                          | _ \<Rightarrow> Some (assign config arg_name arg)))
               else (case rest of None \<Rightarrow> Some config | Some rest' \<Rightarrow> parse_line config rest')))"
  by pat_completeness auto
termination
proof (relation "measure (\<lambda>(c, r). length r)", goal_cases)
  case 1
  show ?case by simp
next
  case (2 config r x arg_name rest arg_name')
  then show ?case
    by (auto dest!: getline_length split: bind_splits)
next
  case (3 config r x arg_name rest arg_name' rest')
  then show ?case
    by (auto dest: getline_length)
qed

declare parse_line.simps [simp del]

function parse_lines :: "config \<Rightarrow> string \<Rightarrow> config option" where
  "parse_lines config r =
     (case getline (CHR 0x0A) r of
        None \<Rightarrow> Some config
      | Some (line, rest) \<Rightarrow>
          (case parse_line config line of
             None \<Rightarrow> None
           | Some config' \<Rightarrow>
               (case rest of None \<Rightarrow> Some config' | Some rest' \<Rightarrow> parse_lines config' rest')))"
  by pat_completeness auto
termination
  by (relation "measure (\<lambda>(c, r). length r)") (auto dest: getline_length)

declare parse_lines.simps [simp del]

definition load :: "host_lib \<Rightarrow> configuration_file \<Rightarrow> exn + int \<times> configuration_file" where
  "load H cf =
     (case read_file H (filePath cf) of
        None \<Rightarrow> Inr (1, cf)
      | Some content \<Rightarrow>
          (case parse_lines (config_map cf) content of
             None \<Rightarrow> Inl Out_Of_Range
           | Some config' \<Rightarrow> Inr (0, cf\<lparr>config_map := config'\<rparr>)))"

definition getConfiguration :: "configuration_file \<Rightarrow> config" where
  "getConfiguration cf = config_map cf"

text \<open>\<open>std::map::at\<close>.\<close>

definition map_at :: "config \<Rightarrow> string \<Rightarrow> exn + string" where
  "map_at m k = (case m k of None \<Rightarrow> Inl Out_Of_Range | Some v \<Rightarrow> Inr v)"

section \<open>What a line does\<close>

text \<open>
  The unfolding of \<open>parse_line\<close> with \<open>trim_str\<close> resolved, then one equation per shape of line.
\<close>

lemma parse_line_unfold:
  "parse_line config r =
     (case getline (CHR ''='') r of
        None \<Rightarrow> Some config
      | Some (arg_name, rest) \<Rightarrow>
          if config (trimmed arg_name) \<noteq> None then
            (case Option.bind rest (getline (CHR 0x0A)) of
               None \<Rightarrow> Some config
             | Some (arg, None) \<Rightarrow> Some (assign config (trimmed arg_name) (trimmed arg))
             | Some (arg, Some rest') \<Rightarrow>
                 parse_line (assign config (trimmed arg_name) (trimmed arg)) rest')
          else (case rest of None \<Rightarrow> Some config | Some rest' \<Rightarrow> parse_line config rest'))"
proof -
  have "trimmed [] = []" by (simp add: trimmed_def)
  then show ?thesis
    by (subst parse_line.simps)
      (auto simp: trim_str_eq Let_def assign_def split: option.splits prod.splits)
qed

lemma parse_line_Nil [text_simps]: "parse_line config [] = Some config"
  by (subst parse_line_unfold) (simp add: text_simps)

lemma parse_line_no_equals [text_simps]:
  "CHR ''='' \<notin> set r \<Longrightarrow> parse_line config r = Some config"
  by (cases "r = []") (simp_all add: text_simps parse_line_unfold [of config r])

lemma parse_line_known [text_simps]:
  assumes "CHR ''='' \<notin> set n" and "CHR 0x0A \<notin> set v" and "config (trimmed n) \<noteq> None"
  shows "parse_line config (n @ CHR ''='' # v) = Some (assign config (trimmed n) (trimmed v))"
proof (cases "v = []")
  case True
  have "trimmed [] = []" by (simp add: trimmed_def)
  with True assms show ?thesis
    by (subst parse_line_unfold) (simp add: text_simps assign_def split: option.split)
next
  case False
  with assms show ?thesis
    by (subst parse_line_unfold) (simp add: text_simps split: option.split)
qed

lemma parse_line_unknown [text_simps]:
  assumes "CHR ''='' \<notin> set n" and "config (trimmed n) = None"
  shows "parse_line config (n @ CHR ''='' # v) = parse_line config v"
  using assms by (subst parse_line_unfold) (simp add: text_simps)

lemma dom_assign: "config k \<noteq> None \<Longrightarrow> dom (assign config k v) = dom config"
  by (auto simp: assign_def)

lemma assign_nonempty:
  "\<lbrakk>config k \<noteq> None; \<forall>u. config j = Some u \<longrightarrow> u \<noteq> []; assign config k v j = Some u\<rbrakk> \<Longrightarrow> u \<noteq> []"
  by (auto simp: assign_def split: if_splits)

text \<open>
  The invariant of the configuration: \<open>load\<close> adds and removes no option, and an option that
  has a non-empty value keeps one.
\<close>

definition config_le :: "config \<Rightarrow> config \<Rightarrow> bool" where
  "config_le c c' \<longleftrightarrow> dom c' = dom c \<and>
     (\<forall>k. c k \<noteq> Some [] \<longrightarrow> c' k \<noteq> Some [])"

lemma config_le_refl: "config_le c c"
  by (simp add: config_le_def)

lemma config_le_trans: "config_le a b \<Longrightarrow> config_le b c \<Longrightarrow> config_le a c"
  by (simp add: config_le_def)

lemma config_le_assign: "c k \<noteq> None \<Longrightarrow> config_le c (assign c k v)"
  by (auto simp: config_le_def assign_def)

lemma parse_line_total: "\<exists>c'. parse_line config r = Some c' \<and> config_le config c'"
proof (induction config r rule: parse_line.induct)
  case (1 config r)
  show ?case
  proof (cases "getline (CHR ''='') r")
    case None
    then show ?thesis by (subst parse_line_unfold) (simp add: config_le_refl)
  next
    case (Some p)
    obtain n rest where p: "p = (n, rest)" by (cases p)
    show ?thesis
    proof (cases "config (trimmed n)")
      case None
      show ?thesis
      proof (cases rest)
        case None
        with Some p \<open>config (trimmed n) = None\<close> show ?thesis
          by (subst parse_line_unfold) (simp add: config_le_refl)
      next
        case (Some rest')
        have "\<exists>c'. parse_line config rest' = Some c' \<and> config_le config c'"
          by (rule "1.IH"(2)) (use Some \<open>getline _ r = Some p\<close> p None in \<open>simp_all add: trim_str_eq\<close>)
        with Some \<open>getline _ r = Some p\<close> p None show ?thesis
          by (subst parse_line_unfold) simp
      qed
    next
      case known: (Some u)
      let ?g = "Option.bind rest (getline (CHR 0x0A))"
      consider "?g = None" | arg where "?g = Some (arg, None)"
        | arg rest' where "?g = Some (arg, Some rest')"
        by (cases ?g) (auto, metis option.exhaust)
      then show ?thesis
      proof cases
        case 1
        with Some p known show ?thesis
          by (subst parse_line_unfold) (simp add: config_le_refl)
      next
        case (2 arg)
        with Some p known show ?thesis
          by (subst parse_line_unfold) (simp add: config_le_assign)
      next
        case (3 arg rest')
        have "\<exists>c'. parse_line (assign config (trimmed n) (trimmed arg)) rest' = Some c' \<and>
            config_le (assign config (trimmed n) (trimmed arg)) c'"
          by (rule "1.IH"(1)) (use Some p known 3 in \<open>simp_all add: trim_str_eq\<close>)
        with Some p known 3 show ?thesis
          by (subst parse_line_unfold) (auto intro!: config_le_trans [OF config_le_assign])
      qed
    qed
  qed
qed

section \<open>What a file does\<close>

text \<open>The effect of one line, as a total function; a file is the fold of it over its lines.\<close>

definition line_step :: "string \<Rightarrow> config \<Rightarrow> config" where
  "line_step line config = the (parse_line config line)"

lemma parse_line_step: "parse_line config line = Some (line_step line config)"
  using parse_line_total [of config line] by (auto simp: line_step_def)

lemma config_le_line_step: "config_le config (line_step line config)"
  using parse_line_total [of config line] by (auto simp: line_step_def)

lemma parse_lines_unfold:
  "parse_lines config r =
     (case getline (CHR 0x0A) r of
        None \<Rightarrow> Some config
      | Some (line, None) \<Rightarrow> Some (line_step line config)
      | Some (line, Some rest) \<Rightarrow> parse_lines (line_step line config) rest)"
  by (subst parse_lines.simps) (auto simp: parse_line_step split: option.splits prod.splits)

definition unlines :: "string list \<Rightarrow> string" where
  "unlines ls = concat (map (\<lambda>l. l @ [CHR 0x0A]) ls)"

lemma parse_lines_unlines:
  "\<forall>l \<in> set ls. CHR 0x0A \<notin> set l \<Longrightarrow> parse_lines config (unlines ls) = Some (fold line_step ls config)"
proof (induction ls arbitrary: config)
  case Nil
  show ?case by (subst parse_lines_unfold) (simp add: unlines_def text_simps)
next
  case (Cons l ls)
  have "getline (CHR 0x0A) (unlines (l # ls)) = Some (l, Some (unlines ls))"
    using Cons.prems by (simp add: unlines_def text_simps)
  with Cons show ?case by (subst parse_lines_unfold) simp
qed

lemma parse_lines_total: "\<exists>c'. parse_lines config r = Some c' \<and> config_le config c'"
proof (induction "length r" arbitrary: config r rule: less_induct)
  case less
  show ?case
  proof (cases "getline (CHR 0x0A) r")
    case None
    then show ?thesis by (subst parse_lines_unfold) (simp add: config_le_refl)
  next
    case (Some p)
    obtain l rest where p: "p = (l, rest)" by (cases p)
    show ?thesis
    proof (cases rest)
      case None
      with Some p show ?thesis by (subst parse_lines_unfold) (simp add: config_le_line_step)
    next
      case (Some rest')
      with \<open>getline _ r = Some p\<close> p have "length rest' < length r"
        by (simp add: getline_length)
      then have "\<exists>c'. parse_lines (line_step l config) rest' = Some c' \<and>
          config_le (line_step l config) c'"
        by (rule less.hyps)
      with Some \<open>getline _ r = Some p\<close> p show ?thesis
        by (subst parse_lines_unfold) (auto intro: config_le_trans [OF config_le_line_step])
    qed
  qed
qed

section \<open>The interface the rest of the program uses\<close>

text \<open>
  \<open>Bin\<close> loads a configuration and then calls \<open>at\<close> on the options it needs. What it relies on:
  loading returns, and keeps every option the configuration had.
\<close>

locale config_source =
  fixes load_from :: "'h \<Rightarrow> 'c \<Rightarrow> exn + int \<times> 'c"
    and options :: "'c \<Rightarrow> config"
  assumes load_returns: "\<exists>rc c'. load_from h c = Inr (rc, c')"
    and load_keeps: "load_from h c = Inr (rc, c') \<Longrightarrow> config_le (options c) (options c')"
begin

lemma at_after_load:
  assumes "options c k \<noteq> None"
  shows "\<exists>rc c' v. load_from h c = Inr (rc, c') \<and> map_at (options c') k = Inr v"
proof -
  obtain rc c' where l: "load_from h c = Inr (rc, c')"
    using load_returns by blast
  then have "dom (options c') = dom (options c)"
    using load_keeps by (auto simp: config_le_def)
  with assms obtain v where "options c' k = Some v"
    by (auto simp: dom_def)
  with l show ?thesis by (auto simp: map_at_def)
qed

lemma nonempty_after_load:
  "\<lbrakk>load_from h c = Inr (rc, c'); options c k \<noteq> Some []\<rbrakk> \<Longrightarrow> options c' k \<noteq> Some []"
  using load_keeps by (auto simp: config_le_def)

end

interpretation conf: config_source load config_map
proof
  fix H cf
  show "\<exists>rc cf'. load H cf = Inr (rc, cf')"
    using parse_lines_total [of "config_map cf"]
    by (auto simp: load_def split: option.splits) (metis option.distinct(1))
next
  fix H cf rc cf'
  assume "load H cf = Inr (rc, cf')"
  then show "config_le (config_map cf) (config_map cf')"
    using parse_lines_total [of "config_map cf"]
    by (auto simp: load_def config_le_refl split: option.splits) (metis option.inject)
qed

section \<open>Properties\<close>

text \<open>
  \<open>trim_str\<close> never throws, removes blanks only, only at the two ends, and leaves none there.
\<close>

lemma trim_str_correct:
  "\<exists>t a b. trim_str s = Some t \<and> s = a @ t @ b \<and>
     set a \<subseteq> {CHR '' ''} \<and> set b \<subseteq> {CHR '' ''} \<and> (t = [] \<or> tidy t)"
  using trimmed_decomposition [of s] trimmed_tidy_or_Nil [of s] by (auto simp: trim_str_eq)

text \<open>
  C29. Whatever the file holds (or when it cannot be opened), \<open>load\<close> on a new
  \<open>ConfigurationFile\<close> returns, the options are exactly the three with a default, so \<open>at\<close>
  finds each of them, and the host and the port are never empty. The return code is 1 exactly
  when the file cannot be opened.
\<close>

theorem load_total:
  "\<exists>rc cf h p g. load H (configuration_file H path) = Inr (rc, cf) \<and>
     (rc = 1 \<longleftrightarrow> read_file H (filePath (configuration_file H path)) = None) \<and>
     dom (getConfiguration cf) = {''host'', ''port'', ''pgp_key_id''} \<and>
     map_at (getConfiguration cf) ''host'' = Inr h \<and> h \<noteq> [] \<and>
     map_at (getConfiguration cf) ''port'' = Inr p \<and> p \<noteq> [] \<and>
     map_at (getConfiguration cf) ''pgp_key_id'' = Inr g"
proof -
  let ?cf = "configuration_file H path"
  obtain rc cf where l: "load H ?cf = Inr (rc, cf)"
    using conf.load_returns by blast
  have le: "config_le default_config (config_map cf)"
    using conf.load_keeps [OF l] by (simp add: configuration_file_def)
  have dom: "dom (config_map cf) = {''host'', ''port'', ''pgp_key_id''}"
    using le by (auto simp: config_le_def default_config_def split: if_splits)
  have ne: "config_map cf ''host'' \<noteq> Some []" "config_map cf ''port'' \<noteq> Some []"
    using le by (auto simp: config_le_def default_config_def)
  have rc: "rc = 1 \<longleftrightarrow> read_file H (filePath ?cf) = None"
    using l by (auto simp: load_def split: option.splits)
  obtain h p g where "config_map cf ''host'' = Some h" "config_map cf ''port'' = Some p"
    "config_map cf ''pgp_key_id'' = Some g"
    using dom by (metis domD insertCI)
  with l rc dom ne show ?thesis
    by (auto simp: getConfiguration_def map_at_def)
qed

definition assignment_line :: "string \<times> string \<Rightarrow> string" where
  "assignment_line kv = fst kv @ '' = '' @ snd kv"

definition well_formed_assignment :: "config \<Rightarrow> string \<times> string \<Rightarrow> bool" where
  "well_formed_assignment c kv \<longleftrightarrow> fst kv \<in> dom c \<and> tidy (fst kv) \<and> tidy (snd kv) \<and>
     CHR ''='' \<notin> set (fst kv) \<and> CHR 0x0A \<notin> set (fst kv) \<and> CHR 0x0A \<notin> set (snd kv)"

lemma line_step_assignment:
  assumes "well_formed_assignment c kv"
  shows "line_step (assignment_line kv) c = c(fst kv \<mapsto> snd kv)"
proof -
  have k: "trimmed (fst kv @ '' '') = fst kv" and v: "trimmed ('' '' @ snd kv) = snd kv"
    using assms trimmed_pad [of "fst kv" "[]" "'' ''"] trimmed_pad [of "snd kv" "'' ''" "[]"]
    by (auto simp: well_formed_assignment_def)
  have "parse_line c ((fst kv @ '' '') @ CHR ''='' # ('' '' @ snd kv)) =
      Some (assign c (fst kv) (snd kv))"
    using assms by (subst parse_line_known) (auto simp: well_formed_assignment_def k v simp del: append.simps)
  moreover have "assign c (fst kv) (snd kv) = c(fst kv \<mapsto> snd kv)"
    using assms by (auto simp: assign_def well_formed_assignment_def tidy_def)
  ultimately show ?thesis
    by (simp add: line_step_def assignment_line_def)
qed

lemma fold_assignments:
  "list_all (well_formed_assignment c) kvs \<Longrightarrow>
     fold line_step (map assignment_line kvs) c = c ++ map_of (rev kvs)"
proof (induction kvs arbitrary: c)
  case Nil
  show ?case by simp
next
  case (Cons kv kvs)
  let ?c = "c(fst kv \<mapsto> snd kv)"
  have "list_all (well_formed_assignment ?c) kvs"
    using Cons.prems by (auto simp: list_all_iff well_formed_assignment_def)
  then have "fold line_step (map assignment_line kvs) ?c = ?c ++ map_of (rev kvs)"
    by (rule Cons.IH)
  with Cons.prems show ?case
    by (simp add: line_step_assignment map_add_def fun_eq_iff split: option.split)
qed

text \<open>
  A file of well-formed lines \<open>option = value\<close> is read back as the assignments it holds: each
  option has the value of its last line, the others their default. So \<open>load\<close> inverts the
  printing of a list of assignments.
\<close>

lemma load_assignments:
  assumes "read_file H (filePath cf) = Some (unlines (map assignment_line kvs))"
    and "list_all (well_formed_assignment (config_map cf)) kvs"
  shows "load H cf = Inr (0, cf\<lparr>config_map := config_map cf ++ map_of (rev kvs)\<rparr>)"
proof -
  have "\<forall>l \<in> set (map assignment_line kvs). CHR 0x0A \<notin> set l"
    using assms(2) by (auto simp: list_all_iff well_formed_assignment_def assignment_line_def)
  then have "parse_lines (config_map cf) (unlines (map assignment_line kvs)) =
      Some (config_map cf ++ map_of (rev kvs))"
    using fold_assignments [OF assms(2)] by (simp add: parse_lines_unlines)
  with assms(1) show ?thesis by (simp add: load_def)
qed

text \<open>The well-formed file of the unit tests, \<open>tests/misc/dpaste.conf.1\<close>.\<close>

definition test_host :: host_lib where
  "test_host = \<lparr>user_config_dir = ''/home/u/.config'',
     read_file = (\<lambda>p. if p = ''./tests/misc/dpaste.conf.1'' then
        Some (unlines [''host = 192.168.1.100'', ''port = 6500'']) else None)\<rparr>"

lemma load_assignments_witness:
  "\<exists>cf. load test_host (configuration_file test_host ''./tests/misc/dpaste.conf.1'') = Inr (0, cf) \<and>
     getConfiguration cf ''host'' = Some ''192.168.1.100'' \<and>
     getConfiguration cf ''port'' = Some ''6500'' \<and> getConfiguration cf ''pgp_key_id'' = Some []"
proof -
  let ?cf = "configuration_file test_host ''./tests/misc/dpaste.conf.1''"
  let ?kvs = "[(''host'', ''192.168.1.100''), (''port'', ''6500'')]"
  have f: "read_file test_host (filePath ?cf) = Some (unlines (map assignment_line ?kvs))"
    by (simp add: test_host_def configuration_file_def assignment_line_def)
  have w: "list_all (well_formed_assignment (config_map ?cf)) ?kvs"
    by (simp add: configuration_file_def default_config_def well_formed_assignment_def tidy_def)
  show ?thesis
    using load_assignments [OF f w]
    by (simp add: getConfiguration_def configuration_file_def default_config_def)
qed

text \<open>
  A line whose first name is unknown is not omitted: parsing goes on behind the \<open>=\<close>, so
  \<open>x = host = v\<close> assigns the host.
\<close>

lemma unknown_name_continues:
  assumes "CHR ''='' \<notin> set n" and "config (trimmed n) = None"
    and "CHR ''='' \<notin> set k" and "CHR 0x0A \<notin> set v" and "config (trimmed k) \<noteq> None"
  shows "parse_line config (n @ ''='' @ k @ ''='' @ v) = Some (assign config (trimmed k) (trimmed v))"
  using assms by (simp add: text_simps)

lemma unknown_name_continues_witness:
  "parse_line default_config ''# old = host = 10.0.0.1'' = Some (default_config(''host'' \<mapsto> ''10.0.0.1''))"
  using unknown_name_continues [of "''# old ''" default_config "'' host ''" "'' 10.0.0.1''"]
  by (simp add: default_config_def trimmed_def assign_def)

end
