(* ===== verification/Node.thy ===== *)
theory Node
  imports Effects
begin

text \<open>
  \<open>src/node.h\<close> and \<open>src/node.cpp\<close>: the DHT node. The operations of \<open>dht::DhtRunner\<close> are
  fields of \<open>dht_lib\<close>, which answer according to the trace so far: \<open>dht_put\<close> gives the flag the
  done callback is called with, \<open>dht_get\<close> the values the get future delivers for a hash and
  a user type. What the blocking \<open>Node::paste\<close> makes of the callback is the subject of
  \<open>Node_Blocking\<close>; here its result is \<open>blocking_result\<close>, which that theory shows to be exactly the
  set of outcomes of the two threads.
\<close>

record dht_lib =
  infohash_get :: "string \<Rightarrow> infohash"
  infohash_toString :: "infohash \<Rightarrow> string"
  dht_put :: "event list \<Rightarrow> infohash \<Rightarrow> dht_value \<Rightarrow> bool"
  dht_get :: "event list \<Rightarrow> infohash \<Rightarrow> string \<Rightarrow> dht_value list"

definition DEFAULT_BOOTSTRAP_NODE :: string where
  "DEFAULT_BOOTSTRAP_NODE = ''bootstrap.ring.cx''"

definition DEFAULT_BOOTSTRAP_PORT :: string where
  "DEFAULT_BOOTSTRAP_PORT = ''4222''"

definition OPERATION_FAILURE_MSG :: string where
  "OPERATION_FAILURE_MSG = ''err.. DHT operation failed.''"

definition DPASTE_USER_TYPE :: string where
  "DPASTE_USER_TYPE = ''dpaste''"

record node =
  running :: bool

definition node_new :: node where
  "node_new = \<lparr>running = False\<rparr>"

section \<open>run and stop\<close>

definition run :: "16 word \<Rightarrow> string \<Rightarrow> string \<Rightarrow> node \<Rightarrow> node proc" where
  "run port bootstrap_hostname bootstrap_port n =
     (if running n then returnP n
      else thenP (emitP (Dht_Run port))
             (thenP (emitP (Dht_Bootstrap bootstrap_hostname bootstrap_port))
               (returnP (n\<lparr>running := True\<rparr>))))"

definition run_default :: "node \<Rightarrow> node proc" where
  "run_default = run 0 DEFAULT_BOOTSTRAP_NODE DEFAULT_BOOTSTRAP_PORT"

definition stop :: "node \<Rightarrow> node proc" where
  "stop n = thenP (emitP Dht_Shutdown) (thenP (emitP Dht_Join) (returnP (n\<lparr>running := False\<rparr>)))"

section \<open>paste\<close>

definition paste_value :: "bytes \<Rightarrow> dht_value" where
  "paste_value blob = \<lparr>val_data = blob, val_user_type = DPASTE_USER_TYPE\<rparr>"

text \<open>With a callback: the put is started, and the result is \<open>true\<close> whatever comes of it.\<close>

definition paste_async :: "dht_lib \<Rightarrow> string \<Rightarrow> bytes \<Rightarrow> (bool \<Rightarrow> unit proc) \<Rightarrow> bool proc" where
  "paste_async D code blob cb =
     (let v = paste_value blob; hash = infohash_get D code
      in bindP (askP (\<lambda>tr. dht_put D tr hash v)) (\<lambda>success.
         thenP (emitP (Dht_Put hash v success))
           (thenP (cb success) (returnP True))))"

text \<open>
  Without one: \<open>done\<close> is declared without an initial value. If the memory happens to hold a true
  value (\<open>done0\<close>) and the wait is reached before the callback has run (\<open>early\<close>), the predicate is
  true at once and \<open>success_\<close> is still \<open>false\<close>.
\<close>

definition blocking_result :: "bool \<Rightarrow> bool \<Rightarrow> bool \<Rightarrow> bool" where
  "blocking_result done0 early success = (if done0 \<and> early then False else success)"

record race =
  race_done :: bool
  race_early :: bool

definition paste_blocking :: "dht_lib \<Rightarrow> race \<Rightarrow> string \<Rightarrow> bytes \<Rightarrow> bool proc" where
  "paste_blocking D rc code blob =
     (let v = paste_value blob; hash = infohash_get D code
      in bindP (askP (\<lambda>tr. dht_put D tr hash v)) (\<lambda>success.
         thenP (emitP (Dht_Put hash v success))
           (thenP (if \<not> success then emitP (Stderr (OPERATION_FAILURE_MSG @ '' (put)'' @ [CHR 0x0A]))
                   else returnP ())
             (returnP (blocking_result (race_done rc) (race_early rc) success)))))"

section \<open>get\<close>

text \<open>
  The asynchronous get: the value callback collects into the shared vector and asks for more, the
  done callback passes the vector on, or reports the failure.
\<close>

definition get_on_value :: "bytes list \<Rightarrow> dht_value \<Rightarrow> bytes list \<times> bool" where
  "get_on_value blobs value = (blobs @ [val_data value], True)"

definition get_on_done :: "(bytes list \<Rightarrow> unit proc) option \<Rightarrow> bytes list \<Rightarrow> bool \<Rightarrow> unit proc" where
  "get_on_done pcb blobs success =
     (if \<not> success then emitP (Stderr (OPERATION_FAILURE_MSG @ '' (get)'' @ [CHR 0x0A]))
      else case pcb of Some cb \<Rightarrow> cb blobs | None \<Rightarrow> returnP ())"

fun deliver :: "bytes list \<Rightarrow> dht_value list \<Rightarrow> bytes list" where
  "deliver blobs [] = blobs"
| "deliver blobs (v # vs) =
     (case get_on_value blobs v of (blobs', go_on) \<Rightarrow> if go_on then deliver blobs' vs else blobs')"

definition get_async :: "dht_lib \<Rightarrow> string \<Rightarrow> (bytes list \<Rightarrow> unit proc) option \<Rightarrow> bool \<Rightarrow> unit proc" where
  "get_async D code pcb success =
     (let hash = infohash_get D code
      in bindP (askP (\<lambda>tr. dht_get D tr hash DPASTE_USER_TYPE)) (\<lambda>values.
         thenP (emitP (Dht_Get hash DPASTE_USER_TYPE)) (get_on_done pcb (deliver [] values) success)))"

definition get_blobs :: "dht_lib \<Rightarrow> string \<Rightarrow> bytes list proc" where
  "get_blobs D code =
     (let hash = infohash_get D code
      in bindP (askP (\<lambda>tr. dht_get D tr hash DPASTE_USER_TYPE)) (\<lambda>values.
         thenP (emitP (Dht_Get hash DPASTE_USER_TYPE)) (returnP (map val_data values))))"

section \<open>The interface of a store\<close>

text \<open>
  \<open>Bin\<close> knows two places to leave a packet, the HTTP service and the node: both take a code and
  some bytes, say whether they took them, and give back a list of candidates for a code, of which
  the first counts. \<open>holds e w c d\<close> says that in state \<open>w\<close> the store holds \<open>d\<close> under \<open>c\<close>, and
  \<open>free e w c\<close> that it holds nothing there.
\<close>

locale blob_store =
  fixes put_blob :: "'env \<Rightarrow> string \<Rightarrow> bytes \<Rightarrow> bool proc"
    and get_first :: "'env \<Rightarrow> string \<Rightarrow> bytes option proc"
    and env_ok :: "'env \<Rightarrow> bool"
    and free :: "'env \<Rightarrow> world \<Rightarrow> string \<Rightarrow> bool"
    and holds :: "'env \<Rightarrow> world \<Rightarrow> string \<Rightarrow> bytes \<Rightarrow> bool"
  assumes put_holds:
    "\<lbrakk>env_ok e; free e w c; d \<noteq> []; put_blob e c d w = (Inr True, w')\<rbrakk> \<Longrightarrow> holds e w' c d"
    and get_holds:
    "\<lbrakk>env_ok e; holds e w c d\<rbrakk> \<Longrightarrow> \<exists>w'. get_first e c w = (Inr (Some d), w') \<and> holds e w' c d"
begin

lemma get_after_put:
  assumes "env_ok e" and "free e w c" and "d \<noteq> []" and "put_blob e c d w = (Inr True, w')"
  shows "\<exists>w''. get_first e c w' = (Inr (Some d), w'')"
  using get_holds [OF assms(1) put_holds [OF assms]] by blast

lemma get_again:
  assumes "env_ok e" and "holds e w c d"
  shows "\<exists>w1 w2. get_first e c w = (Inr (Some d), w1) \<and> get_first e c w1 = (Inr (Some d), w2)"
  using get_holds [OF assms] get_holds [OF assms(1)] by blast

end

section \<open>The DHT as a store\<close>

text \<open>The values of a user type that puts of the trace left under a hash.\<close>

fun dht_stored :: "infohash \<Rightarrow> string \<Rightarrow> event list \<Rightarrow> dht_value list" where
  "dht_stored h ut [] = []"
| "dht_stored h ut (e # es) =
     (case e of
        Dht_Put h' v ok \<Rightarrow> (if ok \<and> h' = h \<and> val_user_type v = ut then v # dht_stored h ut es else dht_stored h ut es)
      | _ \<Rightarrow> dht_stored h ut es)"

lemma dht_stored_append [simp]: "dht_stored h ut (es @ fs) = dht_stored h ut es @ dht_stored h ut fs"
  by (induction es) (auto split: event.split)

text \<open>
  The documented behaviour, for values that have not expired: a get delivers the values whose put
  succeeded under the hash and which the filter lets pass, in some order, perhaps repeatedly.
\<close>

definition dht_ok :: "dht_lib \<Rightarrow> bool" where
  "dht_ok D \<longleftrightarrow> (\<forall>tr h ut. set (dht_get D tr h ut) = set (dht_stored h ut tr))"

definition node_free :: "dht_lib \<Rightarrow> world \<Rightarrow> string \<Rightarrow> bool" where
  "node_free D w code \<longleftrightarrow> dht_stored (infohash_get D code) DPASTE_USER_TYPE (trace w) = []"

definition node_holds :: "dht_lib \<Rightarrow> world \<Rightarrow> string \<Rightarrow> bytes \<Rightarrow> bool" where
  "node_holds D w code d \<longleftrightarrow>
     set (dht_stored (infohash_get D code) DPASTE_USER_TYPE (trace w)) = {paste_value d}"

definition first_blob :: "dht_lib \<Rightarrow> string \<Rightarrow> bytes option proc" where
  "first_blob D code =
     bindP (get_blobs D code) (\<lambda>blobs. returnP (case blobs of [] \<Rightarrow> None | d # _ \<Rightarrow> Some d))"

lemma run_get_blobs:
  "get_blobs D code w =
     (Inr (map val_data (dht_get D (trace w) (infohash_get D code) DPASTE_USER_TYPE)),
      record_event (Dht_Get (infohash_get D code) DPASTE_USER_TYPE) w)"
  by (simp add: get_blobs_def Let_def proc_simps)

lemma run_paste_blocking:
  "paste_blocking D rc code blob w =
     (let h = infohash_get D code; v = paste_value blob; ok = dht_put D (trace w) h v;
          w1 = record_event (Dht_Put h v ok) w
      in (Inr (blocking_result (race_done rc) (race_early rc) ok),
          if ok then w1 else record_event (Stderr (OPERATION_FAILURE_MSG @ '' (put)'' @ [CHR 0x0A])) w1))"
  by (simp add: paste_blocking_def Let_def proc_simps)

lemma dht_value_paste: "val_data (paste_value d) = d" "val_user_type (paste_value d) = DPASTE_USER_TYPE"
  by (simp_all add: paste_value_def)

lemma blobs_held:
  assumes "dht_ok D" and "node_holds D w code d"
  shows "\<exists>n. map val_data (dht_get D (trace w) (infohash_get D code) DPASTE_USER_TYPE) = d # replicate n d"
proof -
  let ?vs = "dht_get D (trace w) (infohash_get D code) DPASTE_USER_TYPE"
  have s: "set ?vs = {paste_value d}"
    using assms by (simp add: dht_ok_def node_holds_def)
  then have "map val_data ?vs = map (\<lambda>_. d) ?vs"
    by (simp add: dht_value_paste)
  also have "\<dots> = replicate (length ?vs) d" by (rule map_replicate_const)
  finally have m: "map val_data ?vs = replicate (length ?vs) d" .
  moreover have "?vs \<noteq> []" using s by auto
  then obtain n where "length ?vs = Suc n" by (cases ?vs) auto
  ultimately show ?thesis by auto
qed

lemma node_put_holds:
  "\<lbrakk>node_free D w code; paste_blocking D rc code d w = (Inr True, w')\<rbrakk> \<Longrightarrow> node_holds D w' code d"
  by (auto simp: run_paste_blocking Let_def blocking_result_def node_holds_def node_free_def
      dht_value_paste split: if_splits)

interpretation node: blob_store
  "\<lambda>e code d. paste_blocking (fst e) (snd e) code d"
  "\<lambda>e code. first_blob (fst e) code"
  "\<lambda>e. dht_ok (fst e)"
  "\<lambda>e. node_free (fst e)"
  "\<lambda>e. node_holds (fst e)"
proof
  fix e :: "dht_lib \<times> race" and w code d w'
  assume "node_free (fst e) w code" and "paste_blocking (fst e) (snd e) code d w = (Inr True, w')"
  then show "node_holds (fst e) w' code d" by (rule node_put_holds)
next
  fix e :: "dht_lib \<times> race" and w code d
  assume ok: "dht_ok (fst e)" and h: "node_holds (fst e) w code d"
  let ?D = "fst e"
  obtain n where "map val_data (dht_get ?D (trace w) (infohash_get ?D code) DPASTE_USER_TYPE) = d # replicate n d"
    using blobs_held [OF ok h] by (rule exE)
  then have "first_blob ?D code w =
      (Inr (Some d), record_event (Dht_Get (infohash_get ?D code) DPASTE_USER_TYPE) w)"
    by (simp add: first_blob_def run_get_blobs proc_simps)
  moreover have "node_holds ?D (record_event (Dht_Get (infohash_get ?D code) DPASTE_USER_TYPE) w) code d"
    using h by (simp add: node_holds_def)
  ultimately show "\<exists>w'. first_blob ?D code w = (Inr (Some d), w') \<and> node_holds ?D w' code d"
    by blast
qed

section \<open>A concrete DHT\<close>

text \<open>A DHT that stores every value and forgets none, with a small hash.\<close>

definition toy_dht :: dht_lib where
  "toy_dht = \<lparr>infohash_get = (\<lambda>s. foldl (\<lambda>h c. 31 * h + of_char c) 7 s),
     infohash_toString = (\<lambda>h. if even (unat h) then ''e'' else ''0''),
     dht_put = (\<lambda>tr h v. True), dht_get = (\<lambda>tr h ut. dht_stored h ut tr)\<rparr>"

lemma toy_dht_ok: "dht_ok toy_dht"
  by (simp add: dht_ok_def toy_dht_def)

section \<open>Properties\<close>

text \<open>
  \<open>run\<close> starts the node once: whatever sequence of \<open>run\<close>s with any ports and bootstrap nodes
  follows, the node is started and bootstrapped with the arguments of the first; \<open>stop\<close> shuts it
  down and makes the next \<open>run\<close> start it again.
\<close>

lemma run_starts_once:
  "let (r, w1) = run port host bport node_new w
   in r = Inr \<lparr>running = True\<rparr> \<and> trace w1 = trace w @ [Dht_Run port, Dht_Bootstrap host bport] \<and>
      foldl (\<lambda>m (p, h, b). bindP m (run p h b)) (returnP \<lparr>running = True\<rparr>) reruns w1 =
        (Inr \<lparr>running = True\<rparr>, w1) \<and>
      bindP (stop \<lparr>running = True\<rparr>) (run port host bport) w1 =
        (Inr \<lparr>running = True\<rparr>,
         fold record_event [Dht_Shutdown, Dht_Join, Dht_Run port, Dht_Bootstrap host bport] w1)"
proof -
  have "foldl (\<lambda>m (p, h, b). bindP m (run p h b)) m reruns v = m v"
    if "m v = (Inr \<lparr>running = True\<rparr>, v)" for m v
    using that
  proof (induction reruns arbitrary: m)
    case Nil
    then show ?case by simp
  next
    case (Cons a reruns)
    obtain p h b where a: "a = (p, h, b)" by (cases a)
    have "bindP m (run p h b) v = (Inr \<lparr>running = True\<rparr>, v)"
      using Cons.prems by (simp add: run_bind_Inr run_def run_return)
    with Cons a show ?case by simp
  qed
  then show ?thesis
    by (simp add: run_def node_new_def stop_def proc_simps)
qed

text \<open>
  A blob pasted with success under a code no dpaste value is stored under is what the next get
  of the code finds first; the get delivers nothing else. With the uninitialised flag (any \<open>rc\<close>)
  this still holds: a \<open>true\<close> is never wrong, only a \<open>false\<close> can be.
\<close>

lemma node_paste_get:
  assumes "dht_ok D" and "node_free D w code" and "paste_blocking D rc code blob w = (Inr True, w')"
  shows "\<exists>n. fst (get_blobs D code w') = Inr (blob # replicate n blob)"
proof -
  have "node_holds D w' code blob"
    using assms(2,3) by (rule node_put_holds)
  then obtain n where
    "map val_data (dht_get D (trace w') (infohash_get D code) DPASTE_USER_TYPE) = blob # replicate n blob"
    by (rule exE [OF blobs_held [OF assms(1)]])
  then show ?thesis by (simp add: run_get_blobs)
qed

lemma node_paste_get_witness:
  "\<exists>w' n. paste_blocking toy_dht \<lparr>race_done = True, race_early = False\<rparr> ''B79F2F91'' [0, 1, 2, 3, 4] init_world
       = (Inr True, w') \<and>
     fst (get_blobs toy_dht ''B79F2F91'' w') = Inr ([0, 1, 2, 3, 4] # replicate n [0, 1, 2, 3, 4])"
proof -
  let ?w' = "snd (paste_blocking toy_dht \<lparr>race_done = True, race_early = False\<rparr> ''B79F2F91'' [0, 1, 2, 3, 4] init_world)"
  have f: "node_free toy_dht init_world ''B79F2F91''"
    by (simp add: node_free_def init_world_def)
  have p: "paste_blocking toy_dht \<lparr>race_done = True, race_early = False\<rparr> ''B79F2F91'' [0, 1, 2, 3, 4] init_world
      = (Inr True, ?w')"
    by (simp add: run_paste_blocking Let_def blocking_result_def) (simp add: toy_dht_def)
  show ?thesis using node_paste_get [OF toy_dht_ok f p] p by blast
qed

text \<open>
  The asynchronous get hands its callback, on success, exactly the blobs the synchronous get
  returns, in the order of their arrival; on failure it reports on standard error and the callback
  is not called.
\<close>

lemma get_async_agrees:
  "get_async D code pcb success w =
     (let w1 = snd (get_blobs D code w)
      in if \<not> success then (Inr (), record_event (Stderr ''err.. DHT operation failed. (get)\<newline>'') w1)
         else case pcb of None \<Rightarrow> (Inr (), w1)
              | Some cb \<Rightarrow> (case get_blobs D code w of (Inr blobs, _) \<Rightarrow> cb blobs w1 | (Inl e, w2) \<Rightarrow> (Inl e, w2)))"
proof -
  have "deliver bs vs = bs @ map val_data vs" for bs vs
    by (induction vs arbitrary: bs) (simp_all add: get_on_value_def)
  then show ?thesis
    by (simp add: get_async_def get_on_done_def run_get_blobs OPERATION_FAILURE_MSG_def proc_simps Let_def
        split: option.split)
qed

end
