(* ===== verification/Curlpp_Options.thy ===== *)
theory Curlpp_Options
  imports Dpaste_Prelude
begin

text \<open>
  \<open>src/curlpp/Options.hpp\<close>: the option types of curlpp, which the program brings along. Each is a
  \<open>typedef\<close> that binds a name to the type of its value and to the constant of libcurl whose setting
  it is; some exist only from a version of libcurl on, before which a build may ask for a type that
  throws when it is used. The sections of the header are lists of declarations over the build.
\<close>

section \<open>Declarations\<close>

text \<open>The C++ types of the values; enumerations, callbacks and functors by their names.\<close>

datatype cpp_type =
    T_bool
  | T_long
  | T_off_t
  | T_string
  | T_string_list
  | T_Forms
  | T_char_ptr
  | T_void_ptr
  | T_FILE_ptr
  | T_istream_ptr
  | T_ostream_ptr
  | T_enum string
  | T_callback string
  | T_functor string

text \<open>
  The four templates of the header; the last string is the name. A \<open>NotAvailableOptionTrait\<close> is given
  with and without the constant.
\<close>

datatype option_decl =
    OptionTrait cpp_type string string
  | NoValueOptionTrait string string
  | NotAvailableOptionTrait cpp_type "string option" string

fun decl_name :: "option_decl \<Rightarrow> string" where
  "decl_name (OptionTrait t curlopt name) = name"
| "decl_name (NoValueOptionTrait curlopt name) = name"
| "decl_name (NotAvailableOptionTrait t curlopt name) = name"

text \<open>The constant a usable option sets.\<close>

fun decl_curlopt :: "option_decl \<Rightarrow> string option" where
  "decl_curlopt (OptionTrait t curlopt name) = Some curlopt"
| "decl_curlopt (NoValueOptionTrait curlopt name) = Some curlopt"
| "decl_curlopt (NotAvailableOptionTrait t curlopt name) = None"

text \<open>What the preprocessor decides on.\<close>

record curl_build =
  LIBCURL_VERSION_NUM :: nat
  ALLOW_NOT_AVAILABLE :: bool
  FILE_defined :: bool
  CURL_NO_OLDIES :: bool

definition since :: "curl_build \<Rightarrow> nat \<Rightarrow> option_decl list \<Rightarrow> option_decl list \<Rightarrow> option_decl list" where
  "since B version available otherwise =
     (if version \<le> LIBCURL_VERSION_NUM B then available
      else if ALLOW_NOT_AVAILABLE B then otherwise else [])"

section \<open>The sections of the header\<close>

definition cookie_options :: "curl_build \<Rightarrow> option_decl list" where
  "cookie_options B =
     since B 0x070d01
       [OptionTrait T_string ''CURLOPT_COOKIELIST'' ''CookieList'']
       [NotAvailableOptionTrait T_string None ''CookieList'']"

definition behavior_options :: "curl_build \<Rightarrow> option_decl list" where
  "behavior_options B =
     [OptionTrait T_bool ''CURLOPT_VERBOSE'' ''Verbose'',
      OptionTrait T_bool ''CURLOPT_HEADER'' ''Header''] @
     since B 0x070A00
       [OptionTrait T_bool ''CURLOPT_NOSIGNAL'' ''NoSignal'']
       [NotAvailableOptionTrait T_bool None ''NoSignal''] @
     [OptionTrait T_bool ''CURLOPT_NOPROGRESS'' ''NoProgress'']"

definition write_options :: "curl_build \<Rightarrow> option_decl list" where
  "write_options B =
     [OptionTrait (T_callback ''curl_write_callback'') ''CURLOPT_WRITEFUNCTION'' ''WriteFunctionCurlFunction'',
      OptionTrait (T_functor ''WriteFunctionFunctor'') ''CURLOPT_WRITEFUNCTION'' ''WriteFunction''] @
     since B 0x070907
       [OptionTrait T_FILE_ptr ''CURLOPT_WRITEDATA'' ''WriteFile'',
        OptionTrait T_ostream_ptr ''CURLOPT_WRITEDATA'' ''WriteStream'']
       [NotAvailableOptionTrait T_FILE_ptr (Some ''CURLOPT_WRITEDATA'') ''WriteFile'',
        NotAvailableOptionTrait T_ostream_ptr (Some ''CURLOPT_WRITEDATA'') ''WriteStream'']"

definition read_options :: "curl_build \<Rightarrow> option_decl list" where
  "read_options B =
     since B 0x070c01
       [OptionTrait (T_callback ''curl_read_callback'') ''CURLOPT_READFUNCTION'' ''ReadFunctionCurlFunction'',
        OptionTrait (T_functor ''ReadFunctionFunctor'') ''CURLOPT_READFUNCTION'' ''ReadFunction'']
       [NotAvailableOptionTrait (T_callback ''curl_read_callback'') (Some ''CURLOPT_READFUNCTION'') ''ReadFunctionCurlFunction'',
        NotAvailableOptionTrait (T_functor ''ReadFunctionFunctor'') (Some ''CURLOPT_READFUNCTION'') ''ReadFunction''] @
     since B 0x070907
       [OptionTrait T_FILE_ptr ''CURLOPT_READDATA'' ''ReadFile'',
        OptionTrait T_istream_ptr ''CURLOPT_READDATA'' ''ReadStream'']
       [NotAvailableOptionTrait T_FILE_ptr (Some ''CURLOPT_READDATA'') ''ReadFile'',
        NotAvailableOptionTrait T_istream_ptr (Some ''CURLOPT_READDATA'') ''ReadStream'']"

definition other_callback_options :: "option_decl list" where
  "other_callback_options =
     [OptionTrait (T_functor ''WriteFunctionFunctor'') ''CURLOPT_HEADERFUNCTION'' ''HeaderFunction'',
      OptionTrait (T_functor ''DebugFunctionFunctor'') ''CURLOPT_DEBUGFUNCTION'' ''DebugFunction'',
      OptionTrait (T_functor ''SslCtxFunctionFunctor'') ''CURLOPT_SSL_CTX_FUNCTION'' ''SslCtxFunction'']"

definition error_options :: "curl_build \<Rightarrow> option_decl list" where
  "error_options B =
     [OptionTrait T_char_ptr ''CURLOPT_ERRORBUFFER'' ''ErrorBuffer''] @
     (if FILE_defined B then
       [OptionTrait T_FILE_ptr ''CURLOPT_STDERR'' ''StdErr''] else []) @
     [OptionTrait T_bool ''CURLOPT_FAILONERROR'' ''FailOnError'']"

definition network_options :: "option_decl list" where
  "network_options =
     [OptionTrait T_string ''CURLOPT_URL'' ''Url'',
      OptionTrait T_string ''CURLOPT_PROXY'' ''Proxy'',
      OptionTrait T_long ''CURLOPT_PROXYPORT'' ''ProxyPort'',
      OptionTrait (T_enum ''curl_proxytype'') ''CURLOPT_PROXYTYPE'' ''ProxyType'',
      OptionTrait T_bool ''CURLOPT_HTTPPROXYTUNNEL'' ''HttpProxyTunnel'',
      OptionTrait T_string ''CURLOPT_INTERFACE'' ''Interface'',
      OptionTrait T_long ''CURLOPT_DNS_CACHE_TIMEOUT'' ''DnsCacheTimeout'',
      OptionTrait T_long ''CURLOPT_BUFFERSIZE'' ''BufferSize'',
      OptionTrait T_long ''CURLOPT_PORT'' ''Port'',
      OptionTrait T_bool ''CURLOPT_TCP_NODELAY'' ''TcpNoDelay'']"

definition user_options :: "option_decl list" where
  "user_options =
     [OptionTrait T_long ''CURLOPT_NETRC'' ''Netrc'',
      OptionTrait T_string ''CURLOPT_NETRC_FILE'' ''NetrcFile'',
      OptionTrait T_string ''CURLOPT_USERPWD'' ''UserPwd'',
      OptionTrait T_string ''CURLOPT_PROXYUSERPWD'' ''ProxyUserPwd'',
      OptionTrait T_long ''CURLOPT_HTTPAUTH'' ''HttpAuth'',
      OptionTrait T_long ''CURLOPT_PROXYAUTH'' ''ProxyAuth'']"

definition http_options :: "option_decl list" where
  "http_options =
     [OptionTrait T_bool ''CURLOPT_AUTOREFERER'' ''AutoReferer'',
      OptionTrait T_bool ''CURLOPT_FOLLOWLOCATION'' ''FollowLocation'',
      OptionTrait T_bool ''CURLOPT_UNRESTRICTED_AUTH'' ''UnrestrictedAuth'',
      OptionTrait T_long ''CURLOPT_MAXREDIRS'' ''MaxRedirs'',
      OptionTrait T_bool ''CURLOPT_UPLOAD'' ''Upload'',
      OptionTrait T_bool ''CURLOPT_POST'' ''Post'',
      OptionTrait T_string ''CURLOPT_POSTFIELDS'' ''PostFields'',
      OptionTrait T_long ''CURLOPT_POSTFIELDSIZE'' ''PostFieldSize'',
      OptionTrait T_off_t ''CURLOPT_POSTFIELDSIZE_LARGE'' ''PostFieldSizeLarge'',
      OptionTrait T_Forms ''CURLOPT_HTTPPOST'' ''HttpPost'',
      OptionTrait T_string ''CURLOPT_REFERER'' ''Referer'',
      OptionTrait T_string ''CURLOPT_USERAGENT'' ''UserAgent'',
      OptionTrait T_string_list ''CURLOPT_HTTPHEADER'' ''HttpHeader'',
      OptionTrait T_string_list ''CURLOPT_HTTP200ALIASES'' ''Http200Aliases'',
      OptionTrait T_string ''CURLOPT_COOKIE'' ''Cookie'',
      OptionTrait T_string ''CURLOPT_COOKIEFILE'' ''CookieFile'',
      OptionTrait T_string ''CURLOPT_COOKIEJAR'' ''CookieJar'',
      OptionTrait T_bool ''CURLOPT_COOKIESESSION'' ''CookieSession'',
      OptionTrait T_bool ''CURLOPT_HTTPGET'' ''HttpGet'',
      OptionTrait T_long ''CURLOPT_HTTP_VERSION'' ''HttpVersion'']"

definition ftp_options :: "option_decl list" where
  "ftp_options =
     [OptionTrait T_string ''CURLOPT_FTPPORT'' ''FtpPort'',
      OptionTrait T_string_list ''CURLOPT_QUOTE'' ''Quote'',
      OptionTrait T_string_list ''CURLOPT_POSTQUOTE'' ''PostQuote'',
      OptionTrait T_string_list ''CURLOPT_PREQUOTE'' ''PreQuote'',
      OptionTrait T_bool ''CURLOPT_FTP_USE_EPSV'' ''FtpUseEpsv'',
      OptionTrait T_long ''CURLOPT_FTP_FILEMETHOD'' ''FtpFileMethod'',
      OptionTrait T_bool ''CURLOPT_FTP_CREATE_MISSING_DIRS'' ''FtpCreateMissingDirs'',
      OptionTrait (T_enum ''curl_ftpauth'') ''CURLOPT_FTPSSLAUTH'' ''FtpSslAuth'']"

definition protocol_options :: "option_decl list" where
  "protocol_options =
     [OptionTrait T_bool ''CURLOPT_TRANSFERTEXT'' ''TransferText'',
      OptionTrait T_bool ''CURLOPT_CRLF'' ''Crlf'',
      OptionTrait T_string ''CURLOPT_RANGE'' ''Range'',
      OptionTrait T_long ''CURLOPT_RESUME_FROM'' ''ResumeFrom'',
      OptionTrait T_off_t ''CURLOPT_RESUME_FROM_LARGE'' ''ResumeFromLarge'',
      OptionTrait T_string ''CURLOPT_CUSTOMREQUEST'' ''CustomRequest'',
      OptionTrait T_bool ''CURLOPT_FILETIME'' ''FileTime'',
      OptionTrait T_bool ''CURLOPT_NOBODY'' ''NoBody'',
      OptionTrait T_long ''CURLOPT_INFILESIZE'' ''InfileSize'',
      OptionTrait T_off_t ''CURLOPT_INFILESIZE_LARGE'' ''InfileSizeLarge'',
      OptionTrait T_long ''CURLOPT_MAXFILESIZE'' ''MaxFileSize'',
      OptionTrait T_off_t ''CURLOPT_MAXFILESIZE_LARGE'' ''MaxFileSizeLarge'',
      OptionTrait T_bool ''CURLOPT_TIMECONDITION'' ''TimeCondition'',
      OptionTrait T_long ''CURLOPT_TIMEVALUE'' ''TimeValue'']"

definition connection_options :: "option_decl list" where
  "connection_options =
     [OptionTrait T_long ''CURLOPT_TIMEOUT'' ''Timeout'',
      OptionTrait T_long ''CURLOPT_LOW_SPEED_LIMIT'' ''LowSpeedLimit'',
      OptionTrait T_long ''CURLOPT_LOW_SPEED_TIME'' ''LowSpeedTime'',
      OptionTrait T_long ''CURLOPT_MAXCONNECTS'' ''MaxConnects'',
      OptionTrait T_bool ''CURLOPT_FRESH_CONNECT'' ''FreshConnect'',
      OptionTrait T_bool ''CURLOPT_FORBID_REUSE'' ''ForbidReuse'',
      OptionTrait T_long ''CURLOPT_CONNECTTIMEOUT'' ''ConnectTimeout'',
      OptionTrait T_long ''CURLOPT_IPRESOLVE'' ''IpResolve'']"

definition ssl_options :: "option_decl list" where
  "ssl_options =
     [OptionTrait T_long ''CURLOPT_USE_SSL'' ''UseSsl'',
      OptionTrait T_long ''CURLOPT_SSL_OPTIONS'' ''SslOptions'',
      OptionTrait T_string ''CURLOPT_SSLCERT'' ''SslCert'',
      OptionTrait T_string ''CURLOPT_SSLCERTTYPE'' ''SslCertType'',
      OptionTrait T_string ''CURLOPT_SSLKEY'' ''SslKey'',
      OptionTrait T_string ''CURLOPT_SSLKEYTYPE'' ''SslKeyType'',
      OptionTrait T_string ''CURLOPT_SSLENGINE'' ''SslEngine'',
      NoValueOptionTrait ''CURLOPT_SSLENGINE_DEFAULT'' ''SslEngineDefault'',
      OptionTrait T_long ''CURLOPT_SSLVERSION'' ''SslVersion'',
      OptionTrait T_bool ''CURLOPT_SSL_VERIFYPEER'' ''SslVerifyPeer'',
      OptionTrait T_string ''CURLOPT_CAINFO'' ''CaInfo'',
      OptionTrait T_string ''CURLOPT_CAPATH'' ''CaPath'',
      OptionTrait T_long ''CURLOPT_SSL_VERIFYHOST'' ''SslVerifyHost'',
      OptionTrait T_string ''CURLOPT_SSL_CIPHER_LIST'' ''SslCipherList'']"

definition other_options :: "curl_build \<Rightarrow> option_decl list" where
  "other_options B =
     [OptionTrait T_void_ptr ''CURLOPT_PRIVATE'' ''Private''] @
     (if \<not> CURL_NO_OLDIES B then
       [OptionTrait T_string ''CURLOPT_KRB4LEVEL'' ''Krb4Level'',
        OptionTrait T_string ''CURLOPT_SSLKEYPASSWD'' ''SslKeyPasswd'',
        OptionTrait T_string ''CURLOPT_SSLCERTPASSWD'' ''SslCertPasswd'',
        OptionTrait (T_enum ''curl_ftpssl'') ''CURLOPT_FTP_SSL'' ''FtpSsl'',
        OptionTrait T_long ''CURLOPT_FTP_RESPONSE_TIMEOUT'' ''FtpResponseTimeout'',
        OptionTrait T_bool ''CURLOPT_FTPAPPEND'' ''FtpAppend'',
        OptionTrait T_bool ''CURLOPT_FTPLISTONLY'' ''FtpListOnly'',
        OptionTrait T_string ''CURLOPT_ENCODING'' ''Encoding''] else [])"

definition option_decls :: "curl_build \<Rightarrow> option_decl list" where
  "option_decls B =
     cookie_options B @ behavior_options B @ write_options B @ read_options B @ other_callback_options @
     error_options B @ network_options @ user_options @ http_options @ ftp_options @ protocol_options @
     connection_options @ ssl_options @ other_options B"

section \<open>Lookup\<close>

definition find_option :: "curl_build \<Rightarrow> string \<Rightarrow> option_decl option" where
  "find_option B name = List.find (\<lambda>d. decl_name d = name) (option_decls B)"

lemma find_append:
  "List.find P (xs @ ys) = (case List.find P xs of None \<Rightarrow> List.find P ys | Some x \<Rightarrow> Some x)"
  by (induction xs) auto

lemma find_since:
  "List.find P (since B v xs ys) =
     (if v \<le> LIBCURL_VERSION_NUM B then List.find P xs
      else if ALLOW_NOT_AVAILABLE B then List.find P ys else None)"
  by (simp add: since_def)

lemmas section_defs =
  cookie_options_def behavior_options_def write_options_def read_options_def other_callback_options_def
  error_options_def network_options_def user_options_def http_options_def ftp_options_def
  protocol_options_def connection_options_def ssl_options_def other_options_def

text \<open>The four options the HTTP client sets: no section but its own declares any of them.\<close>

definition client_options :: "string list" where
  "client_options = [''Port'', ''Url'', ''WriteStream'', ''HttpPost'']"

lemma find_none:
  "\<lbrakk>list_all (\<lambda>d. decl_name d \<notin> set client_options) ds; name \<in> set client_options\<rbrakk> \<Longrightarrow>
     List.find (\<lambda>d. decl_name d = name) ds = None"
  by (auto simp: find_None_iff list_all_iff)

lemma others_since:
  "\<lbrakk>list_all P xs; list_all P ys\<rbrakk> \<Longrightarrow> list_all P (since B v xs ys)"
  by (simp add: since_def)

lemma sections_without:
  "list_all (\<lambda>d. decl_name d \<notin> set client_options) (cookie_options B)"
  "list_all (\<lambda>d. decl_name d \<notin> set client_options) (behavior_options B)"
  "list_all (\<lambda>d. decl_name d \<notin> set client_options) (read_options B)"
  "list_all (\<lambda>d. decl_name d \<notin> set client_options) other_callback_options"
  "list_all (\<lambda>d. decl_name d \<notin> set client_options) (error_options B)"
  by (simp_all add: section_defs since_def client_options_def)

lemma find_sections:
  assumes "name \<in> set client_options"
  shows "find_option B name =
    (case List.find (\<lambda>d. decl_name d = name) (write_options B) of
       None \<Rightarrow> List.find (\<lambda>d. decl_name d = name) (network_options @ user_options @ http_options @ ftp_options @
         protocol_options @ connection_options @ ssl_options @ other_options B)
     | Some d \<Rightarrow> Some d)"
  by (simp add: find_option_def option_decls_def find_append find_none [OF sections_without(1) assms]
      find_none [OF sections_without(2) assms] find_none [OF sections_without(3) assms]
      find_none [OF sections_without(4) assms] find_none [OF sections_without(5) assms] split: option.split)

lemma find_client_options [simp]:
  "find_option B ''Port'' = Some (OptionTrait T_long ''CURLOPT_PORT'' ''Port'')"
  "find_option B ''Url'' = Some (OptionTrait T_string ''CURLOPT_URL'' ''Url'')"
  "find_option B ''HttpPost'' = Some (OptionTrait T_Forms ''CURLOPT_HTTPPOST'' ''HttpPost'')"
  by (simp_all add: find_sections client_options_def write_options_def network_options_def user_options_def
      http_options_def find_append find_since)

lemma find_write_stream [simp]:
  "find_option B ''WriteStream'' =
     (if 0x070907 \<le> LIBCURL_VERSION_NUM B then Some (OptionTrait T_ostream_ptr ''CURLOPT_WRITEDATA'' ''WriteStream'')
      else if ALLOW_NOT_AVAILABLE B
      then Some (NotAvailableOptionTrait T_ostream_ptr (Some ''CURLOPT_WRITEDATA'') ''WriteStream'') else None)"
proof -
  have w: "''WriteStream'' \<in> set client_options" by (simp add: client_options_def)
  have "List.find (\<lambda>d. decl_name d = ''WriteStream'') (network_options @ user_options @ http_options @ ftp_options @
      protocol_options @ connection_options @ ssl_options @ other_options B) = None"
    by (auto simp: find_None_iff section_defs split: if_splits)
  then show ?thesis
    by (simp add: find_sections [OF w] write_options_def find_append find_since)
qed

end
