(* ===== verification/Http_Client.thy ===== *)
theory Http_Client
  imports Node Curlpp_Options
begin

text \<open>
  \<open>src/http_client.h\<close> and \<open>src/http_client.cpp\<close>: the client of the HTTP service in front of the DHT.
  The requests go through curlpp, the answers through \<open>nlohmann::json\<close> and libb64; their calls are
  fields of \<open>http_lib\<close>. \<open>easy_new\<close> is the construction of \<open>Cleanup\<close> and \<open>Easy\<close>, \<open>curl_setopt\<close> what libcurl
  says to a setting, \<open>http_perform\<close> what one request comes to (a response with its code and
  body, or one of the two exceptions of curlpp); of the JSON functions, \<open>Inl\<close> is the message of an
  exception.
\<close>

section \<open>The libraries\<close>

datatype json =
    J_Null
  | J_Bool bool
  | J_Number string
  | J_String string
  | J_Array "json list"
  | J_Object "(string \<times> json) list"

text \<open>A call of curlpp: it works, or throws a \<open>RuntimeError\<close> or a \<open>LogicError\<close>.\<close>

datatype curl_code = Curl_Ok | Curl_Runtime_Error | Curl_Logic_Error

text \<open>Values of options, as far as the client sets any; the two streams a response is written to.\<close>

datatype sink = Response_Stream | Null_Stream

datatype opt_value =
    V_Long int
  | V_String string
  | V_Ostream sink
  | V_Forms "(string \<times> string) list"

record http_lib =
  curl_build :: curl_build
  easy_new :: "event list \<Rightarrow> curl_code"
  curl_setopt :: "string \<Rightarrow> opt_value \<Rightarrow> curl_code"
  http_perform :: "event list \<Rightarrow> http_request \<Rightarrow> http_outcome"
  json_parse :: "string \<Rightarrow> string + json"
  json_empty :: "json \<Rightarrow> bool"
  json_begin :: "json \<Rightarrow> json"
  json_index :: "json \<Rightarrow> string \<Rightarrow> string + json"
  json_dump :: "json \<Rightarrow> string + string"
  b64_decode :: "string \<Rightarrow> string"

section \<open>The handle of a request\<close>

text \<open>
  \<open>curlpp::Easy\<close>: the settings made so far, by the constant of libcurl they are for. A setting is made
  under the name \<open>Options.hpp\<close> gives it; one the build declares as not available throws the
  \<open>LogicError\<close> \<open>NotAvailable\<close> (a build without the name does not compile; it has the same value here).
\<close>

type_synonym easy = "string \<rightharpoonup> opt_value"

definition curl_check :: "curl_code \<Rightarrow> exn + unit" where
  "curl_check c = (case c of
     Curl_Ok \<Rightarrow> Inr () | Curl_Runtime_Error \<Rightarrow> Inl Curlpp_Runtime_Error | Curl_Logic_Error \<Rightarrow> Inl Curlpp_Logic_Error)"

definition Easy :: "http_lib \<Rightarrow> easy proc" where
  "Easy H = bindP (askP (easy_new H)) (\<lambda>c. bindP (liftP (curl_check c)) (\<lambda>_. returnP Map.empty))"

definition setOpt :: "http_lib \<Rightarrow> string \<Rightarrow> opt_value \<Rightarrow> easy \<Rightarrow> easy proc" where
  "setOpt H name v req =
     (case find_option (curl_build H) name of
        Some (OptionTrait t curlopt _) \<Rightarrow>
          bindP (liftP (curl_check (curl_setopt H curlopt v))) (\<lambda>_. returnP (req(curlopt \<mapsto> v)))
      | _ \<Rightarrow> throwP Curlpp_Logic_Error)"

text \<open>What libcurl makes of the settings: unset, there is no URL, the port of the protocol, a GET.\<close>

definition request_of :: "easy \<Rightarrow> http_request" where
  "request_of req =
     \<lparr>req_url = (case req ''CURLOPT_URL'' of Some (V_String u) \<Rightarrow> u | _ \<Rightarrow> []),
      req_port = (case req ''CURLOPT_PORT'' of Some (V_Long p) \<Rightarrow> p | _ \<Rightarrow> 0),
      req_form = (case req ''CURLOPT_HTTPPOST'' of Some (V_Forms f) \<Rightarrow> Some f | _ \<Rightarrow> None)\<rparr>"

text \<open>\<open>perform\<close>, then \<open>ResponseCode::get\<close>: the code, and what the stream received.\<close>

definition easy_perform :: "http_lib \<Rightarrow> easy \<Rightarrow> (nat \<times> (sink \<Rightarrow> string)) proc" where
  "easy_perform H req =
     bindP (askP (\<lambda>tr. http_perform H tr (request_of req))) (\<lambda>outcome.
     thenP (emitP (Http_Perform (request_of req) outcome))
       (case outcome of
          Http_Response status body \<Rightarrow>
            returnP (status, \<lambda>s. if req ''CURLOPT_WRITEDATA'' = Some (V_Ostream s) then body else [])
        | Http_Runtime_Error \<Rightarrow> throwP Curlpp_Runtime_Error
        | Http_Logic_Error \<Rightarrow> throwP Curlpp_Logic_Error))"

text \<open>The \<open>catch\<close> clauses, for what the block is to return then.\<close>

definition catch_logic :: "'a \<Rightarrow> exn \<Rightarrow> 'a proc option" where
  "catch_logic x e = (if e = Curlpp_Logic_Error then Some (returnP x) else None)"

definition catch_runtime :: "'a \<Rightarrow> exn \<Rightarrow> 'a proc option" where
  "catch_runtime x e = (if e = Curlpp_Runtime_Error then Some (returnP x) else None)"

section \<open>HttpClient\<close>

definition HTTP_PROTO :: string where
  "HTTP_PROTO = ''http://''"

record http_client =
  hc_host :: string
  hc_port :: int

definition http_url :: "dht_lib \<Rightarrow> http_client \<Rightarrow> string \<Rightarrow> string" where
  "http_url D c code = HTTP_PROTO @ hc_host c @ ''/'' @ infohash_toString D (infohash_get D code)"

text \<open>The body of a response with code 200: the \<open>base64\<close> member of the first value.\<close>

definition decode_body :: "http_lib \<Rightarrow> string \<Rightarrow> exn + string" where
  "decode_body H response =
     (case json_parse H response of
        Inl msg \<Rightarrow> Inl (Json_Exception msg)
      | Inr pr \<Rightarrow>
          if json_empty H pr then Inr []
          else (case json_index H (json_begin H pr) ''base64'' of
                  Inl msg \<Rightarrow> Inl (Json_Exception msg)
                | Inr v \<Rightarrow>
                    (case json_dump H v of
                       Inl msg \<Rightarrow> Inl (Json_Exception msg)
                     | Inr iss \<Rightarrow> Inr (b64_decode H iss))))"

definition http_get :: "dht_lib \<Rightarrow> http_lib \<Rightarrow> http_client \<Rightarrow> string \<Rightarrow> string proc" where
  "http_get D H c code =
     catchP
       (bindP (Easy H) (\<lambda>req.
        bindP (setOpt H ''Port'' (V_Long (hc_port c)) req) (\<lambda>req.
        bindP (setOpt H ''Url'' (V_String (http_url D c code @ ''?user_type='' @ DPASTE_USER_TYPE)) req) (\<lambda>req.
        bindP (setOpt H ''WriteStream'' (V_Ostream Response_Stream) req) (\<lambda>req.
        catchP
          (bindP (easy_perform H req) (\<lambda>(status, written).
           if status = 200 then liftP (decode_body H (written Response_Stream)) else returnP []))
          (catch_runtime []))))))
       (catch_logic [])"

definition http_put :: "dht_lib \<Rightarrow> http_lib \<Rightarrow> http_client \<Rightarrow> string \<Rightarrow> string \<Rightarrow> bool proc" where
  "http_put D H c code data =
     catchP
       (bindP (Easy H) (\<lambda>req.
        bindP (setOpt H ''Port'' (V_Long (hc_port c)) req) (\<lambda>req.
        bindP (setOpt H ''Url'' (V_String (http_url D c code)) req) (\<lambda>req.
        bindP (setOpt H ''WriteStream'' (V_Ostream Null_Stream) req) (\<lambda>req.
        let form_parts = [(''user_type'', DPASTE_USER_TYPE), (''data'', data)] in
        bindP (setOpt H ''HttpPost'' (V_Forms form_parts) req) (\<lambda>req.
        catchP
          (bindP (easy_perform H req) (\<lambda>(status, written). returnP (status = 200)))
          (catch_runtime False)))))))
       (catch_logic False)"

section \<open>The service as a store\<close>

text \<open>
  The data of the posts a trace holds for a URL, and of those among them that were answered with
  code 200.
\<close>

definition posted :: "string \<Rightarrow> int \<Rightarrow> event \<Rightarrow> (string \<times> bool) option" where
  "posted url port e =
     (case e of
        Http_Perform req outcome \<Rightarrow>
          if req_url req = url \<and> req_port req = port then
            (case req_form req of
               Some [(u, ut), (d, data)] \<Rightarrow>
                 if u = ''user_type'' \<and> ut = DPASTE_USER_TYPE \<and> d = ''data''
                 then Some (data, case outcome of Http_Response s _ \<Rightarrow> s = 200 | _ \<Rightarrow> False) else None
             | _ \<Rightarrow> None)
          else None
      | _ \<Rightarrow> None)"

definition attempted :: "string \<Rightarrow> int \<Rightarrow> event list \<Rightarrow> string list" where
  "attempted url port tr = map fst (List.map_filter (posted url port) tr)"

definition confirmed :: "string \<Rightarrow> int \<Rightarrow> event list \<Rightarrow> string list" where
  "confirmed url port tr = map fst (filter snd (List.map_filter (posted url port) tr))"

lemma posts_append [simp]:
  "attempted url port (es @ fs) = attempted url port es @ attempted url port fs"
  "confirmed url port (es @ fs) = confirmed url port es @ confirmed url port fs"
  by (simp_all add: attempted_def confirmed_def List.map_filter_def)

lemma confirmed_attempted: "set (confirmed url port tr) \<subseteq> set (attempted url port tr)"
  by (auto simp: attempted_def confirmed_def)

text \<open>
  The documented behaviour of the service: its answer is a JSON value of the blobs it holds, which
  are among those posted and include those whose post it confirmed; while it has confirmed none,
  it may also answer with an error or not at all. \<open>json_ok\<close> says that reading the \<open>base64\<close>
  member of the first value of the answer gives the first blob.
\<close>

definition json_ok :: "http_lib \<Rightarrow> (string list \<Rightarrow> string) \<Rightarrow> bool" where
  "json_ok H body \<longleftrightarrow>
     (\<exists>pr. json_parse H (body []) = Inr pr \<and> json_empty H pr) \<and>
     (\<forall>d ds. \<exists>pr v iss. json_parse H (body (d # ds)) = Inr pr \<and> \<not> json_empty H pr \<and>
        json_index H (json_begin H pr) ''base64'' = Inr v \<and> json_dump H v = Inr iss \<and>
        b64_decode H iss = d)"

definition get_request :: "string \<Rightarrow> int \<Rightarrow> http_request" where
  "get_request url port = \<lparr>req_url = url @ ''?user_type='' @ DPASTE_USER_TYPE, req_port = port, req_form = None\<rparr>"

text \<open>
  What libcurl documents of the settings: they fail for a bad argument only, and no text, stream or
  form of the client is one; whether the port is, is left open (\<open>port_code\<close>).
\<close>

definition curl_ok :: "http_lib \<Rightarrow> bool" where
  "curl_ok H \<longleftrightarrow> 0x070907 \<le> LIBCURL_VERSION_NUM (curl_build H) \<and> (\<forall>tr. easy_new H tr = Curl_Ok) \<and>
     (\<forall>u. curl_setopt H ''CURLOPT_URL'' (V_String u) = Curl_Ok) \<and>
     (\<forall>s. curl_setopt H ''CURLOPT_WRITEDATA'' (V_Ostream s) = Curl_Ok) \<and>
     (\<forall>f. curl_setopt H ''CURLOPT_HTTPPOST'' (V_Forms f) = Curl_Ok)"

definition port_code :: "http_lib \<Rightarrow> http_client \<Rightarrow> curl_code" where
  "port_code H c = curl_setopt H ''CURLOPT_PORT'' (V_Long (hc_port c))"

definition http_ok :: "http_lib \<Rightarrow> bool" where
  "http_ok H \<longleftrightarrow> curl_ok H \<and> (\<exists>body. json_ok H body \<and>
     (\<forall>tr url port.
        (\<exists>ds. set (confirmed url port tr) \<subseteq> set ds \<and> set ds \<subseteq> set (attempted url port tr) \<and>
              http_perform H tr (get_request url port) = Http_Response 200 (body ds)) \<or>
        (confirmed url port tr = [] \<and>
           (\<forall>b. http_perform H tr (get_request url port) \<noteq> Http_Response 200 b))))"

definition http_free :: "dht_lib \<Rightarrow> http_client \<Rightarrow> world \<Rightarrow> string \<Rightarrow> bool" where
  "http_free D c w code \<longleftrightarrow> attempted (http_url D c code) (hc_port c) (trace w) = []"

definition http_tried :: "dht_lib \<Rightarrow> http_client \<Rightarrow> world \<Rightarrow> string \<Rightarrow> string \<Rightarrow> bool" where
  "http_tried D c w code d \<longleftrightarrow> set (attempted (http_url D c code) (hc_port c) (trace w)) \<subseteq> {d}"

definition http_holds :: "dht_lib \<Rightarrow> http_lib \<Rightarrow> http_client \<Rightarrow> world \<Rightarrow> string \<Rightarrow> bytes \<Rightarrow> bool" where
  "http_holds D H c w code d \<longleftrightarrow> d \<noteq> [] \<and> port_code H c = Curl_Ok \<and> http_tried D c w code (string_of_bytes d) \<and>
     confirmed (http_url D c code) (hc_port c) (trace w) \<noteq> []"

definition http_first :: "dht_lib \<Rightarrow> http_lib \<Rightarrow> http_client \<Rightarrow> string \<Rightarrow> bytes option proc" where
  "http_first D H c code =
     bindP (http_get D H c code) (\<lambda>s. returnP (if s = [] then None else Some (bytes_of_string s)))"

lemma decode_body_ok:
  "json_ok H body \<Longrightarrow> decode_body H (body ds) = Inr (case ds of [] \<Rightarrow> [] | d # _ \<Rightarrow> d)"
proof (cases ds)
  case Nil
  moreover assume "json_ok H body"
  ultimately show ?thesis by (auto simp: json_ok_def decode_body_def)
next
  case (Cons d es)
  assume "json_ok H body"
  then obtain pr v iss where "json_parse H (body (d # es)) = Inr pr" "\<not> json_empty H pr"
    "json_index H (json_begin H pr) ''base64'' = Inr v" "json_dump H v = Inr iss" "b64_decode H iss = d"
    unfolding json_ok_def by blast
  with Cons show ?thesis by (simp add: decode_body_def)
qed

section \<open>Running the client\<close>

text \<open>What the calls before \<open>perform\<close> come to: the first failure of them, in their order.\<close>

fun first_error :: "curl_code list \<Rightarrow> curl_code" where
  "first_error [] = Curl_Ok"
| "first_error (c # cs) = (if c = Curl_Ok then first_error cs else c)"

definition set_code :: "http_lib \<Rightarrow> string \<Rightarrow> opt_value \<Rightarrow> curl_code" where
  "set_code H name v =
     (case find_option (curl_build H) name of
        Some (OptionTrait t curlopt _) \<Rightarrow> curl_setopt H curlopt v | _ \<Rightarrow> Curl_Logic_Error)"

definition request_setup :: "http_lib \<Rightarrow> event list \<Rightarrow> http_request \<Rightarrow> curl_code" where
  "request_setup H tr req =
     first_error
       ([easy_new H tr, set_code H ''Port'' (V_Long (req_port req)), set_code H ''Url'' (V_String (req_url req)),
         set_code H ''WriteStream'' (V_Ostream (if req_form req = None then Response_Stream else Null_Stream))] @
        (case req_form req of None \<Rightarrow> [] | Some f \<Rightarrow> [set_code H ''HttpPost'' (V_Forms f)]))"

definition curl_exn :: "curl_code \<Rightarrow> exn" where
  "curl_exn c = (if c = Curl_Runtime_Error then Curlpp_Runtime_Error else Curlpp_Logic_Error)"

lemma run_Easy:
  "Easy H w = (case easy_new H (trace w) of Curl_Ok \<Rightarrow> (Inr Map.empty, w) | c \<Rightarrow> (Inl (curl_exn c), w))"
  by (simp add: Easy_def curl_check_def curl_exn_def proc_defs split: curl_code.split)

lemma run_setOpt:
  "setOpt H ''Port'' v req w =
     (case set_code H ''Port'' v of Curl_Ok \<Rightarrow> (Inr (req(''CURLOPT_PORT'' \<mapsto> v)), w) | c \<Rightarrow> (Inl (curl_exn c), w))"
  "setOpt H ''Url'' v req w =
     (case set_code H ''Url'' v of Curl_Ok \<Rightarrow> (Inr (req(''CURLOPT_URL'' \<mapsto> v)), w) | c \<Rightarrow> (Inl (curl_exn c), w))"
  "setOpt H ''WriteStream'' v req w =
     (case set_code H ''WriteStream'' v of Curl_Ok \<Rightarrow> (Inr (req(''CURLOPT_WRITEDATA'' \<mapsto> v)), w)
      | c \<Rightarrow> (Inl (curl_exn c), w))"
  "setOpt H ''HttpPost'' v req w =
     (case set_code H ''HttpPost'' v of Curl_Ok \<Rightarrow> (Inr (req(''CURLOPT_HTTPPOST'' \<mapsto> v)), w)
      | c \<Rightarrow> (Inl (curl_exn c), w))"
  by (simp_all add: setOpt_def set_code_def curl_check_def curl_exn_def proc_defs split: curl_code.split)

text \<open>A bind after a call that gives a value or one of the two exceptions, and leaves the state.\<close>

lemma bind_code:
  "m w = (case c of Curl_Ok \<Rightarrow> (Inr x, w) | c \<Rightarrow> (Inl (curl_exn c), w)) \<Longrightarrow>
     bindP m f w = (case c of Curl_Ok \<Rightarrow> f x w | c \<Rightarrow> (Inl (curl_exn c), w))"
  by (simp add: bindP_def split: curl_code.splits)

lemma decode_body_exn: "decode_body H b = Inl e \<Longrightarrow> \<exists>msg. e = Json_Exception msg"
  by (auto simp: decode_body_def split: sum.splits if_splits)

lemma run_http_get:
  "http_get D H c code w =
     (let req = get_request (http_url D c code) (hc_port c); outcome = http_perform H (trace w) req
      in case request_setup H (trace w) req of
           Curl_Ok \<Rightarrow>
             (case outcome of Http_Response s b \<Rightarrow> if s = 200 then decode_body H b else Inr [] | _ \<Rightarrow> Inr [],
              record_event (Http_Perform req outcome) w)
         | Curl_Runtime_Error \<Rightarrow> (Inl Curlpp_Runtime_Error, w)
         | Curl_Logic_Error \<Rightarrow> (Inr [], w))"
proof -
  let ?u = "http_url D c code @ ''?user_type='' @ DPASTE_USER_TYPE"
  let ?req = "get_request (http_url D c code) (hc_port c)"
  let ?h = "[''CURLOPT_PORT'' \<mapsto> V_Long (hc_port c), ''CURLOPT_URL'' \<mapsto> V_String ?u,
     ''CURLOPT_WRITEDATA'' \<mapsto> V_Ostream Response_Stream]"
  let ?perform = "catchP (bindP (easy_perform H ?h) (\<lambda>(status, written).
     if status = 200 then liftP (decode_body H (written Response_Stream)) else returnP [])) (catch_runtime [])"
  have r: "request_of ?h = ?req" by (simp add: request_of_def get_request_def)
  have p: "catchP ?perform (catch_logic []) w =
      (case http_perform H (trace w) ?req of
         Http_Response s b \<Rightarrow> if s = 200 then decode_body H b else Inr [] | _ \<Rightarrow> Inr [],
       record_event (Http_Perform ?req (http_perform H (trace w) ?req)) w)"
    unfolding easy_perform_def r
    by (auto simp: proc_defs catch_runtime_def catch_logic_def dest: decode_body_exn split: http_outcome.split sum.split)
  have s: "request_setup H (trace w) ?req = first_error [easy_new H (trace w),
      set_code H ''Port'' (V_Long (hc_port c)), set_code H ''Url'' (V_String ?u),
      set_code H ''WriteStream'' (V_Ostream Response_Stream)]"
    by (simp add: request_setup_def get_request_def)
  show ?thesis
    unfolding Let_def s http_get_def catchP_def bind_code [OF run_Easy] bind_code [OF run_setOpt(1)]
      bind_code [OF run_setOpt(2)] bind_code [OF run_setOpt(3)]
    using p [unfolded catchP_def]
    by (auto simp: curl_exn_def catch_logic_def returnP_def split: curl_code.split)
qed

definition put_request :: "string \<Rightarrow> int \<Rightarrow> string \<Rightarrow> http_request" where
  "put_request url port data = \<lparr>req_url = url, req_port = port,
     req_form = Some [(''user_type'', DPASTE_USER_TYPE), (''data'', data)]\<rparr>"

lemma run_http_put:
  "http_put D H c code data w =
     (let req = put_request (http_url D c code) (hc_port c) data; outcome = http_perform H (trace w) req
      in case request_setup H (trace w) req of
           Curl_Ok \<Rightarrow>
             (Inr (case outcome of Http_Response s b \<Rightarrow> s = 200 | _ \<Rightarrow> False),
              record_event (Http_Perform req outcome) w)
         | Curl_Runtime_Error \<Rightarrow> (Inl Curlpp_Runtime_Error, w)
         | Curl_Logic_Error \<Rightarrow> (Inr False, w))"
proof -
  let ?u = "http_url D c code"
  let ?f = "[(''user_type'', DPASTE_USER_TYPE), (''data'', data)]"
  let ?req = "put_request ?u (hc_port c) data"
  let ?h = "[''CURLOPT_PORT'' \<mapsto> V_Long (hc_port c), ''CURLOPT_URL'' \<mapsto> V_String ?u,
     ''CURLOPT_WRITEDATA'' \<mapsto> V_Ostream Null_Stream, ''CURLOPT_HTTPPOST'' \<mapsto> V_Forms ?f]"
  let ?perform = "catchP (bindP (easy_perform H ?h) (\<lambda>(status, written). returnP (status = 200))) (catch_runtime False)"
  have r: "request_of ?h = ?req" by (simp add: request_of_def put_request_def)
  have p: "catchP ?perform (catch_logic False) w =
      (Inr (case http_perform H (trace w) ?req of Http_Response s b \<Rightarrow> s = 200 | _ \<Rightarrow> False),
       record_event (Http_Perform ?req (http_perform H (trace w) ?req)) w)"
    unfolding easy_perform_def r
    by (auto simp: proc_defs catch_runtime_def catch_logic_def split: http_outcome.split)
  have s: "request_setup H (trace w) ?req = first_error [easy_new H (trace w),
      set_code H ''Port'' (V_Long (hc_port c)), set_code H ''Url'' (V_String ?u),
      set_code H ''WriteStream'' (V_Ostream Null_Stream), set_code H ''HttpPost'' (V_Forms ?f)]"
    by (simp add: request_setup_def put_request_def)
  show ?thesis
    unfolding Let_def s http_put_def catchP_def bind_code [OF run_Easy] bind_code [OF run_setOpt(1)]
      bind_code [OF run_setOpt(2)] bind_code [OF run_setOpt(3)] bind_code [OF run_setOpt(4)]
    using p [unfolded catchP_def]
    by (auto simp: curl_exn_def catch_logic_def returnP_def split: curl_code.split)
qed

text \<open>Under the documented behaviour only the port decides.\<close>

lemma request_setup_port:
  assumes "curl_ok H"
  shows "request_setup H tr (get_request url (hc_port c)) = port_code H c"
    and "request_setup H tr (put_request url (hc_port c) data) = port_code H c"
  using assms
  by (simp_all add: request_setup_def curl_ok_def port_code_def set_code_def get_request_def put_request_def)

lemma posted_get [simp]: "posted url port (Http_Perform (get_request u p) outcome) = None"
  by (simp add: posted_def get_request_def)

lemma posted_put [simp]:
  "posted url port (Http_Perform (put_request url port data) outcome) =
     Some (data, case outcome of Http_Response s b \<Rightarrow> s = 200 | _ \<Rightarrow> False)"
  by (simp add: posted_def put_request_def)

lemma posted_other [simp]:
  "posted url port (Stderr s) = None" "posted url port (Dht_Put h v ok) = None"
  "posted url port (Dht_Get h ut) = None"
  by (simp_all add: posted_def)

lemma posts_Cons [simp]:
  "attempted url port (e # es) =
     (case posted url port e of None \<Rightarrow> attempted url port es | Some p \<Rightarrow> fst p # attempted url port es)"
  "confirmed url port (e # es) =
     (case posted url port e of None \<Rightarrow> confirmed url port es
      | Some p \<Rightarrow> if snd p then fst p # confirmed url port es else confirmed url port es)"
  by (simp_all add: attempted_def confirmed_def List.map_filter_def split: option.split)

lemma posts_Nil [simp]: "attempted url port [] = []" "confirmed url port [] = []"
  by (simp_all add: attempted_def confirmed_def List.map_filter_def)

text \<open>A put leaves its data as the only one posted, whatever its outcome.\<close>

lemma http_put_tried:
  assumes "http_free D c w code" and "http_put D H c code data w = (r, w')"
  shows "http_tried D c w' code data \<and>
     (r = Inr True \<longrightarrow> confirmed (http_url D c code) (hc_port c) (trace w') \<noteq> [])"
  using assms by (auto simp: run_http_put Let_def http_free_def http_tried_def split: curl_code.splits)

text \<open>A put that returns found the port acceptable, or its refusal caught.\<close>

lemma http_put_port:
  assumes "curl_ok H" and "http_put D H c code data w = (r, w')"
  shows "r = Inr True \<Longrightarrow> port_code H c = Curl_Ok" and "r = Inr x \<Longrightarrow> port_code H c \<noteq> Curl_Runtime_Error"
  using assms(2) by (auto simp: run_http_put Let_def request_setup_port [OF assms(1)] split: curl_code.splits)

text \<open>
  While one blob has been posted, a get finds that blob or nothing, and it finds it once confirmed.
\<close>

lemma http_get_tried:
  assumes ok: "http_ok H" and port: "port_code H c \<noteq> Curl_Runtime_Error" and tried: "http_tried D c w code d"
  shows "\<exists>s. fst (http_get D H c code w) = Inr s \<and> (s = [] \<or> s = d) \<and>
     (confirmed (http_url D c code) (hc_port c) (trace w) \<noteq> [] \<and> port_code H c = Curl_Ok \<longrightarrow> s = d)"
proof -
  let ?u = "http_url D c code" and ?p = "hc_port c"
  have curl: "curl_ok H" using ok by (simp add: http_ok_def)
  obtain body where j: "json_ok H body" and p:
    "(\<exists>ds. set (confirmed ?u ?p (trace w)) \<subseteq> set ds \<and> set ds \<subseteq> set (attempted ?u ?p (trace w)) \<and>
        http_perform H (trace w) (get_request ?u ?p) = Http_Response 200 (body ds)) \<or>
     (confirmed ?u ?p (trace w) = [] \<and> (\<forall>b. http_perform H (trace w) (get_request ?u ?p) \<noteq> Http_Response 200 b))"
    using ok unfolding http_ok_def by blast
  show ?thesis
  proof (cases "port_code H c")
    case Curl_Ok
    from p show ?thesis
    proof (elim disjE exE conjE)
      fix ds
      assume ds: "set (confirmed ?u ?p (trace w)) \<subseteq> set ds" "set ds \<subseteq> set (attempted ?u ?p (trace w))"
        and r: "http_perform H (trace w) (get_request ?u ?p) = Http_Response 200 (body ds)"
      have s: "fst (http_get D H c code w) = Inr (case ds of [] \<Rightarrow> [] | d # _ \<Rightarrow> d)"
        by (simp add: run_http_get Let_def r decode_body_ok [OF j] request_setup_port [OF curl] Curl_Ok)
      show ?thesis
        using s ds tried by (cases ds) (auto simp: http_tried_def)
    next
      assume "confirmed ?u ?p (trace w) = []"
        and "\<forall>b. http_perform H (trace w) (get_request ?u ?p) \<noteq> Http_Response 200 b"
      then show ?thesis
        by (auto simp: run_http_get Let_def request_setup_port [OF curl] Curl_Ok split: http_outcome.split)
    qed
  qed (use port in \<open>simp_all add: run_http_get Let_def request_setup_port [OF curl]\<close>)
qed

text \<open>What a get leaves in the trace: its request, if it came to that.\<close>

definition get_traces :: "dht_lib \<Rightarrow> http_client \<Rightarrow> string \<Rightarrow> world \<Rightarrow> world set" where
  "get_traces D c code w = insert w
     (range (\<lambda>out. record_event (Http_Perform (get_request (http_url D c code) (hc_port c)) out) w))"

lemma http_get_trace: "snd (http_get D H c code w) \<in> get_traces D c code w"
  by (auto simp: run_http_get Let_def get_traces_def split: curl_code.split)

interpretation http: blob_store
  "\<lambda>(D, H, c) code d. http_put D H c code (string_of_bytes d)"
  "\<lambda>(D, H, c) code. http_first D H c code"
  "\<lambda>(D, H, c). http_ok H"
  "\<lambda>(D, H, c). http_free D c"
  "\<lambda>(D, H, c). http_holds D H c"
proof (unfold_locales, goal_cases)
  case (1 e w code d w')
  then show ?case
    by (cases e) (auto simp: http_holds_def http_ok_def dest!: http_put_tried http_put_port(1))
next
  case (2 e w code d)
  obtain D H c where e: "e = (D, H, c)" by (cases e)
  from 2 e have ok: "http_ok H" and h: "d \<noteq> []" "http_tried D c w code (string_of_bytes d)"
    "confirmed (http_url D c code) (hc_port c) (trace w) \<noteq> []" "port_code H c = Curl_Ok"
    by (simp_all add: http_holds_def)
  obtain w' where get: "http_get D H c code w = (Inr (string_of_bytes d), w')" "w' \<in> get_traces D c code w"
    using http_get_tried [OF ok _ h(2)] h(3,4) http_get_trace [of D H c code w]
    by (cases "http_get D H c code w") auto
  then have "http_first D H c code w = (Inr (Some d), w')"
    using h(1) by (simp add: http_first_def proc_simps)
  with e h get(2) show ?case by (auto simp: http_holds_def http_tried_def get_traces_def)
qed

section \<open>Concrete services\<close>

text \<open>
  A libcurl that refuses ports out of range, with a service that confirms every post and answers with the first blob of the URL, in a one-member
  object the toy parser knows, and one that cannot be reached.
\<close>

definition toy_body :: "string list \<Rightarrow> string" where
  "toy_body ds = (case ds of [] \<Rightarrow> ''[]'' | d # _ \<Rightarrow> CHR ''{'' # d)"

definition toy_http :: http_lib where
  "toy_http = \<lparr>
     curl_build = \<lparr>LIBCURL_VERSION_NUM = 0x075100, ALLOW_NOT_AVAILABLE = False, FILE_defined = False,
       CURL_NO_OLDIES = False\<rparr>,
     easy_new = (\<lambda>tr. Curl_Ok),
     curl_setopt = (\<lambda>opt v. case v of
        V_Long p \<Rightarrow> if opt = ''CURLOPT_PORT'' \<and> (p < 0 \<or> 65535 < p) then Curl_Runtime_Error else Curl_Ok
      | _ \<Rightarrow> Curl_Ok),
     http_perform = (\<lambda>tr req. case req_form req of
        Some _ \<Rightarrow> Http_Response 200 []
      | None \<Rightarrow> Http_Response 200 (toy_body (attempted (take (length (req_url req) - 17) (req_url req)) (req_port req) tr))),
     json_parse = (\<lambda>s. if s = ''[]'' then Inr (J_Array []) else case s of
        [] \<Rightarrow> Inl ''unexpected end of input''
      | c # d \<Rightarrow> if c = CHR ''{'' then Inr (J_Object [(''1'', J_Object [(''base64'', J_String d)])])
                 else Inl ''unexpected character''),
     json_empty = (\<lambda>j. j = J_Array [] \<or> j = J_Object [] \<or> j = J_Null),
     json_begin = (\<lambda>j. case j of J_Array (x # _) \<Rightarrow> x | J_Object ((_, x) # _) \<Rightarrow> x | _ \<Rightarrow> j),
     json_index = (\<lambda>j k. case j of
        J_Object kvs \<Rightarrow> Inr (case map_of kvs k of Some x \<Rightarrow> x | None \<Rightarrow> J_Null)
      | J_Null \<Rightarrow> Inr J_Null | _ \<Rightarrow> Inl ''type_error.305''),
     json_dump = (\<lambda>j. case j of J_String s \<Rightarrow> Inr ([CHR 0x22] @ s @ [CHR 0x22]) | _ \<Rightarrow> Inr ''null''),
     b64_decode = (\<lambda>s. butlast (tl s))\<rparr>"

definition toy_http_down :: http_lib where
  "toy_http_down = toy_http\<lparr>http_perform := \<lambda>tr req. case req_form req of
        Some _ \<Rightarrow> Http_Runtime_Error
      | None \<Rightarrow> (case confirmed (take (length (req_url req) - 17) (req_url req)) (req_port req) tr of
           [] \<Rightarrow> Http_Runtime_Error
         | d # ds \<Rightarrow> Http_Response 200 (toy_body (d # ds)))\<rparr>"

lemma toy_json_ok: "json_ok toy_http toy_body" "json_ok toy_http_down toy_body"
  by (simp_all add: json_ok_def toy_http_down_def toy_http_def toy_body_def)

lemma toy_curl_ok: "curl_ok toy_http" "curl_ok toy_http_down"
  by (simp_all add: curl_ok_def toy_http_down_def toy_http_def)

lemma toy_port_code:
  "0 \<le> hc_port c \<Longrightarrow> hc_port c \<le> 65535 \<Longrightarrow> port_code toy_http c = Curl_Ok \<and> port_code toy_http_down c = Curl_Ok"
  "65535 < hc_port c \<Longrightarrow> port_code toy_http c = Curl_Runtime_Error"
  by (simp_all add: port_code_def toy_http_down_def toy_http_def)

lemma toy_http_ok: "http_ok toy_http"
  unfolding http_ok_def
proof (intro exI conjI allI disjI1)
  show "curl_ok toy_http" by (rule toy_curl_ok)
next
  fix tr url port
  let ?ds = "attempted url port tr"
  show "json_ok toy_http toy_body" by (rule toy_json_ok)
  show "set (confirmed url port tr) \<subseteq> set ?ds" by (rule confirmed_attempted)
  show "set ?ds \<subseteq> set (attempted url port tr)" by simp
  show "http_perform toy_http tr (get_request url port) = Http_Response 200 (toy_body ?ds)"
    by (simp add: toy_http_def get_request_def DPASTE_USER_TYPE_def)
qed

lemma toy_http_down_ok: "http_ok toy_http_down"
  unfolding http_ok_def
proof (intro exI conjI allI)
  show "curl_ok toy_http_down" by (rule toy_curl_ok)
next
  fix tr url port
  have p: "http_perform toy_http_down tr (get_request url port) =
      (case confirmed url port tr of [] \<Rightarrow> Http_Runtime_Error | d # ds \<Rightarrow> Http_Response 200 (toy_body (d # ds)))"
    by (simp add: toy_http_down_def get_request_def DPASTE_USER_TYPE_def)
  show "json_ok toy_http_down toy_body" by (rule toy_json_ok)
  show "(\<exists>ds. set (confirmed url port tr) \<subseteq> set ds \<and> set ds \<subseteq> set (attempted url port tr) \<and>
        http_perform toy_http_down tr (get_request url port) = Http_Response 200 (toy_body ds)) \<or>
      (confirmed url port tr = [] \<and> (\<forall>b. http_perform toy_http_down tr (get_request url port) \<noteq> Http_Response 200 b))"
  proof (cases "confirmed url port tr")
    case Nil
    then show ?thesis by (simp add: p)
  next
    case (Cons d ds)
    then show ?thesis
      using confirmed_attempted [of url port tr] by (auto simp: p intro!: exI [of _ "d # ds"])
  qed
qed

section \<open>Properties\<close>

text \<open>
  C35. What one request of the client comes to, on every branch. When every setting is accepted: one
  request to the URL of the hash of the code, with its outcome; \<open>put\<close> is true exactly for code 200;
  \<open>get\<close> gives the empty string for every other code and for both exceptions of curlpp, and for
  code 200 what the body decodes to, or an exception of the JSON library. When a setting is refused
  nothing is sent: a \<open>LogicError\<close> is caught, but a \<open>RuntimeError\<close> leaves both functions, since
  the \<open>catch\<close> clause for it stands around \<open>perform\<close> only.
\<close>

theorem http_request_cases:
  "(case request_setup H (trace w) (get_request (http_url D c code) (hc_port c)) of
      Curl_Ok \<Rightarrow> \<exists>og.
        snd (http_get D H c code w) = record_event (Http_Perform (get_request (http_url D c code) (hc_port c)) og) w \<and>
        fst (http_get D H c code w) =
          (case og of Http_Response s b \<Rightarrow> if s = 200 then decode_body H b else Inr [] | _ \<Rightarrow> Inr []) \<and>
        (fst (http_get D H c code w) \<in> range Inr \<or>
         (\<exists>b msg. og = Http_Response 200 b \<and> fst (http_get D H c code w) = Inl (Json_Exception msg)))
    | Curl_Runtime_Error \<Rightarrow> http_get D H c code w = (Inl Curlpp_Runtime_Error, w)
    | Curl_Logic_Error \<Rightarrow> http_get D H c code w = (Inr [], w)) \<and>
   (case request_setup H (trace w) (put_request (http_url D c code) (hc_port c) data) of
      Curl_Ok \<Rightarrow> \<exists>op.
        snd (http_put D H c code data w) = record_event (Http_Perform (put_request (http_url D c code) (hc_port c) data) op) w \<and>
        fst (http_put D H c code data w) = Inr (\<exists>b. op = Http_Response 200 b)
    | Curl_Runtime_Error \<Rightarrow> http_put D H c code data w = (Inl Curlpp_Runtime_Error, w)
    | Curl_Logic_Error \<Rightarrow> http_put D H c code data w = (Inr False, w))"
proof -
  have e: "decode_body H b \<in> range Inr \<or> (\<exists>msg. decode_body H b = Inl (Json_Exception msg))" for b
    by (cases "decode_body H b") (auto dest: decode_body_exn)
  let ?g = "get_request (http_url D c code) (hc_port c)"
  let ?p = "put_request (http_url D c code) (hc_port c) data"
  show ?thesis
  proof
    show "case request_setup H (trace w) ?g of
        Curl_Ok \<Rightarrow> \<exists>og. snd (http_get D H c code w) = record_event (Http_Perform ?g og) w \<and>
          fst (http_get D H c code w) =
            (case og of Http_Response s b \<Rightarrow> if s = 200 then decode_body H b else Inr [] | _ \<Rightarrow> Inr []) \<and>
          (fst (http_get D H c code w) \<in> range Inr \<or>
           (\<exists>b msg. og = Http_Response 200 b \<and> fst (http_get D H c code w) = Inl (Json_Exception msg)))
      | Curl_Runtime_Error \<Rightarrow> http_get D H c code w = (Inl Curlpp_Runtime_Error, w)
      | Curl_Logic_Error \<Rightarrow> http_get D H c code w = (Inr [], w)"
    proof (cases "request_setup H (trace w) ?g")
      case Curl_Ok
      show ?thesis
        unfolding Curl_Ok curl_code.case
        by (rule exI [of _ "http_perform H (trace w) ?g"])
          (use e in \<open>auto simp: run_http_get Let_def Curl_Ok split: http_outcome.split\<close>)
    qed (simp_all add: run_http_get Let_def)
    show "case request_setup H (trace w) ?p of
        Curl_Ok \<Rightarrow> \<exists>op. snd (http_put D H c code data w) = record_event (Http_Perform ?p op) w \<and>
          fst (http_put D H c code data w) = Inr (\<exists>b. op = Http_Response 200 b)
      | Curl_Runtime_Error \<Rightarrow> http_put D H c code data w = (Inl Curlpp_Runtime_Error, w)
      | Curl_Logic_Error \<Rightarrow> http_put D H c code data w = (Inr False, w)"
    proof (cases "request_setup H (trace w) ?p")
      case Curl_Ok
      show ?thesis
        unfolding Curl_Ok curl_code.case
        by (rule exI [of _ "http_perform H (trace w) ?p"])
          (auto simp: run_http_put Let_def Curl_Ok split: http_outcome.split)
    qed (simp_all add: run_http_put Let_def)
  qed
qed

end
