(* ===== verification/Packet.thy ===== *)
theory Packet
  imports Effects
begin

text \<open>
  The packet of a paste (\<open>src/bin.h\<close>, \<open>struct Packet\<close>; \<open>src/bin.cpp\<close>, \<open>findMapValue\<close>,
  \<open>Packet::serialize\<close>, \<open>Packet::deserialize\<close>), over the msgpack library: the packer's calls give
  the bytes they append, \<open>unpack\<close> gives the object or the message of an \<open>unpack_error\<close>, and
  \<open>convert\<close> to a vector of bytes gives \<open>None\<close> for a \<open>type_error\<close>.
\<close>

section \<open>The library\<close>

datatype mp_object =
    MP_NIL
  | MP_BOOLEAN bool
  | MP_POSITIVE_INTEGER "64 word"
  | MP_NEGATIVE_INTEGER "64 word"
  | MP_FLOAT "64 word"
  | MP_STR string
  | MP_BIN bytes
  | MP_ARRAY "mp_object list"
  | MP_MAP "(mp_object \<times> mp_object) list"
  | MP_EXT byte bytes

record msgpack_lib =
  pack_map :: "nat \<Rightarrow> bytes"
  pack_str :: "string \<Rightarrow> bytes"
  pack_uint8 :: "byte \<Rightarrow> bytes"
  pack_bin :: "bytes \<Rightarrow> bytes"
  unpack :: "bytes \<Rightarrow> string + mp_object"
  convert_bytes :: "mp_object \<Rightarrow> bytes option"

text \<open>
  The documented behaviour: packing the header of a map and then its keys and values gives a
  stream from which \<open>unpack\<close> recovers the map, up to the sizes the format can express; byte
  strings convert to vectors, and the header of a map has at least one byte.
\<close>

datatype mp_value = V_Uint8 byte | V_Bin bytes

fun pack_value :: "msgpack_lib \<Rightarrow> mp_value \<Rightarrow> bytes" where
  "pack_value M (V_Uint8 b) = pack_uint8 M b"
| "pack_value M (V_Bin b) = pack_bin M b"

fun value_object :: "mp_value \<Rightarrow> mp_object" where
  "value_object (V_Uint8 b) = MP_POSITIVE_INTEGER (ucast b)"
| "value_object (V_Bin b) = MP_BIN b"

fun value_fits :: "mp_value \<Rightarrow> bool" where
  "value_fits (V_Uint8 b) = True"
| "value_fits (V_Bin b) = (length b < 2 ^ 32)"

definition entry_fits :: "string \<times> mp_value \<Rightarrow> bool" where
  "entry_fits kv \<longleftrightarrow> length (fst kv) < 2 ^ 32 \<and> value_fits (snd kv)"

definition pack_entries :: "msgpack_lib \<Rightarrow> (string \<times> mp_value) list \<Rightarrow> bytes" where
  "pack_entries M kvs = concat (map (\<lambda>(k, v). pack_str M k @ pack_value M v) kvs)"

definition entry_objects :: "(string \<times> mp_value) list \<Rightarrow> (mp_object \<times> mp_object) list" where
  "entry_objects kvs = map (\<lambda>(k, v). (MP_STR k, value_object v)) kvs"

definition msgpack_ok :: "msgpack_lib \<Rightarrow> bool" where
  "msgpack_ok M \<longleftrightarrow>
     (\<forall>kvs. length kvs < 2 ^ 32 \<and> list_all entry_fits kvs \<longrightarrow>
        unpack M (pack_map M (length kvs) @ pack_entries M kvs) = Inr (MP_MAP (entry_objects kvs))) \<and>
     (\<forall>b. convert_bytes M (MP_BIN b) = Some b) \<and> (\<forall>n. pack_map M n \<noteq> [])"

section \<open>findMapValue\<close>

text \<open>The loop over the entries: the first whose key is a string equal to the one asked for.\<close>

fun find_entry :: "(mp_object \<times> mp_object) list \<Rightarrow> string \<Rightarrow> mp_object option" where
  "find_entry [] key = None"
| "find_entry ((k, v) # kvs) key =
     (case k of
        MP_STR s \<Rightarrow> if s = key then Some v else find_entry kvs key
      | _ \<Rightarrow> find_entry kvs key)"

definition findMapValue :: "mp_object \<Rightarrow> string \<Rightarrow> exn + mp_object option" where
  "findMapValue obj key = (case obj of MP_MAP kvs \<Rightarrow> Inr (find_entry kvs key) | _ \<Rightarrow> Inl Msgpack_Type_Error)"

section \<open>Packet\<close>

record packet =
  pk_data :: bytes
  pk_signature :: bytes

definition empty_packet :: packet where
  "empty_packet = \<lparr>pk_data = [], pk_signature = []\<rparr>"

definition PROTO_VERSION :: byte where
  "PROTO_VERSION = 0"

definition serialize :: "msgpack_lib \<Rightarrow> packet \<Rightarrow> bytes" where
  "serialize M p =
     pack_map M 3
     @ pack_str M ''v'' @ pack_uint8 M PROTO_VERSION
     @ pack_str M ''data'' @ pack_bin M (pk_data p)
     @ pack_str M ''signature'' @ pack_bin M (pk_signature p)"

text \<open>A member that is not in the map stays the empty vector it was cleared to.\<close>

definition convert_member :: "msgpack_lib \<Rightarrow> mp_object option \<Rightarrow> exn + bytes" where
  "convert_member M d =
     (case d of
        None \<Rightarrow> Inr []
      | Some obj \<Rightarrow> (case convert_bytes M obj of None \<Rightarrow> Inl Msgpack_Type_Error | Some b \<Rightarrow> Inr b))"

definition deserialize :: "msgpack_lib \<Rightarrow> bytes \<Rightarrow> exn + packet" where
  "deserialize M pbuffer =
     (case unpack M pbuffer of
        Inl msg \<Rightarrow> Inl (Msgpack_Unpack_Error msg)
      | Inr obj \<Rightarrow>
          (case findMapValue obj ''data'' of
             Inl e \<Rightarrow> Inl e
           | Inr d \<Rightarrow>
               (case convert_member M d of
                  Inl e \<Rightarrow> Inl e
                | Inr data \<Rightarrow>
                    (case findMapValue obj ''signature'' of
                       Inl e \<Rightarrow> Inl e
                     | Inr s \<Rightarrow>
                         (case convert_member M s of
                            Inl e \<Rightarrow> Inl e
                          | Inr signature \<Rightarrow> Inr \<lparr>pk_data = data, pk_signature = signature\<rparr>)))))"

section \<open>The interface of the packet format\<close>

definition packet_fits :: "packet \<Rightarrow> bool" where
  "packet_fits p \<longleftrightarrow> length (pk_data p) < 2 ^ 32 \<and> length (pk_signature p) < 2 ^ 32"

locale packet_format =
  fixes to_bytes :: "'lib \<Rightarrow> 'p \<Rightarrow> bytes"
    and of_bytes :: "'lib \<Rightarrow> bytes \<Rightarrow> exn + 'p"
    and lib_ok :: "'lib \<Rightarrow> bool"
    and fits :: "'p \<Rightarrow> bool"
  assumes of_bytes_to_bytes: "\<lbrakk>lib_ok M; fits p\<rbrakk> \<Longrightarrow> of_bytes M (to_bytes M p) = Inr p"
begin

lemma to_bytes_inj: "\<lbrakk>lib_ok M; fits p; fits q; to_bytes M p = to_bytes M q\<rbrakk> \<Longrightarrow> p = q"
  using of_bytes_to_bytes by (metis sum.inject(2))

end

lemma serialize_entries:
  "serialize M p = pack_map M (length [(''v'', V_Uint8 PROTO_VERSION), (''data'', V_Bin (pk_data p)),
       (''signature'', V_Bin (pk_signature p))])
     @ pack_entries M [(''v'', V_Uint8 PROTO_VERSION), (''data'', V_Bin (pk_data p)),
       (''signature'', V_Bin (pk_signature p))]"
  by (simp add: serialize_def pack_entries_def numeral_3_eq_3)

lemma unpack_serialize:
  assumes "msgpack_ok M" and "packet_fits p"
  shows "unpack M (serialize M p) = Inr (MP_MAP
     [(MP_STR ''v'', MP_POSITIVE_INTEGER 0), (MP_STR ''data'', MP_BIN (pk_data p)),
      (MP_STR ''signature'', MP_BIN (pk_signature p))])"
proof -
  let ?kvs = "[(''v'', V_Uint8 PROTO_VERSION), (''data'', V_Bin (pk_data p)),
       (''signature'', V_Bin (pk_signature p))]"
  have "length ?kvs < 2 ^ 32" and "list_all entry_fits ?kvs"
    using assms(2) by (simp_all add: entry_fits_def packet_fits_def)
  then have "unpack M (pack_map M (length ?kvs) @ pack_entries M ?kvs) = Inr (MP_MAP (entry_objects ?kvs))"
    using assms(1) unfolding msgpack_ok_def by blast
  then show ?thesis
    unfolding serialize_entries [symmetric] by (simp add: entry_objects_def PROTO_VERSION_def)
qed

lemma serialize_not_Nil: "msgpack_ok M \<Longrightarrow> serialize M p \<noteq> []"
  by (simp add: msgpack_ok_def serialize_def)

interpretation packet: packet_format serialize deserialize msgpack_ok packet_fits
proof
  fix M p
  assume "msgpack_ok M" and "packet_fits p"
  then show "deserialize M (serialize M p) = Inr p"
    using unpack_serialize [of M p]
    by (simp add: deserialize_def findMapValue_def convert_member_def msgpack_ok_def)
qed


section \<open>Properties\<close>


end
