(* ===== verification/Msgpack_Ref.thy ===== *)
theory Msgpack_Ref
  imports Packet
begin

text \<open>
  A concrete msgpack for the part of the format a packet uses, written from the published format
  specification: positive integers below 256, strings, byte strings and maps of such values. It
  is the instance on which the theorems that assume the library's documented behaviour are
  applied, and it gives the wire format of a packet byte for byte.
\<close>

section \<open>Big-endian lengths\<close>

definition be16 :: "nat \<Rightarrow> bytes" where
  "be16 n = [of_nat (n div 256), of_nat n]"

definition be32 :: "nat \<Rightarrow> bytes" where
  "be32 n = be16 (n div 65536) @ be16 n"

definition of_be16 :: "byte \<Rightarrow> byte \<Rightarrow> nat" where
  "of_be16 a b = 256 * unat a + unat b"

definition of_be32 :: "byte \<Rightarrow> byte \<Rightarrow> byte \<Rightarrow> byte \<Rightarrow> nat" where
  "of_be32 a b c d = 65536 * of_be16 a b + of_be16 c d"

lemma unat_byte_of_nat [simp]: "unat (of_nat n :: byte) = n mod 256"
  by (simp add: unsigned_of_nat take_bit_eq_mod)

lemma of_be16_be16: "of_be16 (of_nat (n div 256)) (of_nat n) = n mod 65536"
proof -
  have "n mod 65536 = n mod (256 * 256)" by simp
  also have "\<dots> = 256 * (n div 256 mod 256) + n mod 256" by (rule mod_mult2_eq)
  finally show ?thesis by (simp add: of_be16_def)
qed

section \<open>Packing\<close>

definition ref_header :: "byte \<Rightarrow> byte \<Rightarrow> byte \<Rightarrow> nat \<Rightarrow> bytes" where
  "ref_header h8 h16 h32 n =
     (if n < 256 then [h8, of_nat n] else if n < 65536 then h16 # be16 n else h32 # be32 n)"

definition ref_pack_map :: "nat \<Rightarrow> bytes" where
  "ref_pack_map n =
     (if n < 16 then [0x80 + of_nat n] else if n < 65536 then 0xde # be16 n else 0xdf # be32 n)"

definition ref_pack_str :: "string \<Rightarrow> bytes" where
  "ref_pack_str s =
     (if length s < 32 then [0xa0 + of_nat (length s)] else ref_header 0xd9 0xda 0xdb (length s))
     @ bytes_of_string s"

definition ref_pack_uint8 :: "byte \<Rightarrow> bytes" where
  "ref_pack_uint8 b = (if unat b < 128 then [b] else [0xcc, b])"

definition ref_pack_bin :: "bytes \<Rightarrow> bytes" where
  "ref_pack_bin b = ref_header 0xc4 0xc5 0xc6 (length b) @ b"

section \<open>Unpacking\<close>

text \<open>A length after one of three header bytes, and what follows it.\<close>

definition ref_length :: "byte \<Rightarrow> byte \<Rightarrow> byte \<Rightarrow> bytes \<Rightarrow> (nat \<times> bytes) option" where
  "ref_length h8 h16 h32 bs =
     (case bs of
        h # a # r \<Rightarrow>
          if h = h8 then Some (unat a, r)
          else (case r of
                  b # r' \<Rightarrow>
                    if h = h16 then Some (of_be16 a b, r')
                    else (case r' of
                            c # d # r'' \<Rightarrow> if h = h32 then Some (of_be32 a b c d, r'') else None
                          | _ \<Rightarrow> None)
                | [] \<Rightarrow> None)
      | _ \<Rightarrow> None)"

lemma ref_length_header:
  assumes "n < 2 ^ 32" and "distinct [h8, h16, h32]"
  shows "ref_length h8 h16 h32 (ref_header h8 h16 h32 n @ r) = Some (n, r)"
proof -
  have "65536 * (n div 65536 mod 65536) + n mod 65536 = n"
    using assms(1) by (simp add: less_mult_imp_div_less)
  then show ?thesis
    using assms by (auto simp: ref_length_def ref_header_def be16_def be32_def of_be32_def of_be16_be16)
qed

definition take_bytes :: "nat \<Rightarrow> bytes \<Rightarrow> (bytes \<times> bytes) option" where
  "take_bytes n r = (if n \<le> length r then Some (take n r, drop n r) else None)"

definition ref_scalar :: "bytes \<Rightarrow> (mp_object \<times> bytes) option" where
  "ref_scalar bs =
     (case bs of
        [] \<Rightarrow> None
      | h # r \<Rightarrow>
          if unat h < 128 then Some (MP_POSITIVE_INTEGER (ucast h), r)
          else if h = 0xcc then (case r of [] \<Rightarrow> None | b # r' \<Rightarrow> Some (MP_POSITIVE_INTEGER (ucast b), r'))
          else if 0xa0 \<le> unat h \<and> unat h < 0xc0
          then map_option (\<lambda>(s, r'). (MP_STR (string_of_bytes s), r')) (take_bytes (unat h - 0xa0) r)
          else (case ref_length 0xd9 0xda 0xdb bs of
                  Some (n, r') \<Rightarrow> map_option (\<lambda>(s, r'). (MP_STR (string_of_bytes s), r')) (take_bytes n r')
                | None \<Rightarrow>
                    (case ref_length 0xc4 0xc5 0xc6 bs of
                       Some (n, r') \<Rightarrow> map_option (\<lambda>(b, r'). (MP_BIN b, r')) (take_bytes n r')
                     | None \<Rightarrow> None)))"

fun ref_entries :: "nat \<Rightarrow> bytes \<Rightarrow> (mp_object \<times> mp_object) list option" where
  "ref_entries 0 bs = Some []"
| "ref_entries (Suc n) bs =
     (case ref_scalar bs of
        None \<Rightarrow> None
      | Some (k, r) \<Rightarrow>
          (case ref_scalar r of
             None \<Rightarrow> None
           | Some (v, r') \<Rightarrow> map_option (\<lambda>kvs. (k, v) # kvs) (ref_entries n r')))"

text \<open>Bytes behind the object are ignored, as \<open>msgpack::unpack\<close> does.\<close>

definition ref_unpack :: "bytes \<Rightarrow> string + mp_object" where
  "ref_unpack bs =
     (case bs of
        [] \<Rightarrow> Inl ''insufficient bytes''
      | h # r \<Rightarrow>
          if 0x80 \<le> unat h \<and> unat h < 0x90
          then (case ref_entries (unat h - 0x80) r of
                  None \<Rightarrow> Inl ''insufficient bytes'' | Some kvs \<Rightarrow> Inr (MP_MAP kvs))
          else (case (if h = 0xde \<or> h = 0xdf then ref_length 0 0xde 0xdf bs else None) of
                  Some (n, r') \<Rightarrow>
                    (case ref_entries n r' of
                       None \<Rightarrow> Inl ''insufficient bytes'' | Some kvs \<Rightarrow> Inr (MP_MAP kvs))
                | None \<Rightarrow>
                    (case ref_scalar bs of
                       None \<Rightarrow> Inl ''parse error'' | Some (obj, _) \<Rightarrow> Inr obj)))"

definition ref_convert :: "mp_object \<Rightarrow> bytes option" where
  "ref_convert obj =
     (case obj of MP_BIN b \<Rightarrow> Some b | MP_STR s \<Rightarrow> Some (bytes_of_string s) | _ \<Rightarrow> None)"

definition ref_msgpack :: msgpack_lib where
  "ref_msgpack = \<lparr>pack_map = ref_pack_map, pack_str = ref_pack_str, pack_uint8 = ref_pack_uint8,
     pack_bin = ref_pack_bin, unpack = ref_unpack, convert_bytes = ref_convert\<rparr>"

section \<open>Unpacking inverts packing\<close>

lemma take_bytes_append [simp]: "take_bytes (length b) (b @ r) = Some (b, r)"
  by (simp add: take_bytes_def)

lemma small_byte: "n < 256 \<Longrightarrow> unat (of_nat n :: byte) = n"
  by simp

lemma ref_header_Cons:
  "\<exists>h t. ref_header h8 h16 h32 n = h # t \<and> t \<noteq> [] \<and> h \<in> {h8, h16, h32}"
  by (auto simp: ref_header_def be16_def be32_def)

lemma ref_scalar_str:
  assumes "length s < 2 ^ 32"
  shows "ref_scalar (ref_pack_str s @ r) = Some (MP_STR s, r)"
proof (cases "length s < 32")
  case True
  then have u: "unat (0xa0 + of_nat (length s) :: byte) = 160 + length s"
    by (simp add: unat_word_ariths)
  have n: "(0xa0 + of_nat (length s) :: byte) \<noteq> 0xcc"
  proof
    assume "(0xa0 + of_nat (length s) :: byte) = 0xcc"
    then have "unat (0xa0 + of_nat (length s) :: byte) = unat (0xcc :: byte)" by simp
    with u True show False by simp
  qed
  have t: "take_bytes (length s) (bytes_of_string s @ r) = Some (bytes_of_string s, r)"
    using take_bytes_append [of "bytes_of_string s" r] by simp
  show ?thesis
    using True u n by (simp add: ref_scalar_def ref_pack_str_def t)
next
  case False
  let ?h = "ref_header 0xd9 0xda 0xdb (length s)"
  obtain h t where h: "?h = h # t" "h \<in> {0xd9, 0xda, 0xdb}"
    using ref_header_Cons [of "0xd9" "0xda" "0xdb" "length s"] by blast
  have l: "ref_length 0xd9 0xda 0xdb (?h @ bytes_of_string s @ r) = Some (length s, bytes_of_string s @ r)"
    by (rule ref_length_header) (use assms in simp_all)
  have t: "take_bytes (length s) (bytes_of_string s @ r) = Some (bytes_of_string s, r)"
    using take_bytes_append [of "bytes_of_string s" r] by simp
  show ?thesis
    using False h l t by (auto simp: ref_scalar_def ref_pack_str_def)
qed

lemma ref_scalar_bin:
  assumes "length b < 2 ^ 32"
  shows "ref_scalar (ref_pack_bin b @ r) = Some (MP_BIN b, r)"
proof -
  let ?h = "ref_header 0xc4 0xc5 0xc6 (length b)"
  obtain h t where h: "?h = h # t" "h \<in> {0xc4, 0xc5, 0xc6}" "t \<noteq> []"
    using ref_header_Cons [of "0xc4" "0xc5" "0xc6" "length b"] by blast
  have l: "ref_length 0xc4 0xc5 0xc6 (?h @ b @ r) = Some (length b, b @ r)"
    by (rule ref_length_header) (use assms in simp_all)
  have n: "ref_length 0xd9 0xda 0xdb (?h @ b @ r) = None"
    using h by (auto simp: ref_length_def split: list.split)
  show ?thesis
    using h l n by (auto simp: ref_scalar_def ref_pack_bin_def)
qed

lemma ref_scalar_uint8: "ref_scalar (ref_pack_uint8 b @ r) = Some (MP_POSITIVE_INTEGER (ucast b), r)"
  by (simp add: ref_scalar_def ref_pack_uint8_def)

lemma ref_scalar_value:
  "value_fits v \<Longrightarrow> ref_scalar (pack_value ref_msgpack v @ r) = Some (value_object v, r)"
  by (cases v) (simp_all add: ref_msgpack_def ref_scalar_bin ref_scalar_uint8)

lemma ref_entries_pack:
  "list_all entry_fits kvs \<Longrightarrow>
     ref_entries (length kvs) (pack_entries ref_msgpack kvs) = Some (entry_objects kvs)"
proof (induction kvs)
  case Nil
  show ?case by (simp add: entry_objects_def)
next
  case (Cons kv kvs)
  obtain k v where kv: "kv = (k, v)" by (cases kv)
  have f: "length k < 2 ^ 32" "value_fits v" "list_all entry_fits kvs"
    using Cons.prems kv by (simp_all add: entry_fits_def [of "(k, v)"])
  have "pack_entries ref_msgpack (kv # kvs) =
      ref_pack_str k @ pack_value ref_msgpack v @ pack_entries ref_msgpack kvs"
    by (simp add: pack_entries_def kv) (simp add: ref_msgpack_def)
  with f Cons.IH kv show ?case
    by (simp add: ref_scalar_str ref_scalar_value entry_objects_def)
qed

lemma ref_unpack_map:
  assumes "n < 2 ^ 32" and "ref_entries n r = Some kvs"
  shows "ref_unpack (ref_pack_map n @ r) = Inr (MP_MAP kvs)"
proof (cases "n < 16")
  case True
  then have "unat (0x80 + of_nat n :: byte) = 128 + n"
    by (simp add: unat_word_ariths)
  with True assms show ?thesis by (simp add: ref_unpack_def ref_pack_map_def)
next
  case False
  have d: "65536 * (n div 65536 mod 65536) + n mod 65536 = n"
    using assms(1) by (simp add: less_mult_imp_div_less)
  then show ?thesis
    using False assms
    by (auto simp: ref_unpack_def ref_pack_map_def ref_length_def be16_def be32_def of_be32_def of_be16_be16)
qed

lemma ref_msgpack_ok: "msgpack_ok ref_msgpack"
proof -
  have "unpack ref_msgpack (pack_map ref_msgpack (length kvs) @ pack_entries ref_msgpack kvs) =
      Inr (MP_MAP (entry_objects kvs))"
    if "length kvs < 2 ^ 32" and "list_all entry_fits kvs" for kvs
    using ref_unpack_map [OF that(1) ref_entries_pack [OF that(2)]]
    by (simp add: ref_msgpack_def)
  moreover have "convert_bytes ref_msgpack (MP_BIN b) = Some b" for b
    by (simp add: ref_msgpack_def ref_convert_def)
  moreover have "pack_map ref_msgpack n \<noteq> []" for n
    by (simp add: ref_msgpack_def ref_pack_map_def)
  ultimately show ?thesis unfolding msgpack_ok_def by blast
qed

section \<open>Properties\<close>

text \<open>
  C24. Serialising a packet and reading it back gives the packet, for every msgpack with the
  documented behaviour and every packet whose parts are shorter than 4 GiB.
\<close>

theorem packet_roundtrip:
  assumes "msgpack_ok M" and "length (pk_data p) < 2 ^ 32" and "length (pk_signature p) < 2 ^ 32"
  shows "deserialize M (serialize M p) = Inr p"
  using packet.of_bytes_to_bytes [of M p] assms by (simp add: packet_fits_def)

theorem packet_roundtrip_witness:
  "serialize ref_msgpack \<lparr>pk_data = [0, 1, 2, 3, 4], pk_signature = []\<rparr> =
     [0x83, 0xa1, 118, 0x00, 0xa4, 100, 97, 116, 97, 0xc4, 5, 0, 1, 2, 3, 4,
      0xa9, 115, 105, 103, 110, 97, 116, 117, 114, 101, 0xc4, 0] \<and>
   deserialize ref_msgpack (serialize ref_msgpack \<lparr>pk_data = [0, 1, 2, 3, 4], pk_signature = []\<rparr>) =
     Inr \<lparr>pk_data = [0, 1, 2, 3, 4], pk_signature = []\<rparr>"
proof
  show "serialize ref_msgpack \<lparr>pk_data = [0, 1, 2, 3, 4], pk_signature = []\<rparr> =
     [0x83, 0xa1, 118, 0x00, 0xa4, 100, 97, 116, 97, 0xc4, 5, 0, 1, 2, 3, 4,
      0xa9, 115, 105, 103, 110, 97, 116, 117, 114, 101, 0xc4, 0]"
    by (simp add: serialize_def ref_msgpack_def ref_pack_map_def ref_pack_str_def ref_pack_uint8_def
        ref_pack_bin_def ref_header_def bytes_of_string_def byte_of_char_def PROTO_VERSION_def)
  show "deserialize ref_msgpack (serialize ref_msgpack \<lparr>pk_data = [0, 1, 2, 3, 4], pk_signature = []\<rparr>) =
     Inr \<lparr>pk_data = [0, 1, 2, 3, 4], pk_signature = []\<rparr>"
    by (rule packet_roundtrip [OF ref_msgpack_ok]) simp_all
qed

end
