(* ===== verification/Pin.thy ===== *)
theory Pin
  imports Effects
begin

text \<open>
  The PIN of a paste (\<open>src/bin.cpp\<close>, \<open>Bin::random_pin\<close> and \<open>Bin::code_from_dpaste_uri\<close>): a 32-bit
  draw printed as eight upper-case hexadecimal digits, and the extraction of the code from what
  the user types.

  The engine (\<open>std::mt19937_64\<close>), its seeding from a \<open>std::seed_seq\<close>, the distribution
  (whose algorithm the C++ standard leaves to the implementation) and \<open>std::random_device\<close> are
  functions the model is given; what is shown holds for every choice of them.
\<close>

record rng_lib =
  random_device :: "event list \<Rightarrow> nat \<Rightarrow> 32 word"
  engine_default :: engine
  engine_seed :: "32 word \<times> 32 word \<Rightarrow> engine"
  dist_draw :: "engine \<Rightarrow> 32 word \<times> engine"

definition DPASTE_PIN_LEN :: nat where
  "DPASTE_PIN_LEN = 8"

definition DPASTE_URI_PREFIX :: string where
  "DPASTE_URI_PREFIX = ''dpaste:''"

section \<open>Printing\<close>

definition hex_digit :: "nat \<Rightarrow> char" where
  "hex_digit n = ''0123456789abcdef'' ! n"

text \<open>\<open>ss << std::hex << pin\<close> and the padding of \<open>std::setfill('0') << std::setw(n)\<close>.\<close>

fun hex_digits :: "nat \<Rightarrow> string" where
  "hex_digits n = (if n < 16 then [hex_digit n] else hex_digits (n div 16) @ [hex_digit (n mod 16)])"

declare hex_digits.simps [simp del]

definition setw_fill :: "nat \<Rightarrow> char \<Rightarrow> string \<Rightarrow> string" where
  "setw_fill n c s = replicate (n - length s) c @ s"

definition pin_text :: "32 word \<Rightarrow> string" where
  "pin_text pin = map toupper (setw_fill DPASTE_PIN_LEN (CHR ''0'') (hex_digits (unat pin)))"

section \<open>random_pin\<close>

definition init_pin_statics :: "rng_lib \<Rightarrow> event list \<Rightarrow> pin_static" where
  "init_pin_statics R tr =
     \<lparr>ps_rand = engine_default R, ps_seed = (random_device R tr 0, random_device R tr 1),
      ps_initialized = False\<rparr>"

definition random_pin :: "rng_lib \<Rightarrow> string proc" where
  "random_pin R =
     bindP (getP (\<lambda>w. case pin_statics w of Some st \<Rightarrow> st | None \<Rightarrow> init_pin_statics R (trace w))) (\<lambda>st.
     let rand0 = (if \<not> ps_initialized st then engine_seed R (ps_seed st) else ps_rand st);
         (pin, rand1) = dist_draw R rand0
     in thenP (modifyP (\<lambda>w. w\<lparr>pin_statics := Some (st\<lparr>ps_rand := rand1\<rparr>)\<rparr>))
          (returnP (pin_text pin)))"

section \<open>code_from_dpaste_uri\<close>

text \<open>\<open>None\<close> would be the \<open>std::out_of_range\<close> of \<open>substr\<close>; \<open>code_from_uri_cases\<close> shows it never comes.\<close>

definition code_from_dpaste_uri :: "string \<Rightarrow> string option" where
  "code_from_dpaste_uri uri =
     (let p = str_find DPASTE_URI_PREFIX uri
      in substr_from uri (case p of Some p \<Rightarrow> p + length DPASTE_URI_PREFIX | None \<Rightarrow> 0))"

section \<open>The digits of a PIN\<close>

text \<open>The value of a string of upper-case hexadecimal digits.\<close>

definition digit_value :: "char \<Rightarrow> nat" where
  "digit_value c = (let n = of_char c in if n < 65 then n - 48 else n - 55)"

definition hex_value :: "string \<Rightarrow> nat" where
  "hex_value s = foldl (\<lambda>a c. 16 * a + digit_value c) 0 s"

definition is_pin_char :: "char \<Rightarrow> bool" where
  "is_pin_char c \<longleftrightarrow> c \<in> set ''0123456789ABCDEF''"

lemma upper_hex_digit:
  assumes "n < 16"
  shows "digit_value (toupper (hex_digit n)) = n \<and> is_pin_char (toupper (hex_digit n))"
proof -
  have "n = 0 \<or> n = 1 \<or> n = 2 \<or> n = 3 \<or> n = 4 \<or> n = 5 \<or> n = 6 \<or> n = 7 \<or>
      n = 8 \<or> n = 9 \<or> n = 10 \<or> n = 11 \<or> n = 12 \<or> n = 13 \<or> n = 14 \<or> n = 15"
    using assms by presburger
  then show ?thesis
    by (elim disjE) (simp_all add: hex_digit_def toupper_def is_lower_def digit_value_def
        is_pin_char_def char_of_def Let_def)
qed

lemma hex_value_append: "hex_value (s @ [c]) = 16 * hex_value s + digit_value c"
  by (simp add: hex_value_def)

lemma hex_value_zeros: "hex_value (replicate k (CHR ''0'') @ s) = hex_value s"
proof (induction k)
  case 0
  show ?case by simp
next
  case (Suc k)
  then show ?case by (simp add: hex_value_def digit_value_def)
qed

lemma hex_digits_value: "hex_value (map toupper (hex_digits n)) = n"
proof (induction n rule: hex_digits.induct)
  case (1 n)
  show ?case
  proof (cases "n < 16")
    case True
    then show ?thesis
      by (subst hex_digits.simps) (simp add: hex_value_def upper_hex_digit)
  next
    case False
    with 1 show ?thesis
      by (subst hex_digits.simps) (simp add: hex_value_append upper_hex_digit)
  qed
qed

lemma hex_digits_chars: "\<forall>c \<in> set (hex_digits n). is_pin_char (toupper c)"
proof (induction n rule: hex_digits.induct)
  case (1 n)
  then show ?case
    by (subst hex_digits.simps) (auto simp: upper_hex_digit)
qed

lemma length_hex_digits: "n < 16 ^ Suc k \<Longrightarrow> length (hex_digits n) \<le> Suc k"
proof (induction n arbitrary: k rule: hex_digits.induct)
  case (1 n)
  show ?case
  proof (cases "n < 16")
    case True
    then show ?thesis by (subst hex_digits.simps) simp
  next
    case False
    then obtain j where j: "k = Suc j"
      using "1.prems" by (cases k) auto
    have "n div 16 < 16 ^ Suc j"
      using "1.prems" j by (simp add: less_mult_imp_div_less mult.commute)
    with False 1 j show ?thesis by (subst hex_digits.simps) simp
  qed
qed

lemma length_hex_digits_word: "length (hex_digits (unat (w :: 32 word))) \<le> 8"
proof -
  have "unat w < 16 ^ Suc 7"
    using unsigned_less [of w, where ?'a = nat] by simp
  then have "length (hex_digits (unat w)) \<le> Suc 7"
    by (rule length_hex_digits)
  then show ?thesis by simp
qed

lemma toupper_zero [simp]: "toupper (CHR ''0'') = CHR ''0''"
  by (simp add: toupper_def is_lower_def)

lemma length_pin_text [simp]: "length (pin_text w) = 8"
  using length_hex_digits_word [of w] by (simp add: pin_text_def setw_fill_def DPASTE_PIN_LEN_def)

lemma pin_text_chars: "\<forall>c \<in> set (pin_text w). is_pin_char c"
  using hex_digits_chars [of "unat w"]
  by (auto simp: pin_text_def setw_fill_def is_pin_char_def)

lemma pin_text_value: "hex_value (pin_text w) = unat w"
  by (simp add: pin_text_def setw_fill_def hex_value_zeros hex_digits_value)

lemma pin_text_no_prefix: "str_find DPASTE_URI_PREFIX (pin_text w @ pin_text v) = None"
proof -
  have "\<not> is_pin_char (CHR '':'')"
    by (simp add: is_pin_char_def)
  then have "CHR '':'' \<notin> set (pin_text w @ pin_text v)"
    using pin_text_chars [of w] pin_text_chars [of v] by auto
  moreover have "CHR '':'' \<in> set DPASTE_URI_PREFIX"
    by (simp add: DPASTE_URI_PREFIX_def)
  ultimately have "\<not> sublist DPASTE_URI_PREFIX (pin_text w @ pin_text v)"
    unfolding sublist_def by (metis UnCI set_append)
  then show ?thesis by (simp add: str_find_None_iff)
qed

lemma code_from_uri_total: "\<exists>code. code_from_dpaste_uri uri = Some code"
proof (cases "str_find DPASTE_URI_PREFIX uri")
  case None
  then show ?thesis by (simp add: code_from_dpaste_uri_def substr_from_def)
next
  case (Some p)
  then show ?thesis
    using str_find_Some [OF Some] by (simp add: code_from_dpaste_uri_def substr_from_def)
qed

section \<open>Running random_pin\<close>

text \<open>
  The pin of a process: what \<open>random_pin\<close> returns, now and at every later call, as a function of
  its static variables.
\<close>

definition process_pin :: "rng_lib \<Rightarrow> world \<Rightarrow> 32 word" where
  "process_pin R w =
     (let st = (case pin_statics w of Some st \<Rightarrow> st | None \<Rightarrow> init_pin_statics R (trace w))
      in fst (dist_draw R (if \<not> ps_initialized st then engine_seed R (ps_seed st) else ps_rand st)))"

definition after_pin :: "rng_lib \<Rightarrow> world \<Rightarrow> world" where
  "after_pin R w = snd (random_pin R w)"

lemma run_random_pin [proc_simps]:
  "random_pin R w = (Inr (pin_text (process_pin R w)), after_pin R w)"
  by (simp add: random_pin_def after_pin_def process_pin_def proc_simps Let_def split: prod.split)

lemma after_pin_frame [simp]:
  "trace (after_pin R w) = trace w"
  "gpg_initialized (after_pin R w) = gpg_initialized w"
  "cipher_initialized (after_pin R w) = cipher_initialized w"
  by (simp_all add: after_pin_def random_pin_def proc_simps Let_def split: prod.split)

text \<open>The flag \<open>initialized\<close> of every state the program reaches is still \<open>False\<close>.\<close>

definition never_initialized :: "world \<Rightarrow> bool" where
  "never_initialized w \<longleftrightarrow> (case pin_statics w of None \<Rightarrow> True | Some st \<Rightarrow> \<not> ps_initialized st)"

lemma never_initialized_init [simp]: "never_initialized init_world"
  by (simp add: never_initialized_def init_world_def)

lemma never_initialized_after_pin: "never_initialized w \<Longrightarrow> never_initialized (after_pin R w)"
  by (simp add: never_initialized_def after_pin_def random_pin_def proc_simps init_pin_statics_def
      Let_def split: prod.split option.splits)

lemma never_initialized_cong: "pin_statics w' = pin_statics w \<Longrightarrow> never_initialized w' = never_initialized w"
  by (simp add: never_initialized_def)

lemma process_pin_after_pin:
  "\<lbrakk>never_initialized w; pin_statics w' = pin_statics (after_pin R w)\<rbrakk> \<Longrightarrow> process_pin R w' = process_pin R w"
  by (simp add: never_initialized_def process_pin_def after_pin_def random_pin_def proc_simps
      init_pin_statics_def Let_def split: prod.split option.splits)

section \<open>A concrete generator\<close>

text \<open>
  A small generator for the concrete instances below: a linear congruential engine whose
  successive draws differ.
\<close>

definition lcg_rng :: rng_lib where
  "lcg_rng = \<lparr>random_device = (\<lambda>tr k. of_nat (length tr + k + 1)),
     engine_default = [5489], engine_seed = (\<lambda>(a, b). [2 * ucast a + ucast b]),
     dist_draw = (\<lambda>e. let x = 1664525 * hd e + 1013904223 in (ucast x, [x]))\<rparr>"

section \<open>Properties\<close>

text \<open>
  C36. A PIN has eight characters, all of them upper-case hexadecimal digits, and reading them
  back gives the number drawn: the padding and the upper-casing lose nothing, so distinct draws
  have distinct PINs.
\<close>

theorem pin_text_roundtrip:
  "length (pin_text w) = 8 \<and> set (pin_text w) \<subseteq> set ''0123456789ABCDEF'' \<and>
     hex_value (pin_text w) = unat w"
proof (intro conjI)
  show "set (pin_text w) \<subseteq> set ''0123456789ABCDEF''"
    using pin_text_chars [of w] unfolding is_pin_char_def by blast
qed (rule length_pin_text, rule pin_text_value)

text \<open>
  \<open>random_pin\<close> never sets its flag \<open>initialized\<close>, so every call seeds the engine again with the
  same seed sequence: once it has been called, every later call in the process returns the same
  PIN, whatever the engine, the distribution and the random device are.
\<close>

lemma random_pin_repeats:
  assumes "never_initialized w" and "random_pin R w = (r, w1)"
    and "pin_statics w2 = pin_statics w1"
  shows "fst (random_pin R w2) = r \<and> never_initialized w2"
proof -
  have w1: "w1 = after_pin R w" and r: "r = Inr (pin_text (process_pin R w))"
    using assms(2) by (simp_all add: run_random_pin)
  have "process_pin R w2 = process_pin R w"
    by (rule process_pin_after_pin) (use assms w1 in simp_all)
  moreover have "never_initialized w2"
    using never_initialized_after_pin [OF assms(1)] never_initialized_cong assms(3) w1 by metis
  ultimately show ?thesis by (simp add: run_random_pin r)
qed

lemma random_pin_repeats_witness:
  "fst (random_pin lcg_rng (snd (random_pin lcg_rng init_world))) = fst (random_pin lcg_rng init_world) \<and>
     fst (dist_draw lcg_rng (snd (dist_draw lcg_rng [4]))) \<noteq> fst (dist_draw lcg_rng [4])"
  using random_pin_repeats [of init_world lcg_rng "fst (random_pin lcg_rng init_world)"
      "snd (random_pin lcg_rng init_world)" "snd (random_pin lcg_rng init_world)"]
  by (simp add: lcg_rng_def Let_def)

text \<open>
  The code is read back from the URI \<open>paste\<close> prints, with or without the prefix, and with
  or without a password behind the location code.
\<close>

lemma code_from_uri_roundtrip:
  "code_from_dpaste_uri (''dpaste:'' @ code) = Some code \<and>
     code_from_dpaste_uri (pin_text w) = Some (pin_text w) \<and>
     code_from_dpaste_uri (pin_text w @ pin_text v) = Some (pin_text w @ pin_text v)"
proof -
  have "str_find DPASTE_URI_PREFIX (pin_text w) = None"
  proof -
    have "\<not> sublist DPASTE_URI_PREFIX (pin_text w @ pin_text w)"
      using pin_text_no_prefix [of w w] by (simp add: str_find_None_iff)
    then show ?thesis
      unfolding str_find_None_iff by (meson sublist_appendI sublist_append_rightI sublist_order.order_trans)
  qed
  moreover have "str_find DPASTE_URI_PREFIX (DPASTE_URI_PREFIX @ code) = Some 0"
    by (rule str_find_prefix)
  ultimately show ?thesis
    using pin_text_no_prefix [of w v]
    by (simp add: code_from_dpaste_uri_def substr_from_def DPASTE_URI_PREFIX_def)
qed

text \<open>
  For every input \<open>code_from_dpaste_uri\<close> returns (its \<open>substr\<close> never throws): the part of the
  input behind the first \<open>dpaste:\<close>, wherever that stands, or the whole input when there is none
  (so the upper-case spellings of the tests are not prefixes).
\<close>

lemma code_from_uri_cases:
  "\<exists>code. code_from_dpaste_uri uri = Some code \<and>
     (case str_find ''dpaste:'' uri of
        None \<Rightarrow> code = uri \<and> \<not> sublist ''dpaste:'' uri
      | Some p \<Rightarrow> uri = take p uri @ ''dpaste:'' @ code)"
proof (cases "str_find ''dpaste:'' uri")
  case None
  then show ?thesis
    by (simp add: code_from_dpaste_uri_def DPASTE_URI_PREFIX_def substr_from_def)
      (simp add: str_find_None_iff)
next
  case (Some p)
  then have l: "p + length ''dpaste:'' \<le> length uri"
    and m: "take (length ''dpaste:'') (drop p uri) = ''dpaste:''"
    using str_find_Some [OF Some] by auto
  have "uri = take p uri @ take (length ''dpaste:'') (drop p uri) @ drop (length ''dpaste:'') (drop p uri)"
    by (simp only: append_take_drop_id)
  then have "uri = take p uri @ ''dpaste:'' @ drop (p + length ''dpaste:'') uri"
    unfolding m drop_drop by (simp add: add.commute)
  with Some l show ?thesis
    by (simp add: code_from_dpaste_uri_def DPASTE_URI_PREFIX_def substr_from_def)
qed

end
