(* ===== verification/Bin.thy ===== *)
theory Bin
  imports Cipher Conf Http_Client Msgpack_Ref Pin
begin

text \<open>
  \<open>src/bin.h\<close> and \<open>src/bin.cpp\<close>: the pastebin itself. \<open>libs\<close> gathers the third-party libraries
  and the host; \<open>junk\<close> the values that uninitialised variables of the program happen to have,
  and the race of the blocking paste, so that a statement for all \<open>junk\<close> holds whatever they are.
\<close>

record libs =
  lib_gpgme :: gpgme_lib
  lib_aes :: aes_lib
  lib_msgpack :: msgpack_lib
  lib_http :: http_lib
  lib_dht :: dht_lib
  lib_rng :: rng_lib
  lib_host :: host_lib
  MAX_VALUE_SIZE :: nat

record junk =
  junk_scheme :: int
  junk_port :: int
  junk_flags_of :: junk_flags
  junk_race :: race

record bin =
  bin_conf :: config
  bin_http :: http_client
  bin_node :: node

section \<open>Reading the port\<close>

text \<open>
  \<open>std::istringstream conv(s); conv >> port\<close> for a 64-bit \<open>long\<close>, in the C locale: white space is
  skipped; at the end of the input the variable is not touched; a sign and digits are read as far
  as they go; no digit at all gives 0, a number out of range the nearest bound.
\<close>

definition is_space :: "char \<Rightarrow> bool" where
  "is_space c \<longleftrightarrow> c = CHR '' '' \<or> (9 \<le> (of_char c :: int) \<and> (of_char c :: int) \<le> 13)"

definition is_digit :: "char \<Rightarrow> bool" where
  "is_digit c \<longleftrightarrow> 48 \<le> (of_char c :: int) \<and> (of_char c :: int) \<le> 57"

definition decimal :: "string \<Rightarrow> int" where
  "decimal s = foldl (\<lambda>a c. 10 * a + (of_char c - 48)) 0 s"

definition LONG_MAX :: int where
  "LONG_MAX = 9223372036854775807"

definition LONG_MIN :: int where
  "LONG_MIN = - 9223372036854775808"

definition extract_long :: "int \<Rightarrow> string \<Rightarrow> int" where
  "extract_long old s =
     (case dropWhile is_space s of
        [] \<Rightarrow> old
      | c # r \<Rightarrow>
          let neg = (c = CHR ''-'');
              ds = takeWhile is_digit (if c = CHR ''-'' \<or> c = CHR ''+'' then r else c # r);
              v = (if neg then - decimal ds else decimal ds)
          in if ds = [] then 0 else max LONG_MIN (min LONG_MAX v))"

section \<open>The constructor\<close>

definition bin_new :: "libs \<Rightarrow> junk \<Rightarrow> bin proc" where
  "bin_new L J =
     bindP (liftP (load (lib_host L) (configuration_file (lib_host L) []))) (\<lambda>(_, config_file).
     let conf = getConfiguration config_file in
     bindP (liftP (map_at conf ''port'')) (\<lambda>port_text.
     let port = extract_long (junk_port J) port_text in
     bindP (run_default node_new) (\<lambda>node.
     bindP (liftP (map_at conf ''host'')) (\<lambda>host.
     returnP \<lparr>bin_conf = conf, bin_http = \<lparr>hc_host = host, hc_port = port\<rparr>, bin_node = node\<rparr>))))"

section \<open>data_from_stream\<close>

text \<open>The buffer of \<open>MAX_VALUE_SIZE\<close> bytes is filled by one \<open>read\<close> and cut to what was read.\<close>

definition data_from_stream :: "libs \<Rightarrow> string \<Rightarrow> bytes" where
  "data_from_stream L input_stream = bytes_of_string (take (MAX_VALUE_SIZE L) input_stream)"

section \<open>prepare_data\<close>

text \<open>
  The first half reads the parameters: whether to sign, the scheme (uninitialised when there are
  no parameters), the parameters for the cipher's constructor and for the encryption, the password.
\<close>

definition read_params ::
  "libs \<Rightarrow> junk \<Rightarrow> bin \<Rightarrow> parameters option \<Rightarrow> (bool \<times> int \<times> parameters option \<times> parameters option \<times> string) proc" where
  "read_params L J b sparams =
     (case get_if_gpg sparams of
        Some gp \<Rightarrow>
          bindP (liftP (map_at (bin_conf b) ''pgp_key_id'')) (\<lambda>keyid.
          returnP (gp_sign gp \<and> keyid \<noteq> [], scheme_value GPG,
                   Some (GPG_Params (gpg_parameters_key (junk_flags_of J) keyid)), sparams, []))
      | None \<Rightarrow>
          (case get_if_aes sparams of
             Some aesp \<Rightarrow>
               bindP (random_pin (lib_rng L)) (\<lambda>pwd.
               returnP (False, scheme_value AES, None, Some (AES_Params (aesp\<lparr>ap_password := pwd\<rparr>)), pwd))
           | None \<Rightarrow> returnP (False, junk_scheme J, None, sparams, [])))"

definition sign_with :: "gpgme_lib \<Rightarrow> cipher \<Rightarrow> bytes \<Rightarrow> bytes proc" where
  "sign_with G c data = (case c of GPG_Cipher g \<Rightarrow> gpg_sign G g data | AES_Cipher \<Rightarrow> throwP Null_Dereference)"

definition prepare_data :: "libs \<Rightarrow> junk \<Rightarrow> bin \<Rightarrow> bytes \<Rightarrow> parameters option \<Rightarrow> (packet \<times> string) proc" where
  "prepare_data L J b data params =
     bindP (read_params L J b params) (\<lambda>(to_sign, scheme, init_params, sparams, pwd).
     bindP (cipher_get_by_scheme (lib_gpgme L) scheme init_params) (\<lambda>cipher.
     case cipher of
       None \<Rightarrow> returnP (\<lparr>pk_data = data, pk_signature = []\<rparr>, pwd)
     | Some c \<Rightarrow>
         bindP (processPlainText (lib_aes L) (lib_gpgme L) c data sparams) (\<lambda>cipher_text.
         if cipher_text = [] then
           if to_sign then
             thenP (DPASTE_MSG ''Signing data...'' [])
               (bindP (sign_with (lib_gpgme L) c data) (\<lambda>signature.
                returnP (\<lparr>pk_data = data, pk_signature = signature\<rparr>, pwd)))
           else returnP (\<lparr>pk_data = data, pk_signature = []\<rparr>, pwd)
         else returnP (\<lparr>pk_data = cipher_text, pk_signature = []\<rparr>, pwd))))"

section \<open>paste\<close>

text \<open>The transport: the HTTP service, and when it fails the node.\<close>

definition send_blob :: "libs \<Rightarrow> junk \<Rightarrow> http_client \<Rightarrow> string \<Rightarrow> bytes \<Rightarrow> bool proc" where
  "send_blob L J hc code bin_packet =
     bindP (http_put (lib_dht L) (lib_http L) hc code (string_of_bytes bin_packet)) (\<lambda>success.
     if \<not> success then paste_blocking (lib_dht L) (junk_race J) code bin_packet else returnP success)"

definition bin_paste :: "libs \<Rightarrow> junk \<Rightarrow> bin \<Rightarrow> bytes \<Rightarrow> parameters option \<Rightarrow> string proc" where
  "bin_paste L J b data params =
     bindP (random_pin (lib_rng L)) (\<lambda>code.
     bindP (prepare_data L J b data params) (\<lambda>(p, pwd).
     thenP (DPASTE_MSG ''Pasting data...'' [])
       (let bin_packet = serialize (lib_msgpack L) p
        in bindP (send_blob L J (bin_http b) code bin_packet) (\<lambda>success.
           returnP (if success then DPASTE_URI_PREFIX @ code @ pwd else [])))))"

definition bin_paste_stream :: "libs \<Rightarrow> junk \<Rightarrow> bin \<Rightarrow> string \<Rightarrow> parameters option \<Rightarrow> string proc" where
  "bin_paste_stream L J b input_stream params = bin_paste L J b (data_from_stream L input_stream) params"

section \<open>get\<close>

text \<open>\<open>substr\<close> and \<open>code_from_dpaste_uri\<close>: no value is \<open>std::out_of_range\<close>.\<close>

definition or_out_of_range :: "'a option \<Rightarrow> exn + 'a" where
  "or_out_of_range r = (case r of None \<Rightarrow> Inl Out_Of_Range | Some x \<Rightarrow> Inr x)"

definition fetch_blob :: "libs \<Rightarrow> http_client \<Rightarrow> string \<Rightarrow> bytes proc" where
  "fetch_blob L hc lcode =
     bindP (http_get (lib_dht L) (lib_http L) hc lcode) (\<lambda>data_str.
     let data = bytes_of_string data_str
     in if data = [] then
          bindP (get_blobs (lib_dht L) lcode) (\<lambda>values.
          returnP (case values of [] \<Rightarrow> data | v # _ \<Rightarrow> v))
        else returnP data)"

text \<open>The \<open>try\<close> block: the packet is read, decrypted, and its signature looked at.\<close>

definition check_signature :: "gpgme_lib \<Rightarrow> bytes \<Rightarrow> bytes \<Rightarrow> unit proc" where
  "check_signature G signature data =
     bindP (cipher_get_by_scheme G (scheme_value GPG) None) (\<lambda>cipher.
     case cipher of
       Some (GPG_Cipher gc) \<Rightarrow>
         thenP (DPASTE_MSG ''Data is GPG signed. Verifying...'' [])
           (bindP (verify G gc signature data) (\<lambda>res.
            case res of s # _ \<Rightarrow> comment_on_signature G s | [] \<Rightarrow> returnP ()))
     | _ \<Rightarrow> throwP Null_Dereference)"

definition open_packet :: "libs \<Rightarrow> junk \<Rightarrow> bytes \<Rightarrow> string \<Rightarrow> string \<Rightarrow> bool \<Rightarrow> bytes proc" where
  "open_packet L J data code pwd no_decrypt =
     bindP (liftP (deserialize (lib_msgpack L) data)) (\<lambda>p.
     bindP (cipher_get_by_text (lib_gpgme L) (pk_data p) code) (\<lambda>cipher.
     bindP (case cipher of
              Some c \<Rightarrow>
                if \<not> no_decrypt then
                  processCipherText (lib_aes L) (lib_gpgme L) (junk_flags_of J) c (pk_data p)
                    (case c of AES_Cipher \<Rightarrow> Some (AES_Params (aes_parameters pwd)) | GPG_Cipher _ \<Rightarrow> None)
                else returnP (pk_data p)
            | None \<Rightarrow> returnP (pk_data p)) (\<lambda>data.
     thenP (if \<not> (cipher \<noteq> None \<or> pk_signature p = [])
            then check_signature (lib_gpgme L) (pk_signature p) data else returnP ())
       (returnP data))))"

text \<open>The \<open>catch\<close> clauses; a \<open>type_error\<close> leaves the bytes as they were fetched.\<close>

definition get_handler :: "libs \<Rightarrow> bytes \<Rightarrow> exn \<Rightarrow> (bool \<times> string) proc option" where
  "get_handler L data e =
     (case e of
        Gpg_Exception err msg \<Rightarrow>
          Some (thenP (DPASTE_MSG ''%s'' [gm_what (lib_gpgme L) err msg]) (returnP (False, [])))
      | Decrypt_Error msg \<Rightarrow> Some (thenP (DPASTE_MSG ''%s'' [msg]) (returnP (False, [])))
      | Msgpack_Type_Error \<Rightarrow> Some (returnP (True, string_of_bytes data))
      | _ \<Rightarrow> None)"

definition bin_get :: "libs \<Rightarrow> junk \<Rightarrow> bin \<Rightarrow> string \<Rightarrow> bool \<Rightarrow> (bool \<times> string) proc" where
  "bin_get L J b uri no_decrypt =
     bindP (liftP (or_out_of_range (code_from_dpaste_uri uri))) (\<lambda>code.
     let offset = CODE_PASS_OFFSET * 2 in
     bindP (liftP (or_out_of_range (substr code 0 offset))) (\<lambda>lcode.
     bindP (liftP (or_out_of_range (substr_from code offset))) (\<lambda>pwd.
     bindP (fetch_blob L (bin_http b) lcode) (\<lambda>data.
     if data \<noteq> [] then
       catchP (bindP (open_packet L J data code pwd no_decrypt) (\<lambda>data. returnP (True, string_of_bytes data)))
         (get_handler L data)
     else returnP (True, string_of_bytes data)))))"

section \<open>The transport as a store\<close>

text \<open>
  The two stores behind \<open>send_blob\<close> and \<open>fetch_blob\<close> make one store again: what was sent with
  success, to either, is what a fetch finds, although the fetch asks the HTTP service first.
\<close>

definition transport_ok :: "libs \<Rightarrow> bool" where
  "transport_ok L \<longleftrightarrow> http_ok (lib_http L) \<and> dht_ok (lib_dht L)"

definition transport_free :: "libs \<Rightarrow> http_client \<Rightarrow> world \<Rightarrow> string \<Rightarrow> bool" where
  "transport_free L hc w code \<longleftrightarrow> http_free (lib_dht L) hc w code \<and> node_free (lib_dht L) w code"

definition transport_holds :: "libs \<Rightarrow> http_client \<Rightarrow> world \<Rightarrow> string \<Rightarrow> bytes \<Rightarrow> bool" where
  "transport_holds L hc w code d \<longleftrightarrow> d \<noteq> [] \<and> port_code (lib_http L) hc \<noteq> Curl_Runtime_Error \<and>
     http_tried (lib_dht L) hc w code (string_of_bytes d) \<and>
     (http_holds (lib_dht L) (lib_http L) hc w code d \<or> node_holds (lib_dht L) w code d)"

definition fetch_first :: "libs \<Rightarrow> http_client \<Rightarrow> string \<Rightarrow> bytes option proc" where
  "fetch_first L hc code = bindP (fetch_blob L hc code) (\<lambda>d. returnP (if d = [] then None else Some d))"

text \<open>Events that store nothing in either: all but posts and puts.\<close>

definition no_store :: "event \<Rightarrow> bool" where
  "no_store e \<longleftrightarrow> (case e of Http_Perform req _ \<Rightarrow> req_form req = None | Dht_Put _ _ _ \<Rightarrow> False | _ \<Rightarrow> True)"

lemma no_store_simps [simp]:
  "no_store (Stderr s)" "no_store (Stdout s)" "no_store (Dht_Run p)" "no_store (Dht_Bootstrap h bp)"
  "no_store (Dht_Get hash ut)" "no_store (Gpg_Engine_Check err)"
  "no_store (Http_Perform (get_request url port) out)"
  by (simp_all add: no_store_def get_request_def)

lemma no_store_posted: "no_store e \<Longrightarrow> posted url port e = None"
  by (simp add: no_store_def posted_def split: event.splits)

lemma no_store_events:
  "list_all no_store tr \<Longrightarrow>
     attempted url port tr = [] \<and> confirmed url port tr = [] \<and> dht_stored h ut tr = []"
  by (induction tr) (simp_all add: no_store_posted, simp add: no_store_def split: event.splits)

lemma transport_cong:
  assumes "trace w' = trace w @ tr" and "list_all no_store tr"
  shows "transport_free L hc w' code = transport_free L hc w code"
    and "transport_holds L hc w' code d = transport_holds L hc w code d"
  by (simp_all add: transport_free_def transport_holds_def http_free_def node_free_def http_holds_def
      http_tried_def node_holds_def assms no_store_events)

text \<open>Events that leave what is stored under one code alone: nothing is posted or put there.\<close>

definition spares :: "libs \<Rightarrow> http_client \<Rightarrow> string \<Rightarrow> event \<Rightarrow> bool" where
  "spares L hc code e \<longleftrightarrow> posted (http_url (lib_dht L) hc code) (hc_port hc) e = None \<and>
     (case e of Dht_Put h v ok \<Rightarrow> h \<noteq> infohash_get (lib_dht L) code | _ \<Rightarrow> True)"

lemma no_store_spares: "no_store e \<Longrightarrow> spares L hc code e"
  by (simp add: spares_def no_store_posted) (simp add: no_store_def split: event.splits)

lemma list_no_store_spares: "list_all no_store es \<Longrightarrow> list_all (spares L hc code) es"
  by (auto simp: list_all_iff no_store_spares)

lemma spares_events:
  "list_all (spares L hc code) tr \<Longrightarrow>
     attempted (http_url (lib_dht L) hc code) (hc_port hc) tr = [] \<and>
     confirmed (http_url (lib_dht L) hc code) (hc_port hc) tr = [] \<and> dht_stored (infohash_get (lib_dht L) code) ut tr = []"
  by (induction tr) (simp_all add: spares_def, simp split: event.splits)

lemma transport_spared:
  assumes "trace w' = trace w @ tr" and "list_all (spares L hc code) tr"
  shows "transport_free L hc w' code = transport_free L hc w code"
    and "transport_holds L hc w' code d = transport_holds L hc w code d"
  by (simp_all add: transport_free_def transport_holds_def http_free_def node_free_def http_holds_def
      http_tried_def node_holds_def assms spares_events [OF assms(2)])

text \<open>A send returns, or the client's \<open>RuntimeError\<close> leaves it before anything was done.\<close>

lemma send_blob_cases:
  obtains (returns) ok w' where "send_blob L J hc code d w = (Inr ok, w')"
    | (throws) "send_blob L J hc code d w = (Inl Curlpp_Runtime_Error, w)"
proof -
  obtain r w1 where put: "http_put (lib_dht L) (lib_http L) hc code (string_of_bytes d) w = (r, w1)"
    by (cases "http_put (lib_dht L) (lib_http L) hc code (string_of_bytes d) w")
  show ?thesis
  proof (cases r)
    case (Inl e)
    then have "e = Curlpp_Runtime_Error" "w1 = w"
      using put by (auto simp: run_http_put Let_def split: curl_code.splits)
    then show ?thesis using Inl put throws by (simp add: send_blob_def run_bind_Inl)
  next
    case (Inr x)
    then show ?thesis
      using put returns by (cases x) (auto simp: send_blob_def run_bind_Inr run_return run_paste_blocking Let_def)
  qed
qed

lemma posts_paste_blocking:
  "attempted url port (trace (snd (paste_blocking D rc code d w))) = attempted url port (trace w)"
  by (simp add: run_paste_blocking Let_def)

lemma send_blob_holds:
  assumes ok: "transport_ok L" and free: "transport_free L hc w code" and ne: "d \<noteq> []"
    and send: "send_blob L J hc code d w = (Inr True, w')"
  shows "transport_holds L hc w' code d"
proof -
  let ?D = "lib_dht L"
  have curl: "curl_ok (lib_http L)" using ok by (simp add: transport_ok_def http_ok_def)
  obtain r w1 where put: "http_put ?D (lib_http L) hc code (string_of_bytes d) w = (Inr r, w1)"
    using send by (auto simp: send_blob_def bindP_Inr_iff)
  have t: "http_tried ?D hc w1 code (string_of_bytes d)"
    and c: "r \<Longrightarrow> confirmed (http_url ?D hc code) (hc_port hc) (trace w1) \<noteq> []"
    using http_put_tried [OF _ put] free by (auto simp: transport_free_def)
  have port: "port_code (lib_http L) hc \<noteq> Curl_Runtime_Error" "r \<Longrightarrow> port_code (lib_http L) hc = Curl_Ok"
    using http_put_port [OF curl put] by auto
  show ?thesis
  proof (cases r)
    case True
    then have "w' = w1"
      using put send by (simp add: send_blob_def run_bind_Inr run_return)
    with True t c ne port show ?thesis by (simp add: transport_holds_def http_holds_def)
  next
    case False
    then have p: "paste_blocking ?D (junk_race J) code d w1 = (Inr True, w')"
      using put send by (simp add: send_blob_def run_bind_Inr)
    have "node_free ?D w1 code"
      using put free by (auto simp: run_http_put Let_def transport_free_def node_free_def split: curl_code.splits)
    then have "node_holds ?D w' code d" using p by (rule node_put_holds)
    moreover have "http_tried ?D hc w' code (string_of_bytes d)"
      using t posts_paste_blocking [of _ _ ?D "junk_race J" code d w1] by (simp add: http_tried_def p)
    ultimately show ?thesis using ne port by (simp add: transport_holds_def)
  qed
qed

lemma fetch_blob_holds:
  assumes ok: "transport_ok L" and holds: "transport_holds L hc w code d"
  shows "\<exists>w'. fetch_blob L hc code w = (Inr d, w') \<and> transport_holds L hc w' code d"
proof -
  let ?D = "lib_dht L" and ?u = "http_url (lib_dht L) hc code"
  have h: "d \<noteq> []" "http_tried ?D hc w code (string_of_bytes d)" "http_ok (lib_http L)" "dht_ok ?D"
    "port_code (lib_http L) hc \<noteq> Curl_Runtime_Error"
    using ok holds by (simp_all add: transport_holds_def transport_ok_def)
  obtain s w1 where get: "http_get ?D (lib_http L) hc code w = (Inr s, w1)"
    and s: "s = [] \<or> s = string_of_bytes d"
      "confirmed ?u (hc_port hc) (trace w) \<noteq> [] \<and> port_code (lib_http L) hc = Curl_Ok \<longrightarrow> s = string_of_bytes d"
    using http_get_tried [OF h(3,5,2)] by (cases "http_get ?D (lib_http L) hc code w") auto
  have w1: "w1 \<in> get_traces ?D hc code w"
    using http_get_trace [of ?D "lib_http L" hc code w] get by simp
  have keep: "transport_holds L hc w1 code d"
    using holds w1 by (auto simp: transport_holds_def http_tried_def http_holds_def node_holds_def get_traces_def)
  show ?thesis
  proof (cases "s = []")
    case False
    then have "fetch_blob L hc code w = (Inr d, w1)"
      using get s h(1) by (auto simp: fetch_blob_def run_bind_Inr run_return)
    with keep show ?thesis by blast
  next
    case True
    then have "node_holds ?D w code d"
      using holds s(2) h(1) by (auto simp: transport_holds_def http_holds_def)
    moreover have "dht_stored h ut (trace w1) = dht_stored h ut (trace w)" for h ut
      using w1 by (auto simp: get_traces_def)
    ultimately have held: "node_holds ?D w1 code d" by (simp add: node_holds_def)
    obtain n where n: "map val_data (dht_get ?D (trace w1) (infohash_get ?D code) DPASTE_USER_TYPE) =
        d # replicate n d"
      using blobs_held [OF h(4) held] by (rule exE)
    let ?w2 = "record_event (Dht_Get (infohash_get ?D code) DPASTE_USER_TYPE) w1"
    have "fetch_blob L hc code w = (Inr d, ?w2)"
      using get True n by (simp add: fetch_blob_def run_bind_Inr run_return run_get_blobs)
    moreover have "transport_holds L hc ?w2 code d"
      using keep by (auto simp: transport_holds_def http_tried_def http_holds_def node_holds_def)
    ultimately show ?thesis by blast
  qed
qed

interpretation transport: blob_store
  "\<lambda>(L, J, hc). send_blob L J hc"
  "\<lambda>(L, J, hc). fetch_first L hc"
  "\<lambda>(L, J, hc). transport_ok L"
  "\<lambda>(L, J, hc). transport_free L hc"
  "\<lambda>(L, J, hc). transport_holds L hc"
proof (unfold_locales, goal_cases)
  case (1 e w code d w')
  then show ?case by (cases e) (auto intro: send_blob_holds)
next
  case (2 e w code d)
  obtain L J hc where e: "e = (L, J, hc)" by (cases e)
  with 2 obtain w' where "fetch_blob L hc code w = (Inr d, w')" "transport_holds L hc w' code d"
    using fetch_blob_holds [of L hc w code d] by auto
  moreover have "d \<noteq> []" using 2 e by (simp add: transport_holds_def)
  ultimately show ?case using e by (simp add: fetch_first_def run_bind_Inr run_return)
qed

text \<open>
  The events of a send and of a fetch. \<open>put_setup\<close> and \<open>get_setup\<close> say what the settings of the request
  come to.
\<close>

definition put_setup :: "libs \<Rightarrow> http_client \<Rightarrow> string \<Rightarrow> bytes \<Rightarrow> world \<Rightarrow> curl_code" where
  "put_setup L hc code d w = request_setup (lib_http L) (trace w)
     (put_request (http_url (lib_dht L) hc code) (hc_port hc) (string_of_bytes d))"

definition get_setup :: "libs \<Rightarrow> http_client \<Rightarrow> string \<Rightarrow> world \<Rightarrow> curl_code" where
  "get_setup L hc code w = request_setup (lib_http L) (trace w)
     (get_request (http_url (lib_dht L) hc code) (hc_port hc))"

lemma transport_events:
  "\<exists>out ok out'.
     send_blob L J hc code d w =
       (let url = http_url (lib_dht L) hc code; made = put_setup L hc code d w;
            served = (made = Curl_Ok \<and> (\<exists>b. out = Http_Response 200 b)) in
        if made = Curl_Runtime_Error then (Inl Curlpp_Runtime_Error, w)
        else
        (Inr (served \<or> blocking_result (race_done (junk_race J)) (race_early (junk_race J)) ok),
         fold record_event
           ((if made = Curl_Ok then [Http_Perform (put_request url (hc_port hc) (string_of_bytes d)) out] else []) @
            (if served then []
             else Dht_Put (infohash_get (lib_dht L) code) (paste_value d) ok #
                  (if ok then [] else [Stderr (OPERATION_FAILURE_MSG @ '' (put)'' @ [CHR 0x0A])]))) w)) \<and>
     snd (fetch_blob L hc code w) =
       fold record_event
         ((if get_setup L hc code w = Curl_Ok
           then [Http_Perform (get_request (http_url (lib_dht L) hc code) (hc_port hc)) out'] else []) @
          (if fst (http_get (lib_dht L) (lib_http L) hc code w) = Inr []
           then [Dht_Get (infohash_get (lib_dht L) code) DPASTE_USER_TYPE] else [])) w"
proof -
  let ?D = "lib_dht L" and ?H = "lib_http L"
  let ?u = "http_url ?D hc code" and ?made = "put_setup L hc code d w"
  let ?put = "put_request ?u (hc_port hc) (string_of_bytes d)"
  let ?out = "http_perform ?H (trace w) ?put"
  let ?es = "if ?made = Curl_Ok then [Http_Perform ?put ?out] else []"
  let ?w1 = "fold record_event ?es w"
  let ?ok = "dht_put ?D (trace ?w1) (infohash_get ?D code) (paste_value d)"
  let ?out' = "http_perform ?H (trace w) (get_request ?u (hc_port hc))"
  have put: "http_put ?D ?H hc code (string_of_bytes d) w =
      (if ?made = Curl_Runtime_Error then (Inl Curlpp_Runtime_Error, w)
       else (Inr (?made = Curl_Ok \<and> (\<exists>b. ?out = Http_Response 200 b)), ?w1))"
    by (auto simp: run_http_put Let_def put_setup_def split: curl_code.split http_outcome.split)
  have send: "send_blob L J hc code d w =
       (let served = (?made = Curl_Ok \<and> (\<exists>b. ?out = Http_Response 200 b)) in
        if ?made = Curl_Runtime_Error then (Inl Curlpp_Runtime_Error, w)
        else
        (Inr (served \<or> blocking_result (race_done (junk_race J)) (race_early (junk_race J)) ?ok),
         fold record_event
           (?es @
            (if served then []
             else Dht_Put (infohash_get ?D code) (paste_value d) ?ok #
                  (if ?ok then [] else [Stderr (OPERATION_FAILURE_MSG @ '' (put)'' @ [CHR 0x0A])]))) w))"
  proof (cases "?made = Curl_Runtime_Error")
    case True
    with put show ?thesis by (simp add: send_blob_def run_bind_Inl)
  next
    case False
    then have p: "http_put ?D ?H hc code (string_of_bytes d) w =
        (Inr (?made = Curl_Ok \<and> (\<exists>b. ?out = Http_Response 200 b)), ?w1)"
      using put by simp
    show ?thesis
      unfolding send_blob_def run_bind_Inr [where m = "http_put ?D ?H hc code (string_of_bytes d)", OF p]
      using False
      by (cases "?made = Curl_Ok \<and> (\<exists>b. ?out = Http_Response 200 b)")
        (simp_all add: run_return run_paste_blocking Let_def)
  qed
  let ?fs = "if get_setup L hc code w = Curl_Ok then [Http_Perform (get_request ?u (hc_port hc)) ?out'] else []"
  obtain r where g: "http_get ?D ?H hc code w = (r, fold record_event ?fs w)"
    by (cases "get_setup L hc code w") (simp_all add: run_http_get Let_def get_setup_def)
  then have f: "snd (fetch_blob L hc code w) =
       fold record_event (?fs @ (if r = Inr [] then [Dht_Get (infohash_get ?D code) DPASTE_USER_TYPE] else [])) w"
    by (cases r) (auto simp: fetch_blob_def run_bind_Inl run_bind_Inr run_return run_get_blobs Let_def)
  show ?thesis
    by (rule exI [of _ ?out], rule exI [of _ ?ok], rule exI [of _ ?out'], rule conjI)
      (use send in \<open>simp only: Let_def\<close>, use f g in \<open>simp only: fst_conv\<close>)
qed

lemma trace_fold_record [simp]: "trace (fold record_event es w) = trace w @ es"
  by (induction es arbitrary: w) simp_all

text \<open>The events a send may leave, and that it returns when libcurl does not refuse the port.\<close>

definition send_event :: "libs \<Rightarrow> http_client \<Rightarrow> string \<Rightarrow> bytes \<Rightarrow> event \<Rightarrow> bool" where
  "send_event L hc code d e \<longleftrightarrow> (case e of
      Http_Perform req out \<Rightarrow> req = put_request (http_url (lib_dht L) hc code) (hc_port hc) (string_of_bytes d)
    | Dht_Put h v ok \<Rightarrow> h = infohash_get (lib_dht L) code \<and> v = paste_value d
    | Stderr msg \<Rightarrow> True
    | _ \<Rightarrow> False)"

lemma send_blob_log:
  assumes "send_blob L J hc code d w = (r, w')"
  shows "\<exists>es. trace w' = trace w @ es \<and> list_all (send_event L hc code d) es"
  using transport_events [of L J hc code d w]
proof (elim exE conjE, goal_cases)
  case (1 out ok out')
  show ?case
    using 1(1) assms by (auto simp: Let_def send_event_def split: if_splits simp del: fold_simps)
qed

lemma send_blob_returns:
  assumes "curl_ok (lib_http L)" and "port_code (lib_http L) hc \<noteq> Curl_Runtime_Error"
  shows "\<exists>ok w'. send_blob L J hc code d w = (Inr ok, w')"
proof -
  have "put_setup L hc code d w \<noteq> Curl_Runtime_Error"
    using assms by (simp add: put_setup_def request_setup_port)
  then show ?thesis
    using transport_events [of L J hc code d w] by (auto simp: Let_def simp del: fold_simps)
qed

section \<open>Running prepare_data\<close>

lemma messages_prepare_tail [messages_intros]:
  "only_messages (sign_with G c data)" "only_messages (check_signature G sg data)"
  by (auto simp: sign_with_def check_signature_def intro!: messages_intros
      split: cipher.split option.split list.split)

text \<open>Messages store nothing.\<close>

lemma messages_no_store: "list_all is_message tr \<Longrightarrow> list_all no_store tr"
  by (induction tr) (auto simp: is_message_def no_store_def split: event.splits)

lemma read_params_frame:
  assumes "read_params L J b params w = (r, w')"
  shows "trace w' = trace w"
  using assms
  by (auto simp: read_params_def bindP_def liftP_def returnP_def run_random_pin
      split: option.splits sum.splits)

lemma prepare_data_frame:
  assumes "prepare_data L J b data params w = (r, w')"
  shows "\<exists>tr. list_all is_message tr \<and> trace w' = trace w @ tr"
proof -
  obtain q w1 where rp: "read_params L J b params w = (q, w1)"
    by (cases "read_params L J b params w")
  have t: "trace w1 = trace w" using rp by (rule read_params_frame)
  show ?thesis
  proof (cases q)
    case (Inl e)
    with rp assms t show ?thesis by (auto simp: prepare_data_def run_bind_Inl)
  next
    case (Inr x)
    obtain to_sign scheme ip sp pwd where x: "x = (to_sign, scheme, ip, sp, pwd)"
      by (cases x)
    let ?rest = "bindP (cipher_get_by_scheme (lib_gpgme L) scheme ip) (\<lambda>cipher.
      case cipher of
        None \<Rightarrow> returnP (\<lparr>pk_data = data, pk_signature = []\<rparr>, pwd)
      | Some c \<Rightarrow>
         bindP (processPlainText (lib_aes L) (lib_gpgme L) c data sp) (\<lambda>cipher_text.
         if cipher_text = [] then
           if to_sign then
             thenP (DPASTE_MSG ''Signing data...'' [])
               (bindP (sign_with (lib_gpgme L) c data) (\<lambda>signature.
                returnP (\<lparr>pk_data = data, pk_signature = signature\<rparr>, pwd)))
           else returnP (\<lparr>pk_data = data, pk_signature = []\<rparr>, pwd)
         else returnP (\<lparr>pk_data = cipher_text, pk_signature = []\<rparr>, pwd)))"
    have m: "only_messages ?rest"
      by (auto intro!: messages_intros split: option.split)
    have e: "?rest w1 = (r, w')"
      using assms rp Inr x by (simp add: prepare_data_def run_bind_Inr)
    from only_messagesD [OF m e] t show ?thesis by simp
  qed
qed

lemma run_prepare_aes:
  "prepare_data L J b data (Some (AES_Params ap)) w =
     (let pwd = pin_text (process_pin (lib_rng L) w);
          w1 = record_event (msg_event ''Encrypting (aes-gcm) data...'') (after_pin (lib_rng L) w);
          ct = aesEncrypt (lib_aes L) (trace w1) data pwd
      in (Inr (\<lparr>pk_data = if ct = [] then data else ct, pk_signature = []\<rparr>, pwd), w1))"
  by (simp add: prepare_data_def read_params_def run_bind_Inr run_random_pin run_return
      cipher_get_by_scheme_def run_aes_encrypt Let_def)

lemma run_prepare_none:
  assumes "junk_scheme J \<noteq> 2" and "gm_create (lib_gpgme L) (trace w)"
  shows "prepare_data L J b data None w = (Inr (\<lparr>pk_data = data, pk_signature = []\<rparr>, []), w)"
  using assms
  by (simp add: prepare_data_def read_params_def run_bind_Inr run_return
      cipher_get_by_scheme_def gpg_new_empty gpg_processPlainText_def)

lemma run_prepare_none_aes:
  assumes "junk_scheme J = 2"
  shows "prepare_data L J b data None w =
     (let w1 = record_event (msg_event ''Encrypting (aes-gcm) data...'') w;
          ct = aesEncrypt (lib_aes L) (trace w1) data []
      in (Inr (\<lparr>pk_data = if ct = [] then data else ct, pk_signature = []\<rparr>, []), w1))"
  using assms
  by (simp add: prepare_data_def read_params_def run_bind_Inr run_return
      cipher_get_by_scheme_def run_aes_encrypt Let_def)

text \<open>With recipients, the packet is the cipher text and has no signature.\<close>

lemma prepare_data_gpg:
  assumes "reads_ok (lib_gpgme L)" and "adds_keys (lib_gpgme L)" and "gp_recipients gp \<noteq> []"
    and "prepare_data L J b data (Some (GPG_Params gp)) w = (Inr (p, pwd), w')"
  shows "\<exists>g v ct v'. gpg_wf g \<and>
     gpg_processPlainText (lib_gpgme L) g data (Some (GPG_Params gp)) v = (Inr ct, v') \<and>
     ct \<noteq> [] \<and> p = \<lparr>pk_data = ct, pk_signature = []\<rparr> \<and> pwd = []"
proof -
  have "\<exists>keyid g v v1 ct. gpg_new (lib_gpgme L) keyid w = (Inr g, v) \<and>
      gpg_processPlainText (lib_gpgme L) g data (Some (GPG_Params gp)) v = (Inr ct, v1) \<and>
      (ct \<noteq> [] \<longrightarrow> p = \<lparr>pk_data = ct, pk_signature = []\<rparr> \<and> pwd = [])"
    using assms(4)
    by (auto simp: prepare_data_def read_params_def bindP_Inr_iff cipher_get_by_scheme_def
        gpg_parameters_key_def liftP_def returnP_def split: if_splits; blast)
  then obtain keyid g v v1 ct where g: "gpg_new (lib_gpgme L) keyid w = (Inr g, v)"
    and e: "gpg_processPlainText (lib_gpgme L) g data (Some (GPG_Params gp)) v = (Inr ct, v1)"
    and p: "ct \<noteq> [] \<longrightarrow> p = \<lparr>pk_data = ct, pk_signature = []\<rparr> \<and> pwd = []"
    by blast
  have wf: "gpg_wf g" using gpg_new_wf [OF assms(2) g] by blast
  then have "ct \<noteq> []" using processPlainText_not_empty [OF assms(1) wf assms(3) e] by auto
  with wf e p show ?thesis by blast
qed

section \<open>Running paste and get\<close>

lemma bin_paste_Inr:
  assumes "bin_paste L J b data params w = (Inr uri, w')" and "uri \<noteq> []"
  shows "\<exists>p pwd w1. prepare_data L J b data params (after_pin (lib_rng L) w) = (Inr (p, pwd), w1) \<and>
     send_blob L J (bin_http b) (pin_text (process_pin (lib_rng L) w)) (serialize (lib_msgpack L) p)
       (after_msg ''Pasting data...'' [] w1) = (Inr True, w') \<and>
     uri = DPASTE_URI_PREFIX @ pin_text (process_pin (lib_rng L) w) @ pwd"
  using assms
  by (auto simp: bin_paste_def bindP_Inr_iff run_random_pin run_then_Inr run_msg returnP_def Let_def
      split: if_splits)

lemma run_bin_get:
  assumes "code_from_dpaste_uri uri = Some code" and "length code \<ge> 8"
    and "fetch_blob L (bin_http b) (take 8 code) w = (Inr data, w1)" and "data \<noteq> []"
  shows "bin_get L J b uri nd w =
     catchP (bindP (open_packet L J data code (drop 8 code) nd) (\<lambda>data. returnP (True, string_of_bytes data)))
       (get_handler L data) w1"
  using assms
  by (simp add: bin_get_def run_bind_Inr run_lift or_out_of_range_def substr_def substr_from_def
      CODE_PASS_OFFSET_def)

text \<open>What was pasted under a URI is what \<open>get\<close> of the URI opens, in any later process.\<close>

lemma code_from_pasted:
  "code_from_dpaste_uri (DPASTE_URI_PREFIX @ code) = Some code"
  using str_find_prefix [of DPASTE_URI_PREFIX code]
  by (simp add: code_from_dpaste_uri_def substr_from_def)

lemma paste_then_get:
  assumes ok: "transport_ok L" "msgpack_ok (lib_msgpack L)"
    and free: "transport_free L (bin_http b) w (pin_text (process_pin (lib_rng L) w))"
    and paste: "bin_paste L J b data params w = (Inr uri, w')" "uri \<noteq> []"
    and later: "trace w2 = trace w' @ es" "list_all (spares L (bin_http b) (pin_text (process_pin (lib_rng L) w))) es"
      "bin_http b' = bin_http b"
  shows "\<exists>p pwd w1 w3. prepare_data L J b data params (after_pin (lib_rng L) w) = (Inr (p, pwd), w1) \<and>
     bin_get L J' b' uri nd w2 =
       catchP (bindP (open_packet L J' (serialize (lib_msgpack L) p)
                   (pin_text (process_pin (lib_rng L) w) @ pwd) pwd nd)
                 (\<lambda>data. returnP (True, string_of_bytes data)))
         (get_handler L (serialize (lib_msgpack L) p)) w3"
proof -
  let ?pin = "pin_text (process_pin (lib_rng L) w)"
  obtain p pwd w1 where p: "prepare_data L J b data params (after_pin (lib_rng L) w) = (Inr (p, pwd), w1)"
    and send: "send_blob L J (bin_http b) ?pin (serialize (lib_msgpack L) p)
       (after_msg ''Pasting data...'' [] w1) = (Inr True, w')"
    and uri: "uri = DPASTE_URI_PREFIX @ ?pin @ pwd"
    using bin_paste_Inr [OF paste] by blast
  let ?w1 = "after_msg ''Pasting data...'' [] w1"
  obtain tr where tr: "list_all is_message tr" "trace w1 = trace w @ tr"
    using prepare_data_frame [OF p] by auto
  have "DPASTE_MSG ''Pasting data...'' [] w1 = (Inr (), ?w1)" by (rule run_msg)
  then obtain tr' where tr': "list_all is_message tr'" "trace ?w1 = trace w1 @ tr'"
    using only_messagesD [OF messages_msg] by blast
  have "transport_free L (bin_http b) ?w1 ?pin"
    using free transport_cong(1) [OF tr(2) messages_no_store [OF tr(1)]]
      transport_cong(1) [OF tr'(2) messages_no_store [OF tr'(1)]]
      transport_cong(1) [of "after_pin (lib_rng L) w" w "[]"] by simp
  moreover have ne: "serialize (lib_msgpack L) p \<noteq> []" using ok(2) by (rule serialize_not_Nil)
  ultimately have "transport_holds L (bin_http b) w' ?pin (serialize (lib_msgpack L) p)"
    using transport.put_holds [of "(L, J, bin_http b)" ?w1 ?pin] ok(1) send by simp
  then have "transport_holds L (bin_http b') w2 ?pin (serialize (lib_msgpack L) p)"
    using transport_spared(2) [OF later(1,2)] later(3) by simp
  then obtain w3 where "fetch_blob L (bin_http b') ?pin w2 = (Inr (serialize (lib_msgpack L) p), w3)"
    using fetch_blob_holds [OF ok(1)] by blast
  then have "bin_get L J' b' uri nd w2 =
       catchP (bindP (open_packet L J' (serialize (lib_msgpack L) p) (?pin @ pwd) pwd nd)
                 (\<lambda>data. returnP (True, string_of_bytes data)))
         (get_handler L (serialize (lib_msgpack L) p)) w3"
    using run_bin_get [OF code_from_pasted, of "?pin @ pwd" L b' w2] uri ne by simp
  with p show ?thesis by blast
qed

section \<open>Opening a packet\<close>

lemma deserialize_serialize:
  "\<lbrakk>msgpack_ok M; packet_fits p\<rbrakk> \<Longrightarrow> deserialize M (serialize M p) = Inr p"
  by (rule packet.of_bytes_to_bytes)

text \<open>Once the packet is read, an unsigned packet is opened by its cipher alone.\<close>

lemma open_packet_unsigned:
  assumes "deserialize (lib_msgpack L) buf = Inr p" and "pk_signature p = []"
    and "cipher_get_by_text (lib_gpgme L) (pk_data p) code w = (Inr c, w)"
  shows "open_packet L J buf code pwd nd w =
     (case c of
        Some c \<Rightarrow>
          if nd then (Inr (pk_data p), w)
          else processCipherText (lib_aes L) (lib_gpgme L) (junk_flags_of J) c (pk_data p)
                 (case c of AES_Cipher \<Rightarrow> Some (AES_Params (aes_parameters pwd)) | GPG_Cipher _ \<Rightarrow> None) w
      | None \<Rightarrow> (Inr (pk_data p), w))"
proof -
  have r: "bindP m returnP = m" for m :: "bytes proc" by (rule bindP_return)
  have t: "thenP (returnP ()) n = n" for n :: "bytes proc"
    by (rule ext) (simp add: thenP_def bindP_def returnP_def)
  show ?thesis
    using assms by (simp add: open_packet_def run_bind_Inr run_lift run_return r t split: option.split)
qed

lemma open_packet_plain:
  assumes "deserialize (lib_msgpack L) buf = Inr p"
    and "pk_signature p = []" and "\<not> isGPGencrypted (lib_gpgme L) (pk_data p)" and "length code \<noteq> 16"
  shows "open_packet L J buf code pwd nd w = (Inr (pk_data p), w)"
  using open_packet_unsigned [OF assms(1,2) get_by_text_plain [OF assms(3,4)]] by simp

lemma open_packet_aes:
  assumes "deserialize (lib_msgpack L) buf = Inr p"
    and "pk_signature p = []" and "\<not> isGPGencrypted (lib_gpgme L) (pk_data p)" and "length code = 16"
  shows "open_packet L J buf code pwd nd w =
     (if nd then (Inr (pk_data p), w)
      else aes_processCipherText (lib_aes L) (pk_data p) (Some (AES_Params (aes_parameters pwd))) w)"
  using open_packet_unsigned [OF assms(1,2) get_by_text_aes [OF assms(3,4)]] by simp

lemma open_packet_gpg:
  assumes "deserialize (lib_msgpack L) buf = Inr p"
    and "pk_signature p = []" and "isGPGencrypted (lib_gpgme L) (pk_data p)"
    and "gm_create (lib_gpgme L) (trace w)"
  shows "open_packet L J buf code pwd nd w =
     (if nd then (Inr (pk_data p), w)
      else gpg_processCipherText (lib_gpgme L) (junk_flags_of J) fresh_gpg (pk_data p) None w)"
  using open_packet_unsigned [OF assms(1,2) get_by_text_gpg [OF assms(3,4)]] by simp

lemmas open_packet_simps = open_packet_plain open_packet_aes open_packet_gpg

text \<open>Without a cipher, the data is what is returned; a signature only counts when its verification fails as a call.\<close>

lemma open_packet_signed:
  assumes "deserialize (lib_msgpack L) buf = Inr p" and "\<And>tr. gm_create (lib_gpgme L) tr"
    and "\<not> isGPGencrypted (lib_gpgme L) (pk_data p)" and "length code \<noteq> 16"
  shows "fst (open_packet L J buf code pwd nd w) =
     (case gm_verify_opaque (lib_gpgme L) (pk_signature p) (pk_data p) of (err, sigs) \<Rightarrow>
        if pk_signature p \<noteq> [] \<and> err_raised err then Inl (Gpg_Exception err []) else Inr (pk_data p))"
proof (cases "pk_signature p = []")
  case True
  then show ?thesis
    using open_packet_plain [OF assms(1) True assms(3,4)] by (simp split: prod.split)
next
  case False
  let ?G = "lib_gpgme L"
  obtain err sigs where v: "gm_verify_opaque ?G (pk_signature p) (pk_data p) = (err, sigs)"
    by (cases "gm_verify_opaque ?G (pk_signature p) (pk_data p)")
  have c: "\<exists>w'. comment_on_signature ?G s v = (Inr (), w')" for s v
    using comment_on_signature_Inr by blast
  have "fst (check_signature ?G (pk_signature p) (pk_data p) w) =
      (if err_raised err then Inl (Gpg_Exception err []) else Inr ())"
    using c [of "hd sigs" "after_msg ''Data is GPG signed. Verifying...'' [] w"]
    by (cases sigs) (auto simp: check_signature_def cipher_get_by_scheme_def gpg_new_empty assms(2)
        run_bind_Inr run_bind_Inl run_return run_then_Inr run_msg verify_def v run_throw)
  then have "fst (thenP (check_signature ?G (pk_signature p) (pk_data p)) (returnP (pk_data p)) w) =
      (if err_raised err then Inl (Gpg_Exception err []) else Inr (pk_data p))"
    by (cases "check_signature ?G (pk_signature p) (pk_data p) w")
      (auto simp: thenP_def bindP_def returnP_def split: if_splits)
  then show ?thesis
    using False by (simp add: open_packet_def run_bind_Inr run_lift assms(1) get_by_text_plain [OF assms(3,4)]
        run_return v)
qed

text \<open>The \<open>try\<close> block on each result of \<open>open_packet\<close>.\<close>

lemma run_get_try:
  "fst (catchP (bindP m (\<lambda>data. returnP (True, string_of_bytes data))) (get_handler L raw) w) =
     (case fst (m w) of
        Inr data \<Rightarrow> Inr (True, string_of_bytes data)
      | Inl e \<Rightarrow>
          (case e of
             Gpg_Exception err msg \<Rightarrow> Inr (False, [])
           | Decrypt_Error msg \<Rightarrow> Inr (False, [])
           | Msgpack_Type_Error \<Rightarrow> Inr (True, string_of_bytes raw)
           | _ \<Rightarrow> Inl e))"
  by (cases "m w") (auto simp: catchP_def bindP_def returnP_def get_handler_def run_then_Inr run_msg
      split: sum.split exn.split)

section \<open>AES paste, then get\<close>

lemma aes_get_pasted:
  assumes ok: "transport_ok L" "msgpack_ok (lib_msgpack L)" "aes_lib_ok (lib_aes L)"
    and ct: "\<And>tr v. length (aesEncrypt (lib_aes L) tr data (pin_text v)) < 2 ^ 32 \<and>
               \<not> isGPGencrypted (lib_gpgme L) (aesEncrypt (lib_aes L) tr data (pin_text v))"
    and free: "transport_free L (bin_http b) w (pin_text (process_pin (lib_rng L) w))"
    and paste: "bin_paste L J b data (Some (AES_Params ap)) w = (Inr uri, w')" "uri \<noteq> []"
    and later: "trace w2 = trace w' @ es" "list_all (spares L (bin_http b) (pin_text (process_pin (lib_rng L) w))) es"
      "bin_http b' = bin_http b"
  shows "fst (bin_get L J' b' uri False w2) = Inr (True, string_of_bytes data)"
proof -
  obtain p pwd w1 w3 where
    prep: "prepare_data L J b data (Some (AES_Params ap)) (after_pin (lib_rng L) w) = (Inr (p, pwd), w1)"
    and get: "bin_get L J' b' uri False w2 =
       catchP (bindP (open_packet L J' (serialize (lib_msgpack L) p)
                   (pin_text (process_pin (lib_rng L) w) @ pwd) pwd False)
                 (\<lambda>data. returnP (True, string_of_bytes data)))
         (get_handler L (serialize (lib_msgpack L) p)) w3"
    using paste_then_get [OF ok(1,2) free paste later] by blast
  obtain tr v where p: "p = \<lparr>pk_data = aesEncrypt (lib_aes L) tr data pwd, pk_signature = []\<rparr>"
    and pwd: "pwd = pin_text v"
    using prep ok(3) by (auto simp: run_prepare_aes Let_def aes_lib_ok_def)
  have d: "deserialize (lib_msgpack L) (serialize (lib_msgpack L) p) = Inr p"
    using ct [of tr v] by (intro deserialize_serialize ok(2)) (simp add: p pwd packet_fits_def)
  have "open_packet L J' (serialize (lib_msgpack L) p) (pin_text (process_pin (lib_rng L) w) @ pwd) pwd False w3 =
      aes_processCipherText (lib_aes L) (pk_data p) (Some (AES_Params (aes_parameters pwd))) w3"
    using open_packet_aes [OF d] ct [of tr v] by (simp add: p pwd)
  then show ?thesis
    using ok(3) by (simp add: get run_get_try run_aes_decrypt p aes_lib_ok_def aes_parameters_def)
qed

text \<open>The same for a paste without parameters, whose scheme does not happen to be AES.\<close>

lemma plain_get_pasted:
  assumes ok: "transport_ok L" "msgpack_ok (lib_msgpack L)" "\<And>tr. gm_create (lib_gpgme L) tr"
    and junk: "junk_scheme J \<noteq> scheme_value AES"
    and data: "length data < 2 ^ 32" "\<not> isGPGencrypted (lib_gpgme L) data"
    and free: "transport_free L (bin_http b) w (pin_text (process_pin (lib_rng L) w))"
    and paste: "bin_paste L J b data None w = (Inr uri, w')" "uri \<noteq> []"
    and later: "trace w2 = trace w' @ es" "list_all (spares L (bin_http b) (pin_text (process_pin (lib_rng L) w))) es"
      "bin_http b' = bin_http b"
  shows "fst (bin_get L J' b' uri nd w2) = Inr (True, string_of_bytes data)"
proof -
  obtain p pwd w1 w3 where
    prep: "prepare_data L J b data None (after_pin (lib_rng L) w) = (Inr (p, pwd), w1)"
    and get: "bin_get L J' b' uri nd w2 =
       catchP (bindP (open_packet L J' (serialize (lib_msgpack L) p)
                   (pin_text (process_pin (lib_rng L) w) @ pwd) pwd nd)
                 (\<lambda>data. returnP (True, string_of_bytes data)))
         (get_handler L (serialize (lib_msgpack L) p)) w3"
    using paste_then_get [OF ok(1,2) free paste later] by blast
  have p: "p = \<lparr>pk_data = data, pk_signature = []\<rparr>" and pwd: "pwd = []"
    using prep run_prepare_none [OF _ ok(3)] junk by simp_all
  have d: "deserialize (lib_msgpack L) (serialize (lib_msgpack L) p) = Inr p"
    using data(1) by (intro deserialize_serialize ok(2)) (simp add: p packet_fits_def)
  have "open_packet L J' (serialize (lib_msgpack L) p) (pin_text (process_pin (lib_rng L) w) @ pwd) pwd nd w3 =
      (Inr data, w3)"
    using open_packet_plain [OF d] data(2) by (simp add: p pwd)
  then show ?thesis by (simp add: get run_get_try)
qed

text \<open>For GPG, whatever was pasted comes back with the NUL that \<open>GPG::encrypt\<close> appends.\<close>

lemma gpg_get_pasted:
  assumes ok: "transport_ok L" "msgpack_ok (lib_msgpack L)" "\<And>tr. gm_create (lib_gpgme L) tr"
      "gpgme_ok (lib_gpgme L, own)" "adds_keys (lib_gpgme L)"
    and own: "recipient_owned (lib_gpgme L, own) (Some (GPG_Params gp))"
    and ct: "\<And>g v ct v'. gpg_processPlainText (lib_gpgme L) g data (Some (GPG_Params gp)) v = (Inr ct, v') \<Longrightarrow>
               length ct < 2 ^ 32"
    and free: "transport_free L (bin_http b) w (pin_text (process_pin (lib_rng L) w))"
    and paste: "bin_paste L J b data (Some (GPG_Params gp)) w = (Inr uri, w')" "uri \<noteq> []"
    and later: "trace w2 = trace w' @ es" "list_all (spares L (bin_http b) (pin_text (process_pin (lib_rng L) w))) es"
      "bin_http b' = bin_http b"
  shows "fst (bin_get L J' b' uri False w2) = Inr (True, string_of_bytes (data @ [0]))"
proof -
  let ?G = "lib_gpgme L"
  obtain p pwd w1 w3 where
    prep: "prepare_data L J b data (Some (GPG_Params gp)) (after_pin (lib_rng L) w) = (Inr (p, pwd), w1)"
    and get: "bin_get L J' b' uri False w2 =
       catchP (bindP (open_packet L J' (serialize (lib_msgpack L) p)
                   (pin_text (process_pin (lib_rng L) w) @ pwd) pwd False)
                 (\<lambda>data. returnP (True, string_of_bytes data)))
         (get_handler L (serialize (lib_msgpack L) p)) w3"
    using paste_then_get [OF ok(1,2) free paste later] by blast
  have r: "reads_ok ?G" using ok(4) by (simp add: gpgme_ok_def)
  have rs: "gp_recipients gp \<noteq> []" using own by (auto simp: recipient_owned_def)
  obtain g v ct v' where enc: "gpg_processPlainText ?G g data (Some (GPG_Params gp)) v = (Inr ct, v')"
    and ne: "ct \<noteq> []" and p: "p = \<lparr>pk_data = ct, pk_signature = []\<rparr>"
    using prepare_data_gpg [OF r ok(5) rs prep] by blast
  obtain c where c: "ct = c @ [0]" "decrypts ?G c (data @ [0])"
    using processPlainText_decrypts [OF ok(4) own enc ne] by blast
  have d: "deserialize (lib_msgpack L) (serialize (lib_msgpack L) p) = Inr p"
    using ct [OF enc] by (intro deserialize_serialize ok(2)) (simp add: p packet_fits_def)
  have i: "isGPGencrypted ?G (pk_data p)"
    using c by (simp add: p decrypts_def isGPGencrypted_def)
  obtain w4 where "gpg_processCipherText ?G (junk_flags_of J') fresh_gpg (c @ [0]) None w3 = (Inr (data @ [0]), w4)"
    using processCipherText_decrypts [OF r _ c(2), of fresh_gpg] by (auto simp: fresh_gpg_def)
  then have "fst (open_packet L J' (serialize (lib_msgpack L) p) (pin_text (process_pin (lib_rng L) w) @ pwd) pwd False w3) =
      Inr (data @ [0])"
    using open_packet_gpg [OF d _ i ok(3)] c by (simp add: p)
  then show ?thesis by (simp add: get run_get_try)
qed

section \<open>Concrete libraries\<close>

text \<open>The libraries of the concrete instances, and two processes with different uninitialised values.\<close>

definition toy_libs :: "http_lib \<Rightarrow> libs" where
  "toy_libs H = \<lparr>lib_gpgme = toy_gpgme, lib_aes = toy_aes, lib_msgpack = ref_msgpack, lib_http = H,
     lib_dht = toy_dht, lib_rng = lcg_rng, lib_host = test_host, MAX_VALUE_SIZE = 65536\<rparr>"

definition junk_a :: junk where
  "junk_a = \<lparr>junk_scheme = 32764, junk_port = 0,
     junk_flags_of = \<lparr>junk_self_recipient = True, junk_sign = True\<rparr>,
     junk_race = \<lparr>race_done = True, race_early = False\<rparr>\<rparr>"

definition toy_bin :: bin where
  "toy_bin = \<lparr>bin_conf = [''host'' \<mapsto> ''127.0.0.1'', ''port'' \<mapsto> ''6509'', ''pgp_key_id'' \<mapsto> ''me''],
     bin_http = \<lparr>hc_host = ''127.0.0.1'', hc_port = 6509\<rparr>, bin_node = \<lparr>running = True\<rparr>\<rparr>"

lemma toy_libs_sel [simp]:
  "lib_gpgme (toy_libs H) = toy_gpgme" "lib_aes (toy_libs H) = toy_aes"
  "lib_msgpack (toy_libs H) = ref_msgpack" "lib_http (toy_libs H) = H" "lib_dht (toy_libs H) = toy_dht"
  "lib_rng (toy_libs H) = lcg_rng" "lib_host (toy_libs H) = test_host" "MAX_VALUE_SIZE (toy_libs H) = 65536"
  by (simp_all add: toy_libs_def)

lemma toy_bin_sel [simp]:
  "bin_http toy_bin = \<lparr>hc_host = ''127.0.0.1'', hc_port = 6509\<rparr>"
  "bin_conf toy_bin ''pgp_key_id'' = Some ''me''"
  by (simp_all add: toy_bin_def)

lemma toy_transport_ok: "transport_ok (toy_libs toy_http)" "transport_ok (toy_libs toy_http_down)"
  by (simp_all add: transport_ok_def toy_http_ok toy_http_down_ok toy_dht_ok)

lemma toy_msgpack_ok: "msgpack_ok (lib_msgpack (toy_libs H))"
  by (simp add: ref_msgpack_ok)

lemma toy_free: "transport_free L hc init_world code"
  by (simp add: transport_free_def http_free_def node_free_def init_world_def)

text \<open>With the first service every send succeeds over HTTP, with the second through the node.\<close>

lemma toy_port [simp]:
  "hc_port hc = 6509 \<Longrightarrow> port_code toy_http hc = Curl_Ok \<and> port_code toy_http_down hc = Curl_Ok"
  by (simp add: toy_port_code)

lemma toy_setup:
  fixes hc :: http_client
  assumes "hc_port hc = 6509"
  shows "request_setup toy_http tr (put_request url (hc_port hc) data) = Curl_Ok"
    and "request_setup toy_http_down tr (put_request url (hc_port hc) data) = Curl_Ok"
    and "request_setup toy_http tr (get_request url (hc_port hc)) = Curl_Ok"
  using toy_port [OF assms] by (simp_all only: request_setup_port [OF toy_curl_ok(1)] request_setup_port [OF toy_curl_ok(2)])

lemma toy_send:
  assumes "hc_port hc = 6509"
  shows "\<exists>w'. send_blob (toy_libs toy_http) J hc code d w = (Inr True, w')"
proof -
  obtain w' where "http_put toy_dht toy_http hc code (string_of_bytes d) w = (Inr True, w')"
    by (simp add: run_http_put Let_def toy_setup [OF assms]) (simp add: toy_http_def put_request_def)
  then show ?thesis by (simp add: send_blob_def run_bind_Inr run_return)
qed

lemma toy_send_down:
  assumes "hc_port hc = 6509"
  shows "\<exists>w'. send_blob (toy_libs toy_http_down) junk_a hc code d w = (Inr True, w')"
proof -
  obtain w1 where put: "http_put toy_dht toy_http_down hc code (string_of_bytes d) w = (Inr False, w1)"
    by (simp add: run_http_put Let_def toy_setup [OF assms]) (simp add: toy_http_down_def put_request_def)
  have "send_blob (toy_libs toy_http_down) junk_a hc code d w = paste_blocking toy_dht (junk_race junk_a) code d w1"
    by (simp add: send_blob_def run_bind_Inr [where m = "http_put toy_dht toy_http_down hc code (string_of_bytes d)", OF put])
  then show ?thesis
    by (simp add: run_paste_blocking Let_def blocking_result_def junk_a_def) (simp add: toy_dht_def)
qed

lemma toy_bin_port: "hc_port (bin_http toy_bin) = 6509"
  by simp

lemmas toy_bin_send = toy_send [OF toy_bin_port] toy_send_down [OF toy_bin_port]

lemma bin_paste_succeeds:
  assumes "prepare_data L J b data params (after_pin (lib_rng L) w) = (Inr (p, pwd), w1)"
    and "\<And>code d w. \<exists>w'. send_blob L J (bin_http b) code d w = (Inr True, w')"
  shows "\<exists>w'. bin_paste L J b data params w =
     (Inr (DPASTE_URI_PREFIX @ pin_text (process_pin (lib_rng L) w) @ pwd), w')"
proof -
  obtain w' where "send_blob L J (bin_http b) (pin_text (process_pin (lib_rng L) w))
      (serialize (lib_msgpack L) p) (after_msg ''Pasting data...'' [] w1) = (Inr True, w')"
    using assms(2) by blast
  with assms(1) show ?thesis
    by (simp add: bin_paste_def run_bind_Inr run_random_pin run_then_Inr run_msg run_return Let_def)
qed

lemma toy_pin_not_pgp: "take 4 (bytes_of_string (pin_text v) @ ct) \<noteq> PGP_MARK"
proof
  assume a: "take 4 (bytes_of_string (pin_text v) @ ct) = PGP_MARK"
  obtain c s where c: "pin_text v = c # s"
    using length_pin_text [of v] by (cases "pin_text v") auto
  have "byte_of_char c = 80"
    using a unfolding c by (simp add: bytes_of_string_def PGP_MARK_def)
  then have "c = char_of_byte 80" by (metis char_of_byte_of_char)
  then have "c = CHR ''P''" by (simp add: char_of_byte_def char_of_def bit_0)
  moreover have "is_pin_char c" using pin_text_chars [of v] c by simp
  ultimately show False by (simp add: is_pin_char_def)
qed

lemma toy_ciphertext:
  assumes "length data < 1000"
  shows "length (aesEncrypt toy_aes tr data (pin_text v)) < 2 ^ 32 \<and>
     \<not> isGPGencrypted toy_gpgme (aesEncrypt toy_aes tr data (pin_text v))"
  using assms toy_pin_not_pgp [of v "1 # data"] by (simp add: toy_aes_def isGPGencrypted_def)

lemma toy_gpg_length:
  assumes "gpg_processPlainText toy_gpgme g pt (Some (GPG_Params gp)) w = (Inr ct, w')"
  shows "length ct \<le> length pt + 6"
proof (cases "ct = []")
  case False
  then obtain rs s enc sig w1 w2 where e: "encrypt toy_gpgme g rs pt s w1 = (Inr (ct, enc, sig), w2)"
    using assms
    by (auto simp: gpg_processPlainText_def bindP_def thenP_def returnP_def liftP_def Let_def run_msg
        split: prod.splits sum.splits if_splits)
  have "ct = PGP_MARK @ (pt @ [0]) @ [0]"
    using encrypt_Inr [OF e] False by (auto split: if_splits)
  then show ?thesis by (simp add: PGP_MARK_def)
qed simp

text \<open>Preparing for the recipient \<open>me\<close>, whose key is also the configured one.\<close>

lemma toy_prepare_gpg:
  "\<exists>w1. prepare_data (toy_libs H) J toy_bin data (Some (GPG_Params (gpg_parameters_full [''me''] False sign))) w =
     (Inr (\<lparr>pk_data = PGP_MARK @ data @ [0, 0], pk_signature = []\<rparr>, []), w1)"
  by (simp add: prepare_data_def read_params_def proc_defs map_at_def cipher_get_by_scheme_def
      gpg_parameters_key_def gpg_parameters_full_def gpg_new_def getKey_def gpg_processPlainText_def
      encrypt_def run_msg PGP_MARK_def Let_def)

section \<open>Properties of the constructor\<close>






lemma extract_long_bounds:
  "LONG_MIN \<le> old \<Longrightarrow> old \<le> LONG_MAX \<Longrightarrow> LONG_MIN \<le> extract_long old s \<and> extract_long old s \<le> LONG_MAX"
  by (auto simp: extract_long_def Let_def LONG_MIN_def LONG_MAX_def split: list.split)

lemma bin_new_facts:
  assumes "LONG_MIN \<le> junk_port J" and "junk_port J \<le> LONG_MAX"
  shows "\<exists>b. bin_new L J w = (Inr b, fold record_event [Dht_Run 0, Dht_Bootstrap ''bootstrap.ring.cx'' ''4222''] w) \<and>
     dom (bin_conf b) = {''host'', ''port'', ''pgp_key_id''} \<and>
     bin_conf b ''host'' = Some (hc_host (bin_http b)) \<and> hc_host (bin_http b) \<noteq> [] \<and>
     LONG_MIN \<le> hc_port (bin_http b) \<and> hc_port (bin_http b) \<le> LONG_MAX \<and> running (bin_node b) \<and>
     (read_file (lib_host L) (user_config_dir (lib_host L) @ ''/dpaste.conf'') = None \<longrightarrow>
        bin_http b = \<lparr>hc_host = ''127.0.0.1'', hc_port = 6509\<rparr>)"
proof -
  let ?H = "lib_host L"
  let ?c = "configuration_file ?H []"
  have def: "config_map ?c = default_config" by (simp add: configuration_file_def)
  obtain rc cf p where l: "load ?H ?c = Inr (rc, cf)" and p: "map_at (config_map cf) ''port'' = Inr p"
    using conf.at_after_load [of ?c "''port''" ?H] def by (auto simp: default_config_def)
  have le: "config_le (config_map ?c) (config_map cf)" using l by (rule conf.load_keeps)
  then have dom: "dom (config_map cf) = {''host'', ''port'', ''pgp_key_id''}"
    by (auto simp: config_le_def def default_config_def)
  then obtain h where h: "config_map cf ''host'' = Some h" by blast
  have hne: "h \<noteq> []"
    using conf.nonempty_after_load [OF l, of "''host''"] h def by (auto simp: default_config_def)
  let ?b = "\<lparr>bin_conf = config_map cf,
     bin_http = \<lparr>hc_host = h, hc_port = extract_long (junk_port J) p\<rparr>, bin_node = \<lparr>running = True\<rparr>\<rparr>"
  have ha: "map_at (config_map cf) ''host'' = Inr h" using h by (simp add: map_at_def)
  have rn: "run_default node_new w = (Inr \<lparr>running = True\<rparr>,
      record_event (Dht_Bootstrap ''bootstrap.ring.cx'' ''4222'') (record_event (Dht_Run 0) w))"
    by (simp add: run_default_def run_def node_new_def proc_simps DEFAULT_BOOTSTRAP_NODE_def
        DEFAULT_BOOTSTRAP_PORT_def)
  have new: "bin_new L J w = (Inr ?b, fold record_event [Dht_Run 0, Dht_Bootstrap ''bootstrap.ring.cx'' ''4222''] w)"
    by (simp add: bin_new_def l p run_lift run_bind_Inr rn getConfiguration_def run_return ha)
  have "read_file ?H (user_config_dir ?H @ ''/dpaste.conf'') = None \<longrightarrow>
      h = ''127.0.0.1'' \<and> extract_long (junk_port J) p = 6509"
  proof
    assume "read_file ?H (user_config_dir ?H @ ''/dpaste.conf'') = None"
    then have "config_map cf = default_config"
      using l by (auto simp: load_def configuration_file_def CONFIG_FILE_NAME_def)
    then have "h = ''127.0.0.1''" "p = ''6509''"
      using h p by (simp_all add: default_config_def map_at_def)
    then show "h = ''127.0.0.1'' \<and> extract_long (junk_port J) p = 6509"
      by (simp add: extract_long_def is_space_def is_digit_def decimal_def LONG_MIN_def LONG_MAX_def)
  qed
  with new dom h hne extract_long_bounds [OF assms, of p] show ?thesis by simp
qed

text \<open>
  C30. The constructor never throws: whatever the configuration file holds, or without one, the
  \<open>Bin\<close> has the three options, a host that is not empty, a port in the range of \<open>long\<close>, and a node that
  was started and bootstrapped once; without a file it has the defaults.
\<close>

theorem bin_new_total:
  assumes "LONG_MIN \<le> junk_port J" and "junk_port J \<le> LONG_MAX"
  shows "\<exists>b. bin_new L J w = (Inr b, fold record_event [Dht_Run 0, Dht_Bootstrap ''bootstrap.ring.cx'' ''4222''] w) \<and>
     dom (bin_conf b) = {''host'', ''port'', ''pgp_key_id''} \<and>
     bin_conf b ''host'' = Some (hc_host (bin_http b)) \<and> hc_host (bin_http b) \<noteq> [] \<and>
     LONG_MIN \<le> hc_port (bin_http b) \<and> hc_port (bin_http b) \<le> LONG_MAX \<and> running (bin_node b) \<and>
     (read_file (lib_host L) (user_config_dir (lib_host L) @ ''/dpaste.conf'') = None \<longrightarrow>
        bin_http b = \<lparr>hc_host = ''127.0.0.1'', hc_port = 6509\<rparr>)"
  using assms by (rule bin_new_facts)

theorem bin_new_total_witness:
  "\<exists>b. fst (bin_new (toy_libs toy_http) junk_a init_world) = Inr b \<and>
     bin_http b = \<lparr>hc_host = ''127.0.0.1'', hc_port = 6509\<rparr>"
proof -
  have j: "LONG_MIN \<le> junk_port junk_a" "junk_port junk_a \<le> LONG_MAX"
    by (simp_all add: junk_a_def LONG_MIN_def LONG_MAX_def)
  have "read_file (lib_host (toy_libs toy_http)) (user_config_dir (lib_host (toy_libs toy_http)) @ ''/dpaste.conf'') = None"
    by (simp add: test_host_def)
  with bin_new_total [OF j, of "toy_libs toy_http" init_world] show ?thesis
    by (elim exE conjE) (metis fst_conv)
qed

lemma toy_fetch_nothing:
  assumes "transport_free (toy_libs toy_http) hc w code" and "hc_port hc = 6509"
  shows "\<exists>w'. fetch_blob (toy_libs toy_http) hc code w = (Inr [], w')"
proof -
  have a: "attempted (http_url toy_dht hc code) (hc_port hc) (trace w) = []"
    and d: "dht_stored (infohash_get toy_dht code) DPASTE_USER_TYPE (trace w) = []"
    using assms(1) by (simp_all add: transport_free_def http_free_def node_free_def)
  have p: "http_perform toy_http (trace w) (get_request (http_url toy_dht hc code) (hc_port hc)) =
      Http_Response 200 (toy_body [])"
    by (simp add: toy_http_def get_request_def DPASTE_USER_TYPE_def a)
  obtain out where "http_get toy_dht toy_http hc code w = (Inr [],
      record_event (Http_Perform (get_request (http_url toy_dht hc code) (hc_port hc)) out) w)"
    by (simp add: run_http_get Let_def p decode_body_ok [OF toy_json_ok(1)] toy_setup(3) [OF assms(2)])
  then show ?thesis
    using d by (simp add: fetch_blob_def run_bind_Inr run_get_blobs run_return) (simp add: toy_dht_def)
qed

end
