(* ===== verification/Main_Prog.thy ===== *)
theory Main_Prog
  imports Bin
begin

text \<open>
  \<open>src/main.cpp\<close>: the command line and the program. \<open>getopt_long\<close> is an argument of the model: given
  the option string, the table of long options and the arguments, the list of what its successive
  calls return before -1, each with \<open>optarg\<close>. \<open>PACKAGE_NAME\<close> and \<open>VERSION\<close> come from \<open>config.h\<close>, which
  the build generates. An exception that leaves \<open>main\<close> ends the process abnormally.
\<close>

section \<open>The command line\<close>

record parsed_args =
  pa_fail :: bool
  pa_help :: bool
  pa_version :: bool
  pa_sign :: bool
  pa_aes_encrypt :: bool
  pa_gpg_encrypt :: bool
  pa_no_decrypt :: bool
  pa_self_recipient :: bool
  pa_code :: string
  pa_recipients :: "string list"

definition parsed_args_new :: parsed_args where
  "parsed_args_new = \<lparr>pa_fail = False, pa_help = False, pa_version = False, pa_sign = False,
     pa_aes_encrypt = False, pa_gpg_encrypt = False, pa_no_decrypt = False,
     pa_self_recipient = False, pa_code = [], pa_recipients = []\<rparr>"

record build_config =
  PACKAGE_NAME :: string
  VERSION :: string

datatype has_arg = No_Argument | Required_Argument

type_synonym long_option = "string \<times> has_arg \<times> char"
type_synonym getopt = "string \<Rightarrow> long_option list \<Rightarrow> string list \<Rightarrow> (char \<times> string) list"

definition long_options :: "long_option list" where
  "long_options =
     [(''help'', No_Argument, CHR ''h''),
      (''version'', No_Argument, CHR ''v''),
      (''get'', Required_Argument, CHR ''g''),
      (''aes-encrypt'', No_Argument, CHR ''3''),
      (''gpg-encrypt'', No_Argument, CHR ''4''),
      (''recipients'', Required_Argument, CHR ''r''),
      (''sign'', No_Argument, CHR ''s''),
      (''no-decrypt'', No_Argument, CHR ''1''),
      (''self-recipient'', No_Argument, CHR ''2'')]"

text \<open>The loop: one option sets its field; any other value fails and leaves the loop.\<close>

fun parse_opts :: "parsed_args \<Rightarrow> (char \<times> string) list \<Rightarrow> parsed_args" where
  "parse_opts pa [] = pa"
| "parse_opts pa ((opt, optarg) # opts) =
     (if opt = CHR ''h'' then parse_opts (pa\<lparr>pa_help := True\<rparr>) opts
      else if opt = CHR ''v'' then parse_opts (pa\<lparr>pa_version := True\<rparr>) opts
      else if opt = CHR ''g'' then parse_opts (pa\<lparr>pa_code := optarg\<rparr>) opts
      else if opt = CHR ''3'' then parse_opts (pa\<lparr>pa_aes_encrypt := True\<rparr>) opts
      else if opt = CHR ''4'' then parse_opts (pa\<lparr>pa_gpg_encrypt := True\<rparr>) opts
      else if opt = CHR ''r'' then parse_opts (pa\<lparr>pa_recipients := pa_recipients pa @ [optarg]\<rparr>) opts
      else if opt = CHR ''s'' then parse_opts (pa\<lparr>pa_sign := True\<rparr>) opts
      else if opt = CHR ''1'' then parse_opts (pa\<lparr>pa_no_decrypt := True\<rparr>) opts
      else if opt = CHR ''2'' then parse_opts (pa\<lparr>pa_self_recipient := True\<rparr>) opts
      else pa\<lparr>pa_fail := True\<rparr>)"

text \<open>What the calls \<open>getopt_long(argc, argv, "hvg:r:s", long_options, nullptr)\<close> return, before -1.\<close>

definition getopt_results :: "getopt \<Rightarrow> string list \<Rightarrow> (char \<times> string) list" where
  "getopt_results getopt_long argv = getopt_long ''hvg:r:s'' long_options argv"

definition parseArgs :: "getopt \<Rightarrow> string list \<Rightarrow> parsed_args" where
  "parseArgs getopt_long argv = parse_opts parsed_args_new (getopt_results getopt_long argv)"

definition params_from_args :: "junk_flags \<Rightarrow> parsed_args \<Rightarrow> parameters option" where
  "params_from_args j pa =
     (if pa_aes_encrypt pa then Some (AES_Params aes_parameters_default)
      else if pa_gpg_encrypt pa then
        Some (GPG_Params (gpg_parameters_full (pa_recipients pa) (pa_self_recipient pa) (pa_sign pa)))
      else if pa_sign pa then Some (GPG_Params ((gpg_parameters_default j)\<lparr>gp_sign := pa_sign pa\<rparr>))
      else None)"

definition line :: "string \<Rightarrow> string" where
  "line s = s @ [newline]"

definition help_text :: "build_config \<Rightarrow> string" where
  "help_text C = concat
     [PACKAGE_NAME C, '' -- A simple pastebin for light values (max 64KB)'',
      line (line '' using OpenDHT distributed hash table.''),
      line ''SYNOPSIS'',
      line (''    '' @ PACKAGE_NAME C @ '' [-h]''),
      line (''    '' @ PACKAGE_NAME C @ '' [-v]''),
      line (''    '' @ PACKAGE_NAME C @ '' [-g code]''),
      line ''OPTIONS'',
      line ''    -h|--help'',
      line ''        Prints this help text.'',
      line ''    -v|--version'',
      line ''        Prints the program's version number.'',
      line ''    -g|--get {code}'',
      line ''        Get the pasted file under the code {code}.'',
      line ''    --aes-encrypt'',
      line ''        Use AES scheme for encryption. Password is automatically saved in '',
      line (''        the returned code ('' @ [CHR 0x22] @ ''dpaste:XXXXXX'' @ [CHR 0x22] @ '').''),
      line ''    --gpg-encrypt'',
      line ''        Use GPG scheme for encryption/signing.'',
      line ''    -r|--recipients {recipient}'',
      line ''        Specify the list of recipients to use for GPG encryption (--gpg--encrypt). '',
      line ''        Use '-r' multiple times to specify a list of recipients'',
      line ''    -s|--sign'',
      line ''        Tells wether message should be signed using the user's GPG key. The key has to be configured'',
      line ''        through the configuration file ($XDG_CONFIG_DIR/dpaste.conf, keyword: pgp_key_id).'',
      line ''    --no-decrypt'',
      line ''        Tells dpaste not to decrypt PGP data and rather output it on stdout.'',
      line ''    --self-recipient'',
      line ''        Include self as recipient. Self refers to the key id configured for signing'',
      line (''        (see --sign description). This only takes effect if option '' @ [CHR 0x22] @ ''-e'' @ [CHR 0x22] @ '' is also used.''),
      line [],
      line (''When -g option is ommited, '' @ PACKAGE_NAME C @ '' will read its standard input for a file to paste.'')]"

definition print_help :: "build_config \<Rightarrow> unit proc" where
  "print_help C = emitP (Stdout (help_text C))"

section \<open>main\<close>

text \<open>The two branches behind the initialisation, then the whole; the value is the exit code.\<close>

definition main_get :: "libs \<Rightarrow> junk \<Rightarrow> bin \<Rightarrow> parsed_args \<Rightarrow> int proc" where
  "main_get L J b pa =
     bindP (bin_get L J b (pa_code pa) (pa_no_decrypt pa)) (\<lambda>r.
     if fst r then thenP (emitP (Stdout (snd r))) (returnP 0) else returnP 1)"

definition main_paste :: "libs \<Rightarrow> junk \<Rightarrow> bin \<Rightarrow> parsed_args \<Rightarrow> string \<Rightarrow> int proc" where
  "main_paste L J b pa input =
     bindP (bin_paste_stream L J b input (params_from_args (junk_flags_of J) pa)) (\<lambda>uri.
     thenP (emitP (Stdout (uri @ [newline]))) (returnP (if uri = [] then 1 else 0)))"

definition main_prog ::
  "libs \<Rightarrow> junk \<Rightarrow> build_config \<Rightarrow> getopt \<Rightarrow> string list \<Rightarrow> string \<Rightarrow> int proc" where
  "main_prog L J C getopt_long argv input =
     (let parsed_args = parseArgs getopt_long argv
      in if pa_fail parsed_args then returnP 1
         else if pa_help parsed_args then thenP (print_help C) (returnP 0)
         else if pa_version parsed_args then thenP (emitP (Stdout (VERSION C @ [newline]))) (returnP 0)
         else bindP (bin_new L J) (\<lambda>dpastebin.
              thenP (cipher_init (lib_gpgme L))
                (if pa_code parsed_args \<noteq> [] then main_get L J dpastebin parsed_args
                 else main_paste L J dpastebin parsed_args input)))"

section \<open>Properties of the command line\<close>

definition known_opt :: "char \<times> string \<Rightarrow> bool" where
  "known_opt o' \<longleftrightarrow> fst o' \<in> set ''hvg34rs12''"

definition args_of :: "char \<Rightarrow> (char \<times> string) list \<Rightarrow> string list" where
  "args_of c opts = map snd (filter (\<lambda>o'. fst o' = c) opts)"

lemma known_opt_cases:
  assumes "known_opt (opt, optarg)"
  obtains "opt = CHR ''h''" | "opt = CHR ''v''" | "opt = CHR ''g''" | "opt = CHR ''3''"
    | "opt = CHR ''4''" | "opt = CHR ''r''" | "opt = CHR ''s''" | "opt = CHR ''1''" | "opt = CHR ''2''"
  using assms unfolding known_opt_def fst_conv set_simps insert_iff empty_iff
  by (elim disjE) (fact that | simp only:)+

lemma parse_opts_eq:
  "parse_opts pa opts =
     (let known = takeWhile known_opt opts
      in \<lparr>pa_fail = (pa_fail pa \<or> known \<noteq> opts), pa_help = (pa_help pa \<or> args_of (CHR ''h'') known \<noteq> []),
          pa_version = (pa_version pa \<or> args_of (CHR ''v'') known \<noteq> []),
          pa_sign = (pa_sign pa \<or> args_of (CHR ''s'') known \<noteq> []),
          pa_aes_encrypt = (pa_aes_encrypt pa \<or> args_of (CHR ''3'') known \<noteq> []),
          pa_gpg_encrypt = (pa_gpg_encrypt pa \<or> args_of (CHR ''4'') known \<noteq> []),
          pa_no_decrypt = (pa_no_decrypt pa \<or> args_of (CHR ''1'') known \<noteq> []),
          pa_self_recipient = (pa_self_recipient pa \<or> args_of (CHR ''2'') known \<noteq> []),
          pa_code = (case args_of (CHR ''g'') known of [] \<Rightarrow> pa_code pa | a # as \<Rightarrow> last (a # as)),
          pa_recipients = pa_recipients pa @ args_of (CHR ''r'') known\<rparr>)"
proof (induction opts arbitrary: pa)
  case Nil
  then show ?case by (simp add: args_of_def)
next
  case (Cons o' opts)
  obtain opt optarg where o': "o' = (opt, optarg)" by (cases o')
  show ?case
  proof (cases "known_opt o'")
    case False
    then show ?thesis by (simp add: o' args_of_def known_opt_def Let_def)
  next
    case True
    then show ?thesis
      unfolding o'
      by (cases rule: known_opt_cases)
        (use True in \<open>simp_all add: o' Cons.IH args_of_def Let_def split: list.split\<close>)
  qed
qed

text \<open>
  What \<open>parseArgs\<close> makes of the options: those before the first unknown one count, each flag says
  whether its option is among them, the code is the argument of the last \<open>-g\<close>, the recipients are
  the arguments of \<open>-r\<close> in order, and it fails exactly when there is an unknown one.
\<close>

lemma parse_args_fields:
  "parseArgs getopt_long argv =
     (let opts = getopt_results getopt_long argv; known = takeWhile known_opt opts
      in \<lparr>pa_fail = (known \<noteq> opts), pa_help = (args_of (CHR ''h'') known \<noteq> []),
          pa_version = (args_of (CHR ''v'') known \<noteq> []), pa_sign = (args_of (CHR ''s'') known \<noteq> []),
          pa_aes_encrypt = (args_of (CHR ''3'') known \<noteq> []), pa_gpg_encrypt = (args_of (CHR ''4'') known \<noteq> []),
          pa_no_decrypt = (args_of (CHR ''1'') known \<noteq> []), pa_self_recipient = (args_of (CHR ''2'') known \<noteq> []),
          pa_code = (case args_of (CHR ''g'') known of [] \<Rightarrow> [] | a # as \<Rightarrow> last (a # as)),
          pa_recipients = args_of (CHR ''r'') known\<rparr>)"
  by (simp add: parseArgs_def parse_opts_eq parsed_args_new_def Let_def split: list.split)

definition chosen_params :: "junk_flags \<Rightarrow> (char \<times> string) list \<Rightarrow> parameters option" where
  "chosen_params j opts =
     (let has = (\<lambda>c. args_of c opts \<noteq> []) in
      if has (CHR ''3'') then Some (AES_Params (aes_parameters []))
      else if has (CHR ''4'') then
        Some (GPG_Params \<lparr>gp_key_id = [], gp_recipients = args_of (CHR ''r'') opts,
                          gp_self_recipient = has (CHR ''2''), gp_sign = has (CHR ''s'')\<rparr>)
      else if has (CHR ''s'') then
        Some (GPG_Params \<lparr>gp_key_id = [], gp_recipients = [], gp_self_recipient = junk_self_recipient j,
                          gp_sign = True\<rparr>)
      else None)"

lemma parsed_flags:
  "pa_fail (parseArgs g argv) \<longleftrightarrow> takeWhile known_opt (getopt_results g argv) \<noteq> getopt_results g argv"
  "pa_help (parseArgs g argv) \<longleftrightarrow> args_of (CHR ''h'') (takeWhile known_opt (getopt_results g argv)) \<noteq> []"
  "pa_version (parseArgs g argv) \<longleftrightarrow> args_of (CHR ''v'') (takeWhile known_opt (getopt_results g argv)) \<noteq> []"
  "pa_no_decrypt (parseArgs g argv) \<longleftrightarrow> args_of (CHR ''1'') (takeWhile known_opt (getopt_results g argv)) \<noteq> []"
  by (simp_all add: parseArgs_def parse_opts_eq parsed_args_new_def Let_def)

text \<open>The run of \<open>main\<close> up to the branch on the code, for options that are all known.\<close>

lemma parse_known:
  assumes "list_all known_opt (getopt_results getopt_long argv)"
  shows "takeWhile known_opt (getopt_results getopt_long argv) = getopt_results getopt_long argv"
  using assms by (simp add: list_all_iff)

lemma run_main_prog:
  assumes "list_all known_opt (getopt_results getopt_long argv)"
    and "args_of (CHR ''h'') (getopt_results getopt_long argv) = []"
    and "args_of (CHR ''v'') (getopt_results getopt_long argv) = []"
    and "bin_new L J w0 = (Inr b, w1)" and "cipher_init (lib_gpgme L) w1 = (Inr (), w)"
  shows "main_prog L J C getopt_long argv input w0 =
     (if pa_code (parseArgs getopt_long argv) \<noteq> [] then main_get L J b (parseArgs getopt_long argv) w
      else main_paste L J b (parseArgs getopt_long argv) input w)"
  using assms(2-5)
  by (simp add: main_prog_def Let_def run_bind_Inr run_then_Inr parseArgs_def parse_opts_eq
      parsed_args_new_def parse_known [OF assms(1)])

lemma params_of_known:
  assumes "list_all known_opt (getopt_results getopt_long argv)"
  shows "params_from_args j (parseArgs getopt_long argv) =
    chosen_params j (getopt_results getopt_long argv)"
  by (simp add: params_from_args_def parseArgs_def parse_opts_eq parsed_args_new_def parse_known [OF assms]
      chosen_params_def aes_parameters_default_def aes_parameters_def gpg_parameters_full_def
      gpg_parameters_default_def Let_def)

lemma code_of_known:
  assumes "list_all known_opt (getopt_results getopt_long argv)"
  shows "pa_code (parseArgs getopt_long argv) =
    (case args_of (CHR ''g'') (getopt_results getopt_long argv) of [] \<Rightarrow> [] | a # as \<Rightarrow> last (a # as))"
  by (simp add: parseArgs_def parse_opts_eq parsed_args_new_def parse_known [OF assms] Let_def split: list.split)

text \<open>
  C32. Which cipher a paste of the command line uses, and which exit code it has: AES whenever
  \<open>--aes-encrypt\<close> is among the options, whatever else is; otherwise GPG for the recipients given
  with \<open>--gpg-encrypt\<close>; otherwise a signature with \<open>--sign\<close>; otherwise nothing. What is pasted is the
  standard input cut to \<open>MAX_VALUE_SIZE\<close> bytes, and the exit code is 0 exactly when the printed URI
  is not empty.
\<close>

theorem main_paste_outcomes:
  assumes "list_all known_opt (getopt_results getopt_long argv)"
    and "args_of (CHR ''h'') (getopt_results getopt_long argv) = []"
    and "args_of (CHR ''v'') (getopt_results getopt_long argv) = []"
    and "args_of (CHR ''g'') (getopt_results getopt_long argv) = []"
    and "bin_new L J w0 = (Inr b, w1)" and "cipher_init (lib_gpgme L) w1 = (Inr (), w)"
  shows "main_prog L J C getopt_long argv input w0 =
     (case bin_paste L J b (bytes_of_string (take (MAX_VALUE_SIZE L) input))
             (chosen_params (junk_flags_of J) (getopt_results getopt_long argv)) w of
        (Inl e, w') \<Rightarrow> (Inl e, w')
      | (Inr uri, w') \<Rightarrow> (Inr (if uri = [] then 1 else 0), record_event (Stdout (uri @ [newline])) w'))"
proof -
  have "pa_code (parseArgs getopt_long argv) = []"
    by (simp add: code_of_known [OF assms(1)] assms(4))
  then have "main_prog L J C getopt_long argv input w0 = main_paste L J b (parseArgs getopt_long argv) input w"
    using run_main_prog [OF assms(1,2,3,5,6)] by simp
  then show ?thesis
    by (simp add: main_paste_def bin_paste_stream_def data_from_stream_def params_of_known [OF assms(1)]
        bindP_def run_then_Inr run_emit run_return split: prod.split sum.split)
qed

text \<open>A command line without options, and one with options only, for the concrete instances.\<close>

definition no_options :: getopt where
  "no_options s lo argv = []"

definition get_option :: "string \<Rightarrow> getopt" where
  "get_option code s lo argv = [(CHR ''g'', code)]"

definition flag_options :: "string \<Rightarrow> getopt" where
  "flag_options flags s lo argv = map (\<lambda>c. (c, [])) flags"

definition toy_build :: build_config where
  "toy_build = \<lparr>PACKAGE_NAME = ''dpaste'', VERSION = ''0.4.0''\<rparr>"

lemma toy_options [simp]:
  "getopt_results no_options argv = []" "getopt_results (get_option code) argv = [(CHR ''g'', code)]"
  "getopt_results (flag_options flags) argv = map (\<lambda>c. (c, [])) flags"
  by (simp_all add: getopt_results_def no_options_def get_option_def flag_options_def)

text \<open>The start of a process with the default configuration and a working engine.\<close>

lemma toy_cipher_init:
  "\<lbrakk>\<not> cipher_initialized w; \<not> gpg_initialized w\<rbrakk> \<Longrightarrow> cipher_init toy_gpgme w =
     (Inr (), (record_event (Gpg_Engine_Check no_error) w)\<lparr>gpg_initialized := True, cipher_initialized := True\<rparr>)"
  by (simp add: cipher_init_def gpg_init_def proc_defs Let_def)

section \<open>The start of a process stores nothing\<close>

lemma bin_new_trace:
  assumes "bin_new L J w = (Inr b, w')"
  shows "trace w' = trace w @ [Dht_Run 0, Dht_Bootstrap ''bootstrap.ring.cx'' ''4222'']"
proof -
  have "run_default node_new v = (Inr \<lparr>running = True\<rparr>,
      record_event (Dht_Bootstrap ''bootstrap.ring.cx'' ''4222'') (record_event (Dht_Run 0) v))" for v
    by (simp add: run_default_def run_def node_new_def proc_simps DEFAULT_BOOTSTRAP_NODE_def
        DEFAULT_BOOTSTRAP_PORT_def)
  with assms show ?thesis
    by (auto simp: bin_new_def bindP_Inr_iff liftP_def returnP_def Let_def)
qed

lemma cipher_init_trace:
  assumes "cipher_init G w = (r, w')"
  shows "\<exists>es. list_all no_store es \<and> trace w' = trace w @ es"
  using assms
  by (auto simp: cipher_init_def gpg_init_def bindP_def thenP_def getP_def askP_def emitP_def modifyP_def
      returnP_def throwP_def split: if_splits intro: exI [of _ "[]"])

lemma start_trace:
  assumes "bin_new L J w0 = (Inr b, w1)" and "cipher_init G w1 = (r, w)"
  shows "\<exists>es. list_all no_store es \<and> trace w = trace w0 @ es"
proof -
  obtain es where es: "list_all no_store es" "trace w = trace w1 @ es"
    using cipher_init_trace [OF assms(2)] by blast
  show ?thesis
    by (rule exI [of _ "[Dht_Run 0, Dht_Bootstrap ''bootstrap.ring.cx'' ''4222''] @ es"])
      (simp add: es bin_new_trace [OF assms(1)])
qed

text \<open>A successful paste and a get on the command line.\<close>

lemma main_paste_Inr:
  assumes "main_paste L J b pa input w = (Inr 0, w1)"
  shows "\<exists>uri w'. bin_paste_stream L J b input (params_from_args (junk_flags_of J) pa) w = (Inr uri, w') \<and>
     uri \<noteq> [] \<and> w1 = record_event (Stdout (uri @ [newline])) w'"
  using assms
  by (auto simp: main_paste_def bindP_Inr_iff run_then_Inr run_emit returnP_def split: if_splits)

lemma run_main_get:
  assumes "fst (bin_get L J b (pa_code pa) (pa_no_decrypt pa) w) = Inr (ok, out)"
  shows "fst (main_get L J b pa w) = Inr (if ok then 0 else 1) \<and>
     (ok \<longrightarrow> last (trace (snd (main_get L J b pa w))) = Stdout out) \<and>
     (\<not> ok \<longrightarrow> snd (main_get L J b pa w) = snd (bin_get L J b (pa_code pa) (pa_no_decrypt pa) w))"
  using assms
  by (cases "bin_get L J b (pa_code pa) (pa_no_decrypt pa) w")
    (auto simp: main_get_def run_bind_Inr run_then_Inr run_emit run_return)

lemma toy_start:
  "\<exists>b w1 w2. bin_new (toy_libs H) junk_a (init_world\<lparr>trace := tr\<rparr>) = (Inr b, w1) \<and>
     cipher_init (lib_gpgme (toy_libs H)) w1 = (Inr (), w2) \<and>
     bin_http b = \<lparr>hc_host = ''127.0.0.1'', hc_port = 6509\<rparr>"
proof -
  have j: "LONG_MIN \<le> junk_port junk_a" "junk_port junk_a \<le> LONG_MAX"
    by (simp_all add: junk_a_def LONG_MIN_def LONG_MAX_def)
  have n: "read_file (lib_host (toy_libs H)) (user_config_dir (lib_host (toy_libs H)) @ ''/dpaste.conf'') = None"
    by (simp add: test_host_def)
  let ?w1 = "fold record_event [Dht_Run 0, Dht_Bootstrap ''bootstrap.ring.cx'' ''4222''] (init_world\<lparr>trace := tr\<rparr>)"
  obtain b where b: "bin_new (toy_libs H) junk_a (init_world\<lparr>trace := tr\<rparr>) = (Inr b, ?w1)"
    "bin_http b = \<lparr>hc_host = ''127.0.0.1'', hc_port = 6509\<rparr>"
    using bin_new_facts [OF j, of "toy_libs H" "init_world\<lparr>trace := tr\<rparr>"] n by blast
  have "\<not> cipher_initialized ?w1" "\<not> gpg_initialized ?w1" by (simp_all add: init_world_def)
  then obtain w2 where "cipher_init toy_gpgme ?w1 = (Inr (), w2)"
    using toy_cipher_init by blast
  with b show ?thesis by auto
qed

theorem main_paste_outcomes_witness:
  "\<exists>uri w1. main_prog (toy_libs toy_http) junk_a toy_build (flag_options ''s3'') [] ''hi'' init_world =
     (Inr 0, record_event (Stdout (uri @ [newline])) w1) \<and> length uri = 23"
proof -
  let ?L = "toy_libs toy_http" and ?g = "flag_options ''s3''" and ?p = "Some (AES_Params (aes_parameters []))"
  obtain b wa w where start: "bin_new ?L junk_a init_world = (Inr b, wa)" "cipher_init (lib_gpgme ?L) wa = (Inr (), w)"
    and b: "bin_http b = \<lparr>hc_host = ''127.0.0.1'', hc_port = 6509\<rparr>"
    using toy_start [of toy_http "[]"] by (auto simp: init_world_def)
  have opts: "list_all known_opt (getopt_results ?g [])"
    "args_of (CHR ''h'') (getopt_results ?g []) = []" "args_of (CHR ''v'') (getopt_results ?g []) = []"
    "args_of (CHR ''g'') (getopt_results ?g []) = []"
    by (simp_all add: known_opt_def args_of_def)
  have chosen: "chosen_params (junk_flags_of junk_a) (getopt_results ?g []) = ?p"
    by (simp add: chosen_params_def args_of_def)
  let ?d = "bytes_of_string (take (MAX_VALUE_SIZE ?L) ''hi'')"
  obtain p pwd wp where prep: "prepare_data ?L junk_a b ?d ?p (after_pin (lib_rng ?L) w) = (Inr (p, pwd), wp)"
    and pwd: "length pwd = 8"
    by (simp add: run_prepare_aes Let_def)
  obtain w' where paste: "bin_paste ?L junk_a b ?d ?p w
      = (Inr (DPASTE_URI_PREFIX @ pin_text (process_pin (lib_rng ?L) w) @ pwd), w')"
    using bin_paste_succeeds [OF prep toy_send] b by auto
  have "main_prog ?L junk_a toy_build ?g [] ''hi'' init_world = (Inr 0,
      record_event (Stdout ((DPASTE_URI_PREFIX @ pin_text (process_pin (lib_rng ?L) w) @ pwd) @ [newline])) w')"
    unfolding main_paste_outcomes [OF opts start] chosen paste by (simp add: DPASTE_URI_PREFIX_def)
  moreover have "length (DPASTE_URI_PREFIX @ pin_text (process_pin (lib_rng ?L) w) @ pwd) = 23"
    using pwd by (simp add: DPASTE_URI_PREFIX_def)
  ultimately show ?thesis by blast
qed

end
