(* ===== verification/Node_Blocking.thy ===== *)
theory Node_Blocking
  imports Node
begin

text \<open>
  The blocking branch of \<open>Node::paste\<close> (\<open>src/node.cpp\<close>) as two threads: the caller, which takes
  the mutex, starts the put and waits on the condition variable, and the DHT thread, which calls
  the done callback. A step is one action of one of them; the scheduler, spurious wake-ups and
  the flag the callback gets are not determined.

  \<open>done\<close> has no initial value in the source: \<open>start_state done0\<close> starts with whatever the memory
  held. The caller's stack frame, which holds the mutex, the condition variable and both flags,
  is gone once it has returned.
\<close>

section \<open>The two threads\<close>

datatype caller_pc =
    At_Put \<comment> \<open>holds the mutex, about to call \<open>node_.put\<close>\<close>
  | At_Pred \<comment> \<open>holds the mutex, evaluates the predicate of \<open>cv.wait\<close>\<close>
  | Asleep \<comment> \<open>blocked in \<open>cv.wait\<close>, the mutex released\<close>
  | Woken \<comment> \<open>unblocked, has to take the mutex again\<close>
  | Returned bool

datatype callback_pc =
    Not_Called
  | Called bool \<comment> \<open>entered with this flag\<close>
  | At_Lock bool \<comment> \<open>message printed or \<open>success_\<close> set\<close>
  | In_Lock bool
  | Done_Set bool \<comment> \<open>still inside the scope of the lock\<close>
  | At_Notify bool
  | Finished bool

datatype thread = Caller | Callback

record blocking =
  done_flag :: bool
  success_flag :: bool
  mutex :: "thread option"
  caller :: caller_pc
  callback :: callback_pc

definition start_state :: "bool \<Rightarrow> blocking" where
  "start_state done0 = \<lparr>done_flag = done0, success_flag = False, mutex = Some Caller,
     caller = At_Put, callback = Not_Called\<rparr>"

text \<open>\<open>quiet\<close> is false for a spurious wake-up.\<close>

inductive step :: "bool \<Rightarrow> blocking \<Rightarrow> blocking \<Rightarrow> bool" where
  put: "caller s = At_Put \<Longrightarrow> step True s (s\<lparr>caller := At_Pred, callback := Called b\<rparr>)"
| pred_true: "caller s = At_Pred \<Longrightarrow> done_flag s \<Longrightarrow>
     step True s (s\<lparr>caller := Returned (success_flag s), mutex := None\<rparr>)"
| pred_false: "caller s = At_Pred \<Longrightarrow> \<not> done_flag s \<Longrightarrow> step True s (s\<lparr>caller := Asleep, mutex := None\<rparr>)"
| relock: "caller s = Woken \<Longrightarrow> mutex s = None \<Longrightarrow>
     step True s (s\<lparr>caller := At_Pred, mutex := Some Caller\<rparr>)"
| spurious: "caller s = Asleep \<Longrightarrow> step False s (s\<lparr>caller := Woken\<rparr>)"
| report: "callback s = Called b \<Longrightarrow>
     step True s (s\<lparr>success_flag := (if b then True else success_flag s), callback := At_Lock b\<rparr>)"
| lock: "callback s = At_Lock b \<Longrightarrow> mutex s = None \<Longrightarrow>
     step True s (s\<lparr>callback := In_Lock b, mutex := Some Callback\<rparr>)"
| set_done: "callback s = In_Lock b \<Longrightarrow> step True s (s\<lparr>done_flag := True, callback := Done_Set b\<rparr>)"
| unlock: "callback s = Done_Set b \<Longrightarrow> step True s (s\<lparr>callback := At_Notify b, mutex := None\<rparr>)"
| notify: "callback s = At_Notify b \<Longrightarrow>
     step True s (s\<lparr>callback := Finished b, caller := (if caller s = Asleep then Woken else caller s)\<rparr>)"

inductive_cases stepE: "step q s t"

inductive reachable :: "bool \<Rightarrow> blocking \<Rightarrow> bool" for done0 where
  start: "reachable done0 (start_state done0)"
| next_step: "reachable done0 s \<Longrightarrow> step q s t \<Longrightarrow> reachable done0 t"

inductive_simps reachable_simps: "reachable done0 s"

fun callback_result :: "callback_pc \<Rightarrow> bool option" where
  "callback_result Not_Called = None"
| "callback_result (Called b) = Some b"
| "callback_result (At_Lock b) = Some b"
| "callback_result (In_Lock b) = Some b"
| "callback_result (Done_Set b) = Some b"
| "callback_result (At_Notify b) = Some b"
| "callback_result (Finished b) = Some b"

fun reported :: "callback_pc \<Rightarrow> bool" where
  "reported Not_Called = False"
| "reported (Called b) = False"
| "reported _ = True"

fun holds_lock :: "callback_pc \<Rightarrow> bool" where
  "holds_lock (In_Lock b) = True"
| "holds_lock (Done_Set b) = True"
| "holds_lock _ = False"

fun has_set_done :: "callback_pc \<Rightarrow> bool" where
  "has_set_done (Done_Set b) = True"
| "has_set_done (At_Notify b) = True"
| "has_set_done (Finished b) = True"
| "has_set_done _ = False"

section \<open>The invariant\<close>

definition blocking_inv :: "bool \<Rightarrow> blocking \<Rightarrow> bool" where
  "blocking_inv done0 s \<longleftrightarrow>
     (done_flag s \<longleftrightarrow> done0 \<or> has_set_done (callback s)) \<and>
     (success_flag s \<longleftrightarrow> reported (callback s) \<and> callback_result (callback s) = Some True) \<and>
     (mutex s = Some Caller \<longleftrightarrow> caller s = At_Put \<or> caller s = At_Pred) \<and>
     (mutex s = Some Callback \<longleftrightarrow> holds_lock (callback s)) \<and>
     (callback s = Not_Called \<longleftrightarrow> caller s = At_Put) \<and>
     (caller s = Asleep \<longrightarrow> (\<forall>b. callback s \<noteq> Finished b)) \<and>
     (\<forall>r. caller s = Returned r \<longrightarrow>
        (\<exists>b. callback_result (callback s) = Some b \<and>
          (if done0 then r = b \<or> \<not> r else has_set_done (callback s) \<and> r = b)))"

lemma blocking_inv_start: "blocking_inv done0 (start_state done0)"
  by (simp add: blocking_inv_def start_state_def)

lemma step_inv: "step q s t \<Longrightarrow> blocking_inv done0 s \<Longrightarrow> blocking_inv done0 t"
proof (induction rule: step.induct)
  case (put s b)
  then show ?case by (auto simp: blocking_inv_def)
next
  case (pred_true s)
  then show ?case
    by (cases "callback s") (auto simp: blocking_inv_def)
next
  case (pred_false s)
  then show ?case by (auto simp: blocking_inv_def)
next
  case (relock s)
  then show ?case by (auto simp: blocking_inv_def)
next
  case (spurious s)
  then show ?case by (auto simp: blocking_inv_def)
next
  case (report s b)
  then show ?case by (auto simp: blocking_inv_def split: if_splits)
next
  case (lock s b)
  then show ?case by (auto simp: blocking_inv_def)
next
  case (set_done s b)
  then show ?case by (auto simp: blocking_inv_def)
next
  case (unlock s b)
  then show ?case by (auto simp: blocking_inv_def)
next
  case (notify s b)
  then show ?case by (auto simp: blocking_inv_def)
qed

lemma reachable_inv: "reachable done0 s \<Longrightarrow> blocking_inv done0 s"
  by (induction rule: reachable.induct) (auto intro: blocking_inv_start step_inv)

section \<open>Progress and termination\<close>

fun callback_rank :: "callback_pc \<Rightarrow> nat" where
  "callback_rank Not_Called = 7"
| "callback_rank (Called b) = 6"
| "callback_rank (At_Lock b) = 5"
| "callback_rank (In_Lock b) = 4"
| "callback_rank (Done_Set b) = 3"
| "callback_rank (At_Notify b) = 2"
| "callback_rank (Finished b) = 1"

fun caller_rank :: "caller_pc \<Rightarrow> nat" where
  "caller_rank At_Put = 4"
| "caller_rank Woken = 3"
| "caller_rank At_Pred = 2"
| "caller_rank Asleep = 1"
| "caller_rank (Returned r) = 0"

definition work_left :: "blocking \<Rightarrow> nat" where
  "work_left s = 4 * callback_rank (callback s) + caller_rank (caller s)"

lemma step_decreases: "step q s t \<Longrightarrow> q \<Longrightarrow> blocking_inv done0 s \<Longrightarrow> work_left t < work_left s"
  by (induction rule: step.induct) (auto simp: work_left_def blocking_inv_def)

lemma free_mutex: "blocking_inv done0 s \<Longrightarrow> mutex s \<noteq> None \<Longrightarrow>
    caller s = At_Put \<or> caller s = At_Pred \<or> holds_lock (callback s)"
proof -
  assume i: "blocking_inv done0 s" and "mutex s \<noteq> None"
  then obtain th where "mutex s = Some th" by blast
  then show ?thesis using i by (cases th) (auto simp: blocking_inv_def)
qed

lemma callback_moves:
  assumes "blocking_inv done0 s" and "caller s \<noteq> At_Put" and "caller s \<noteq> At_Pred"
    and "\<forall>b. callback s \<noteq> Finished b"
  shows "\<exists>t. step True s t"
proof (cases "callback s")
  case Not_Called
  with assms(1,2) show ?thesis by (auto simp: blocking_inv_def)
next
  case (At_Lock b)
  then have "mutex s = None" using free_mutex [OF assms(1)] assms(2,3) by fastforce
  with At_Lock show ?thesis by (blast intro: step.lock)
next
  case (Finished b)
  with assms(4) show ?thesis by blast
qed (blast intro: step.intros)+

lemma stuck_is_final:
  assumes "blocking_inv done0 s" and "\<nexists>t. step True s t"
  shows "\<exists>r b. caller s = Returned r \<and> callback s = Finished b"
proof (cases "caller s")
  case At_Put
  with assms(2) show ?thesis by (blast intro: step.put)
next
  case At_Pred
  with assms(2) show ?thesis by (blast intro: step.pred_true step.pred_false)
next
  case Asleep
  then show ?thesis using callback_moves [OF assms(1)] assms by (auto simp: blocking_inv_def)
next
  case Woken
  show ?thesis
  proof (cases "mutex s")
    case None
    with Woken assms(2) show ?thesis by (blast intro: step.relock)
  next
    case (Some th)
    then have "holds_lock (callback s)" using free_mutex [OF assms(1)] Woken by auto
    then show ?thesis using callback_moves [OF assms(1)] Woken assms(2) by (cases "callback s") auto
  qed
next
  case (Returned r)
  then show ?thesis using callback_moves [OF assms(1)] assms(2) by auto
qed

lemma reachable_steps: "(step True ^^ n) s t \<Longrightarrow> reachable done0 s \<Longrightarrow> reachable done0 t"
  by (induction n arbitrary: t) (auto intro: reachable.next_step)

lemma steps_bound: "(step True ^^ n) s t \<Longrightarrow> reachable done0 s \<Longrightarrow> n + work_left t \<le> work_left s"
proof (induction n arbitrary: t)
  case 0
  then show ?case by simp
next
  case (Suc n)
  then obtain u where u: "(step True ^^ n) s u" "step True u t" by auto
  then have "blocking_inv done0 u"
    using reachable_inv reachable_steps Suc.prems(2) by blast
  with u Suc step_decreases [of True u t done0] show ?case by fastforce
qed

section \<open>Runs of interest\<close>

lemma reachable_pcs:
  "reachable d \<lparr>done_flag = x, success_flag = y, mutex = m, caller = p, callback = q\<rparr> \<Longrightarrow>
     \<exists>s. reachable d s \<and> caller s = p \<and> callback s = q"
  by (metis blocking.select_convs(4,5))

text \<open>The schedule in which the caller sleeps until the callback notifies it.\<close>

lemma run_to_notify:
  "reachable False \<lparr>done_flag = True, success_flag = b, mutex = None, caller = Asleep, callback = At_Notify b\<rparr>"
proof -
  have "reachable False \<lparr>done_flag = False, success_flag = False, mutex = Some Caller, caller = At_Pred, callback = Called b\<rparr>"
    using reachable.next_step [OF reachable.start step.put [where b = b]] by (simp add: start_state_def)
  from reachable.next_step [OF this step.report]
  have "reachable False \<lparr>done_flag = False, success_flag = b, mutex = Some Caller, caller = At_Pred, callback = At_Lock b\<rparr>"
    by (cases b) simp_all
  from reachable.next_step [OF this step.pred_false]
  have "reachable False \<lparr>done_flag = False, success_flag = b, mutex = None, caller = Asleep, callback = At_Lock b\<rparr>"
    by simp
  from reachable.next_step [OF this step.lock]
  have "reachable False \<lparr>done_flag = False, success_flag = b, mutex = Some Callback, caller = Asleep, callback = In_Lock b\<rparr>"
    by simp
  from reachable.next_step [OF this step.set_done]
  have "reachable False \<lparr>done_flag = True, success_flag = b, mutex = Some Callback, caller = Asleep, callback = Done_Set b\<rparr>"
    by simp
  from reachable.next_step [OF this step.unlock] show ?thesis by simp
qed

lemma run_done0_false:
  "reachable False \<lparr>done_flag = True, success_flag = b, mutex = None, caller = Returned b, callback = Finished b\<rparr>"
proof -
  from reachable.next_step [OF run_to_notify step.notify]
  have "reachable False \<lparr>done_flag = True, success_flag = b, mutex = None, caller = Woken, callback = Finished b\<rparr>"
    by simp
  from reachable.next_step [OF this step.relock]
  have "reachable False \<lparr>done_flag = True, success_flag = b, mutex = Some Caller, caller = At_Pred, callback = Finished b\<rparr>"
    by simp
  from reachable.next_step [OF this step.pred_true] show ?thesis by simp
qed

text \<open>With an initial \<open>done\<close> that is true: the predicate holds at once.\<close>

lemma run_early:
  "reachable True \<lparr>done_flag = True, success_flag = False, mutex = None, caller = Returned False, callback = Called b\<rparr>"
proof -
  have "reachable True \<lparr>done_flag = True, success_flag = False, mutex = Some Caller, caller = At_Pred, callback = Called b\<rparr>"
    using reachable.next_step [OF reachable.start step.put [where b = b]] by (simp add: start_state_def)
  from reachable.next_step [OF this step.pred_true] show ?thesis by simp
qed

lemma run_late:
  "reachable True \<lparr>done_flag = True, success_flag = b, mutex = None, caller = Returned b, callback = At_Lock b\<rparr>"
proof -
  have "reachable True \<lparr>done_flag = True, success_flag = False, mutex = Some Caller, caller = At_Pred, callback = Called b\<rparr>"
    using reachable.next_step [OF reachable.start step.put [where b = b]] by (simp add: start_state_def)
  from reachable.next_step [OF this step.report]
  have "reachable True \<lparr>done_flag = True, success_flag = b, mutex = Some Caller, caller = At_Pred, callback = At_Lock b\<rparr>"
    by (cases b) simp_all
  from reachable.next_step [OF this step.pred_true] show ?thesis by simp
qed

lemma run_early_finished:
  "reachable True \<lparr>done_flag = True, success_flag = b, mutex = None, caller = Returned False, callback = Finished b\<rparr>"
proof -
  from reachable.next_step [OF run_early [of b] step.report]
  have "reachable True \<lparr>done_flag = True, success_flag = b, mutex = None, caller = Returned False, callback = At_Lock b\<rparr>"
    by (cases b) simp_all
  from reachable.next_step [OF this step.lock]
  have "reachable True \<lparr>done_flag = True, success_flag = b, mutex = Some Callback, caller = Returned False, callback = In_Lock b\<rparr>"
    by simp
  from reachable.next_step [OF this step.set_done]
  have "reachable True \<lparr>done_flag = True, success_flag = b, mutex = Some Callback, caller = Returned False, callback = Done_Set b\<rparr>"
    by simp
  from reachable.next_step [OF this step.unlock]
  have "reachable True \<lparr>done_flag = True, success_flag = b, mutex = None, caller = Returned False, callback = At_Notify b\<rparr>"
    by simp
  from reachable.next_step [OF this step.notify] show ?thesis by simp
qed

section \<open>Properties\<close>

text \<open>
  C15. If \<open>done\<close> starts false, the caller returns only after the callback has run its critical
  section, and what it returns is the flag the callback was given; this holds for every schedule
  and every number of spurious wake-ups.
\<close>

theorem paste_waits_for_callback:
  assumes "reachable False s" and "caller s = Returned r"
  shows "has_set_done (callback s) \<and> callback_result (callback s) = Some r"
  using reachable_inv [OF assms(1)] assms(2) by (auto simp: blocking_inv_def)

theorem paste_waits_for_callback_witness:
  "has_set_done (Finished True) \<and> callback_result (Finished True) = Some True"
  using paste_waits_for_callback [OF run_done0_false [of True], of True] by simp

text \<open>
  C22. The source leaves \<open>done\<close> uninitialised. If the memory holds a true value, the wait ends
  before the callback has run: the caller can return \<open>false\<close> for a put that succeeds, and the
  callback then still has to write \<open>success_\<close> and \<open>done\<close>, lock and notify, through references to
  variables of a frame that is gone.
\<close>

theorem uninitialised_done_returns_early:
  "(\<exists>s. reachable True s \<and> caller s = Returned False \<and> callback s = Called True) \<and>
   (\<exists>s. reachable True s \<and> caller s = Returned False \<and> callback s = Finished True)"
  using reachable_pcs [OF run_early [of True]] reachable_pcs [OF run_early_finished [of True]] by blast

text \<open>
  C16. No deadlock and no lost wake-up, whatever \<open>done\<close> starts with: from a reachable state at most
  32 steps other than spurious wake-ups can be made, and when no such step is left the caller has
  returned and the callback has finished.
\<close>

theorem paste_terminates:
  assumes "reachable done0 s" and "(step True ^^ n) s t"
  shows "n \<le> 32 \<and> ((\<exists>u. step True t u) \<or> (\<exists>r b. caller t = Returned r \<and> callback t = Finished b))"
proof
  have "caller_rank (caller s) \<le> 4" by (cases "caller s") auto
  moreover have "callback_rank (callback s) \<le> 7" by (cases "callback s") auto
  ultimately have "work_left s \<le> 32" by (simp add: work_left_def)
  with steps_bound [OF assms(2,1)] show "n \<le> 32" by simp
  have "reachable done0 t" by (rule reachable_steps [OF assms(2,1)])
  then show "(\<exists>u. step True t u) \<or> (\<exists>r b. caller t = Returned r \<and> callback t = Finished b)"
    using stuck_is_final [OF reachable_inv] by blast
qed

theorem paste_terminates_witness:
  "(\<exists>u. step True (start_state False) u) \<or>
   (\<exists>r b. caller (start_state False) = Returned r \<and> callback (start_state False) = Finished b)"
  using paste_terminates [OF reachable.start [of False], of 0 "start_state False"] by simp

text \<open>
  C9. The function \<open>blocking_result\<close> that the model of \<open>paste\<close> uses is the set of outcomes of the
  two threads: a value can be returned when the callback is given \<open>b\<close> exactly if it is
  \<open>blocking_result done0 early b\<close> for one of the two orders.
\<close>

theorem blocking_result_refines:
  "(\<exists>s. reachable done0 s \<and> caller s = Returned r \<and> callback_result (callback s) = Some b) \<longleftrightarrow>
     (\<exists>early. r = blocking_result done0 early b)"
proof
  assume "\<exists>s. reachable done0 s \<and> caller s = Returned r \<and> callback_result (callback s) = Some b"
  then obtain s where s: "reachable done0 s" "caller s = Returned r" "callback_result (callback s) = Some b"
    by blast
  then have "if done0 then r = b \<or> \<not> r else r = b"
    using reachable_inv [OF s(1)] by (auto simp: blocking_inv_def split: if_splits)
  then show "\<exists>early. r = blocking_result done0 early b"
    by (cases done0; cases r; cases b) (auto simp: blocking_result_def)
next
  assume "\<exists>early. r = blocking_result done0 early b"
  then obtain early where r: "r = blocking_result done0 early b" by blast
  show "\<exists>s. reachable done0 s \<and> caller s = Returned r \<and> callback_result (callback s) = Some b"
  proof (cases done0)
    case False
    with r reachable_pcs [OF run_done0_false [of b]] show ?thesis
      by (auto simp: blocking_result_def)
  next
    case True
    have "\<exists>s. reachable True s \<and> caller s = Returned False \<and> callback_result (callback s) = Some b"
      and "\<exists>s. reachable True s \<and> caller s = Returned b \<and> callback_result (callback s) = Some b"
      using reachable_pcs [OF run_early [of b]] reachable_pcs [OF run_late [of b]]
      by (metis callback_result.simps(2), metis callback_result.simps(3))
    with True r show ?thesis by (cases early) (simp_all add: blocking_result_def)
  qed
qed

text \<open>
  C23. Even when \<open>done\<close> starts false the frame can go too early: the callback notifies after it has
  left the scope of the lock, and by then the caller may have seen \<open>done\<close> and returned, so that
  \<open>cv.notify_all()\<close> is called on a condition variable that has been destroyed.
\<close>

theorem notify_after_return:
  "\<exists>s. reachable False s \<and> caller s = Returned b \<and> callback s = At_Notify b"
proof -
  from reachable.next_step [OF run_to_notify step.spurious]
  have "reachable False \<lparr>done_flag = True, success_flag = b, mutex = None, caller = Woken, callback = At_Notify b\<rparr>"
    by simp
  from reachable.next_step [OF this step.relock]
  have "reachable False \<lparr>done_flag = True, success_flag = b, mutex = Some Caller, caller = At_Pred, callback = At_Notify b\<rparr>"
    by simp
  from reachable.next_step [OF this step.pred_true]
  have "reachable False \<lparr>done_flag = True, success_flag = b, mutex = None, caller = Returned b, callback = At_Notify b\<rparr>"
    by simp
  then show ?thesis by (rule reachable_pcs)
qed

end
