(* ===== verification/Node_Stop.thy ===== *)
theory Node_Stop
  imports Node
begin

text \<open>
  \<open>Node::stop\<close> (\<open>src/node.h\<close>) as two threads: the caller, which asks the DHT runner to shut down,
  waits for the shutdown callback and joins the runner's thread, and that thread, which calls the
  callback. The library is relied on to call the callback, after \<open>shutdown\<close> has been called; it may do
  so before the caller has taken the mutex.

  Other than in \<open>Node::paste\<close> (\<open>Node_Blocking\<close>) the flag has an initial value, and the callback notifies
  while it holds the mutex. What follows from the two differences is shown here: the variables of
  the caller's frame are never used after the caller has left.
\<close>

section \<open>The two threads\<close>

datatype stop_pc =
    At_Shutdown \<comment> \<open>about to call \<open>node_.shutdown\<close>\<close>
  | At_Mutex \<comment> \<open>about to take the mutex for the wait\<close>
  | At_Check \<comment> \<open>holds the mutex, evaluates the predicate of \<open>cv.wait\<close>\<close>
  | In_Wait \<comment> \<open>blocked in \<open>cv.wait\<close>, the mutex released\<close>
  | Unblocked \<comment> \<open>has to take the mutex again\<close>
  | At_Join \<comment> \<open>the wait is over; the mutex stays locked to the end of the scope\<close>
  | Joined
  | Left

datatype shutdown_pc =
    Not_Asked
  | Entered
  | Guarded \<comment> \<open>inside the scope of the \<open>lock_guard\<close>\<close>
  | Flag_Set
  | Notified \<comment> \<open>still inside that scope\<close>
  | Ended

datatype stop_thread = Stopper | Runner

record stopping =
  st_done :: bool
  st_mutex :: "stop_thread option"
  st_caller :: stop_pc
  st_callback :: shutdown_pc
  st_running :: bool
  st_events :: "event list"

definition stop_start :: "bool \<Rightarrow> event list \<Rightarrow> stopping" where
  "stop_start active tr = \<lparr>st_done = False, st_mutex = None, st_caller = At_Shutdown,
     st_callback = Not_Asked, st_running = active, st_events = tr\<rparr>"

text \<open>The flag is false for a spurious wake-up. \<open>node_.join()\<close> waits for the thread of the callback.\<close>

inductive stop_step :: "bool \<Rightarrow> stopping \<Rightarrow> stopping \<Rightarrow> bool" where
  shutdown: "st_caller s = At_Shutdown \<Longrightarrow>
     stop_step True s (s\<lparr>st_caller := At_Mutex, st_callback := Entered, st_events := st_events s @ [Dht_Shutdown]\<rparr>)"
| take_mutex: "st_caller s = At_Mutex \<Longrightarrow> st_mutex s = None \<Longrightarrow>
     stop_step True s (s\<lparr>st_caller := At_Check, st_mutex := Some Stopper\<rparr>)"
| check_true: "st_caller s = At_Check \<Longrightarrow> st_done s \<Longrightarrow> stop_step True s (s\<lparr>st_caller := At_Join\<rparr>)"
| check_false: "st_caller s = At_Check \<Longrightarrow> \<not> st_done s \<Longrightarrow>
     stop_step True s (s\<lparr>st_caller := In_Wait, st_mutex := None\<rparr>)"
| unblock: "st_caller s = In_Wait \<Longrightarrow> stop_step False s (s\<lparr>st_caller := Unblocked\<rparr>)"
| retake: "st_caller s = Unblocked \<Longrightarrow> st_mutex s = None \<Longrightarrow>
     stop_step True s (s\<lparr>st_caller := At_Check, st_mutex := Some Stopper\<rparr>)"
| join: "st_caller s = At_Join \<Longrightarrow> st_callback s = Ended \<Longrightarrow>
     stop_step True s (s\<lparr>st_caller := Joined, st_events := st_events s @ [Dht_Join]\<rparr>)"
| leave: "st_caller s = Joined \<Longrightarrow>
     stop_step True s (s\<lparr>st_caller := Left, st_running := False, st_mutex := None\<rparr>)"
| guard: "st_callback s = Entered \<Longrightarrow> st_mutex s = None \<Longrightarrow>
     stop_step True s (s\<lparr>st_callback := Guarded, st_mutex := Some Runner\<rparr>)"
| set_flag: "st_callback s = Guarded \<Longrightarrow> stop_step True s (s\<lparr>st_callback := Flag_Set, st_done := True\<rparr>)"
| notify_all: "st_callback s = Flag_Set \<Longrightarrow>
     stop_step True s (s\<lparr>st_callback := Notified,
       st_caller := (if st_caller s = In_Wait then Unblocked else st_caller s)\<rparr>)"
| unguard: "st_callback s = Notified \<Longrightarrow> stop_step True s (s\<lparr>st_callback := Ended, st_mutex := None\<rparr>)"

inductive_cases stop_stepE: "stop_step q s t"

inductive stop_reachable :: "stopping \<Rightarrow> stopping \<Rightarrow> bool" for s0 where
  stop_begin: "stop_reachable s0 s0"
| stop_next: "stop_reachable s0 s \<Longrightarrow> stop_step q s t \<Longrightarrow> stop_reachable s0 t"

section \<open>The invariant\<close>

definition events_so_far :: "stop_pc \<Rightarrow> event list" where
  "events_so_far p = (case p of At_Shutdown \<Rightarrow> [] | Joined \<Rightarrow> [Dht_Shutdown, Dht_Join]
     | Left \<Rightarrow> [Dht_Shutdown, Dht_Join] | _ \<Rightarrow> [Dht_Shutdown])"

definition stop_inv :: "bool \<Rightarrow> event list \<Rightarrow> stopping \<Rightarrow> bool" where
  "stop_inv active tr s \<longleftrightarrow>
     (st_done s \<longleftrightarrow> st_callback s \<in> {Flag_Set, Notified, Ended}) \<and>
     (st_mutex s = Some Stopper \<longleftrightarrow> st_caller s \<in> {At_Check, At_Join, Joined}) \<and>
     (st_mutex s = Some Runner \<longleftrightarrow> st_callback s \<in> {Guarded, Flag_Set, Notified}) \<and>
     (st_callback s = Not_Asked \<longleftrightarrow> st_caller s = At_Shutdown) \<and>
     (st_caller s = In_Wait \<longrightarrow> st_callback s \<notin> {Notified, Ended}) \<and>
     (st_caller s \<in> {At_Join, Joined, Left} \<longrightarrow> st_callback s = Ended) \<and>
     st_running s = (st_caller s \<noteq> Left \<and> active) \<and>
     st_events s = tr @ events_so_far (st_caller s)"

lemma stop_inv_start: "stop_inv active tr (stop_start active tr)"
  by (simp add: stop_inv_def stop_start_def events_so_far_def)

lemma stop_step_inv: "stop_step q s t \<Longrightarrow> stop_inv active tr s \<Longrightarrow> stop_inv active tr t"
  by (induction rule: stop_step.induct)
    (auto simp: stop_inv_def events_so_far_def split: if_splits)

lemma stop_reachable_inv: "stop_reachable (stop_start active tr) s \<Longrightarrow> stop_inv active tr s"
  by (induction rule: stop_reachable.induct) (auto intro: stop_inv_start stop_step_inv)

section \<open>Progress and termination\<close>

fun shutdown_rank :: "shutdown_pc \<Rightarrow> nat" where
  "shutdown_rank Not_Asked = 5"
| "shutdown_rank Entered = 4"
| "shutdown_rank Guarded = 3"
| "shutdown_rank Flag_Set = 2"
| "shutdown_rank Notified = 1"
| "shutdown_rank Ended = 0"

fun stop_rank :: "stop_pc \<Rightarrow> nat" where
  "stop_rank At_Shutdown = 7"
| "stop_rank At_Mutex = 6"
| "stop_rank Unblocked = 5"
| "stop_rank At_Check = 4"
| "stop_rank In_Wait = 3"
| "stop_rank At_Join = 2"
| "stop_rank Joined = 1"
| "stop_rank Left = 0"

definition stop_work :: "stopping \<Rightarrow> nat" where
  "stop_work s = 3 * shutdown_rank (st_callback s) + stop_rank (st_caller s)"

lemma stop_step_decreases:
  "stop_step q s t \<Longrightarrow> q \<Longrightarrow> stop_inv active tr s \<Longrightarrow> stop_work t < stop_work s"
  by (induction rule: stop_step.induct) (auto simp: stop_work_def stop_inv_def)

lemma stop_stuck_final:
  assumes i: "stop_inv active tr s" and stuck: "\<nexists>t. stop_step True s t"
  shows "st_caller s = Left"
proof -
  have cb: "st_callback s \<noteq> Guarded" "st_callback s \<noteq> Flag_Set" "st_callback s \<noteq> Notified"
    using stuck stop_step.set_flag [of s] stop_step.notify_all [of s] stop_step.unguard [of s] by blast+
  have cl: "st_caller s \<noteq> At_Shutdown" "st_caller s \<noteq> At_Check" "st_caller s \<noteq> Joined"
    using stuck stop_step.shutdown [of s] stop_step.check_true [of s] stop_step.check_false [of s]
      stop_step.leave [of s] by blast+
  have m: "st_mutex s = None" if "st_caller s \<noteq> At_Join"
  proof (cases "st_mutex s")
    case (Some th)
    then show ?thesis using i cb cl that by (cases th) (auto simp: stop_inv_def)
  qed
  have "st_callback s \<noteq> Entered"
  proof
    assume e: "st_callback s = Entered"
    then have "st_caller s \<noteq> At_Join" using i by (auto simp: stop_inv_def)
    with e m stop_step.guard [of s] stuck show False by blast
  qed
  then have e: "st_callback s = Ended"
    using cb cl i by (cases "st_callback s") (auto simp: stop_inv_def)
  show ?thesis
  proof (cases "st_caller s")
    case At_Join
    with e stuck stop_step.join [of s] show ?thesis by blast
  next
    case In_Wait
    with e i show ?thesis by (simp add: stop_inv_def)
  next
    case At_Mutex
    with m stop_step.take_mutex [of s] stuck show ?thesis by simp
  next
    case Unblocked
    with m stop_step.retake [of s] stuck show ?thesis by simp
  qed (use cl in simp_all)
qed

lemma stop_reachable_steps:
  "(stop_step True ^^ n) s t \<Longrightarrow> stop_reachable s0 s \<Longrightarrow> stop_reachable s0 t"
  by (induction n arbitrary: t) (auto intro: stop_reachable.stop_next)

lemma stop_steps_bound:
  "(stop_step True ^^ n) s t \<Longrightarrow> stop_reachable (stop_start active tr) s \<Longrightarrow> n + stop_work t \<le> stop_work s"
proof (induction n arbitrary: t)
  case 0
  then show ?case by simp
next
  case (Suc n)
  then obtain u where u: "(stop_step True ^^ n) s u" "stop_step True u t" by auto
  then have "stop_inv active tr u"
    using stop_reachable_inv stop_reachable_steps Suc.prems(2) by blast
  with u Suc stop_step_decreases [of True u t active tr] show ?case by fastforce
qed

section \<open>A run in which the caller sleeps\<close>

lemma stop_run_left:
  "stop_reachable (stop_start r tr) \<lparr>st_done = True, st_mutex = None, st_caller = Left, st_callback = Ended,
     st_running = False, st_events = tr @ [Dht_Shutdown, Dht_Join]\<rparr>"
proof -
  note next_step = stop_reachable.stop_next
  have "stop_reachable (stop_start r tr) (stop_start r tr)" by (rule stop_reachable.stop_begin)
  from next_step [OF this stop_step.shutdown] have
    "stop_reachable (stop_start r tr) \<lparr>st_done = False, st_mutex = None, st_caller = At_Mutex,
       st_callback = Entered, st_running = r, st_events = tr @ [Dht_Shutdown]\<rparr>"
    by (simp add: stop_start_def)
  from next_step [OF this stop_step.take_mutex] have
    "stop_reachable (stop_start r tr) \<lparr>st_done = False, st_mutex = Some Stopper, st_caller = At_Check,
       st_callback = Entered, st_running = r, st_events = tr @ [Dht_Shutdown]\<rparr>" by simp
  from next_step [OF this stop_step.check_false] have
    "stop_reachable (stop_start r tr) \<lparr>st_done = False, st_mutex = None, st_caller = In_Wait,
       st_callback = Entered, st_running = r, st_events = tr @ [Dht_Shutdown]\<rparr>" by simp
  from next_step [OF this stop_step.guard] have
    "stop_reachable (stop_start r tr) \<lparr>st_done = False, st_mutex = Some Runner, st_caller = In_Wait,
       st_callback = Guarded, st_running = r, st_events = tr @ [Dht_Shutdown]\<rparr>" by simp
  from next_step [OF this stop_step.set_flag] have
    "stop_reachable (stop_start r tr) \<lparr>st_done = True, st_mutex = Some Runner, st_caller = In_Wait,
       st_callback = Flag_Set, st_running = r, st_events = tr @ [Dht_Shutdown]\<rparr>" by simp
  from next_step [OF this stop_step.notify_all] have
    "stop_reachable (stop_start r tr) \<lparr>st_done = True, st_mutex = Some Runner, st_caller = Unblocked,
       st_callback = Notified, st_running = r, st_events = tr @ [Dht_Shutdown]\<rparr>" by simp
  from next_step [OF this stop_step.unguard] have
    "stop_reachable (stop_start r tr) \<lparr>st_done = True, st_mutex = None, st_caller = Unblocked,
       st_callback = Ended, st_running = r, st_events = tr @ [Dht_Shutdown]\<rparr>" by simp
  from next_step [OF this stop_step.retake] have
    "stop_reachable (stop_start r tr) \<lparr>st_done = True, st_mutex = Some Stopper, st_caller = At_Check,
       st_callback = Ended, st_running = r, st_events = tr @ [Dht_Shutdown]\<rparr>" by simp
  from next_step [OF this stop_step.check_true] have
    "stop_reachable (stop_start r tr) \<lparr>st_done = True, st_mutex = Some Stopper, st_caller = At_Join,
       st_callback = Ended, st_running = r, st_events = tr @ [Dht_Shutdown]\<rparr>" by simp
  from next_step [OF this stop_step.join] have
    "stop_reachable (stop_start r tr) \<lparr>st_done = True, st_mutex = Some Stopper, st_caller = Joined,
       st_callback = Ended, st_running = r, st_events = tr @ [Dht_Shutdown, Dht_Join]\<rparr>" by simp
  from next_step [OF this stop_step.leave] show ?thesis by simp
qed

section \<open>Properties\<close>

text \<open>
  C17. \<open>stop\<close> under every schedule does what the sequential model does: the states in which the
  caller has left are reachable, and in each of them the runner was told to shut down and then
  joined, and the node is not running; the callback has left its critical section by then, so the
  mutex, the condition variable and the flag of the caller's frame are not used any more (which
  fails for \<open>paste\<close>).
\<close>

theorem stop_refines:
  "(\<exists>s. stop_reachable (stop_start (running n) (trace w)) s \<and> st_caller s = Left) \<and>
   (\<forall>s \<in> {s. stop_reachable (stop_start (running n) (trace w)) s \<and> st_caller s = Left}.
      st_callback s = Ended \<and>
      (\<exists>w'. stop n w = (Inr (n\<lparr>running := st_running s\<rparr>), w') \<and> trace w' = st_events s))"
proof
  show "\<exists>s. stop_reachable (stop_start (running n) (trace w)) s \<and> st_caller s = Left"
    using stop_run_left [of "running n" "trace w"] by (metis stopping.select_convs(3))
  show "\<forall>s \<in> {s. stop_reachable (stop_start (running n) (trace w)) s \<and> st_caller s = Left}.
      st_callback s = Ended \<and>
      (\<exists>w'. stop n w = (Inr (n\<lparr>running := st_running s\<rparr>), w') \<and> trace w' = st_events s)"
  proof
    fix s
    assume "s \<in> {s. stop_reachable (stop_start (running n) (trace w)) s \<and> st_caller s = Left}"
    then have "stop_inv (running n) (trace w) s" and "st_caller s = Left"
      by (auto dest: stop_reachable_inv)
    then have "st_callback s = Ended" "st_running s = False" "st_events s = trace w @ [Dht_Shutdown, Dht_Join]"
      by (auto simp: stop_inv_def events_so_far_def)
    then show "st_callback s = Ended \<and>
      (\<exists>w'. stop n w = (Inr (n\<lparr>running := st_running s\<rparr>), w') \<and> trace w' = st_events s)"
      by (simp add: stop_def run_then_Inr run_emit run_return)
  qed
qed

theorem stop_refines_witness:
  "\<exists>s. stop_reachable (stop_start True []) s \<and> st_caller s = Left \<and> st_callback s = Ended \<and>
     st_events s = [Dht_Shutdown, Dht_Join]"
proof -
  let ?s = "\<lparr>st_done = True, st_mutex = None, st_caller = Left, st_callback = Ended,
     st_running = False, st_events = [Dht_Shutdown, Dht_Join]\<rparr>"
  have r: "stop_reachable (stop_start (running \<lparr>running = True\<rparr>) (trace init_world)) ?s"
    using stop_run_left [of True "[]"] by (simp add: init_world_def)
  then have "?s \<in> {s. stop_reachable (stop_start (running \<lparr>running = True\<rparr>) (trace init_world)) s \<and> st_caller s = Left}"
    by simp
  with stop_refines [of "\<lparr>running = True\<rparr>" init_world] have "st_callback ?s = Ended" by blast
  with r show ?thesis by (intro exI [of _ ?s]) (simp add: init_world_def)
qed

text \<open>
  C18. \<open>stop\<close> terminates: from a reachable state at most 22 steps other than spurious wake-ups can be
  made, and when none is left the caller has left; no wake-up is lost, and joining with the mutex
  held does not block, because the callback has let go of it.
\<close>

theorem stop_terminates:
  assumes "stop_reachable (stop_start r tr) s" and "(stop_step True ^^ n) s t"
  shows "n \<le> 22 \<and> ((\<exists>u. stop_step True t u) \<or> st_caller t = Left)"
proof
  have "stop_rank (st_caller s) \<le> 7" by (cases "st_caller s") auto
  moreover have "shutdown_rank (st_callback s) \<le> 5" by (cases "st_callback s") auto
  ultimately have "stop_work s \<le> 22" by (simp add: stop_work_def)
  with stop_steps_bound [OF assms(2,1)] show "n \<le> 22" by simp
  have "stop_reachable (stop_start r tr) t" by (rule stop_reachable_steps [OF assms(2,1)])
  then show "(\<exists>u. stop_step True t u) \<or> st_caller t = Left"
    using stop_stuck_final [OF stop_reachable_inv] by blast
qed

theorem stop_terminates_witness:
  "(\<exists>u. stop_step True (stop_start True []) u) \<or> st_caller (stop_start True []) = Left"
  using stop_terminates [OF stop_reachable.stop_begin [of "stop_start True []"], of 0 "stop_start True []"] by simp

end
