(* ===== verification/Store_Session.thy ===== *)
theory Store_Session
  imports Bin
begin

text \<open>
  Sessions on a store: any sequence of puts and gets, each by a process of its own, against an
  abstract specification. The specification keeps one slot per code; the store refines it as long as
  the hashes of the codes in use differ. The refinement is proved once in a locale that extends
  \<open>blob_store\<close> by the frame laws, and holds for the transport of \<open>Bin\<close> by its interpretation.
\<close>

section \<open>Operations and their results\<close>

datatype store_op = Put string bytes | Get string

datatype store_res = Put_Done bool | Got "bytes option"

fun op_code :: "store_op \<Rightarrow> string" where
  "op_code (Put c d) = c"
| "op_code (Get c) = c"

fun run_op :: "('env \<Rightarrow> string \<Rightarrow> bytes \<Rightarrow> bool proc) \<Rightarrow> ('env \<Rightarrow> string \<Rightarrow> bytes option proc) \<Rightarrow>
    'env \<Rightarrow> store_op \<Rightarrow> store_res proc" where
  "run_op put get e (Put c d) = bindP (put e c d) (\<lambda>ok. returnP (Put_Done ok))"
| "run_op put get e (Get c) = bindP (get e c) (\<lambda>r. returnP (Got r))"

fun run_ops :: "('env \<Rightarrow> string \<Rightarrow> bytes \<Rightarrow> bool proc) \<Rightarrow> ('env \<Rightarrow> string \<Rightarrow> bytes option proc) \<Rightarrow>
    ('env \<times> store_op) list \<Rightarrow> store_res list proc" where
  "run_ops put get [] = returnP []"
| "run_ops put get ((e, p) # ps) =
     bindP (run_op put get e p) (\<lambda>r. bindP (run_ops put get ps) (\<lambda>rs. returnP (r # rs)))"

section \<open>The specification\<close>

text \<open>
  A slot is \<open>Fresh\<close> while nothing was put under its code, \<open>Full d\<close> after one put of \<open>d\<close> that was
  confirmed, and \<open>Unclear\<close> after a put that was not, or after a second one: then a get may find
  anything. \<open>spec_op\<close> gives the next state, or nothing when the result is not allowed.
\<close>

datatype slot = Fresh | Full bytes | Unclear

type_synonym spec_state = "string \<Rightarrow> slot"

fun spec_op :: "spec_state \<Rightarrow> store_op \<Rightarrow> store_res \<Rightarrow> spec_state option" where
  "spec_op m (Put c d) (Put_Done ok) =
     Some (m(c := if m c = Fresh \<and> d \<noteq> [] \<and> ok then Full d else Unclear))"
| "spec_op m (Get c) (Got r) =
     (case m c of
        Fresh \<Rightarrow> if r = None then Some m else None
      | Full d \<Rightarrow> if r = Some d then Some m else None
      | Unclear \<Rightarrow> Some m)"
| "spec_op m p r = None"

fun spec_ops :: "spec_state \<Rightarrow> store_op list \<Rightarrow> store_res list \<Rightarrow> spec_state option" where
  "spec_ops m [] [] = Some m"
| "spec_ops m (p # ps) (r # rs) = Option.bind (spec_op m p r) (\<lambda>m'. spec_ops m' ps rs)"
| "spec_ops m ps rs = None"

text \<open>The slots of the codes \<open>C\<close> say what a store holds.\<close>

definition agrees :: "(world \<Rightarrow> string \<Rightarrow> bool) \<Rightarrow> (world \<Rightarrow> string \<Rightarrow> bytes \<Rightarrow> bool) \<Rightarrow>
    string set \<Rightarrow> world \<Rightarrow> spec_state \<Rightarrow> bool" where
  "agrees free holds C w m \<longleftrightarrow> (\<forall>c \<in> C. (m c = Fresh \<longrightarrow> free w c) \<and> (\<forall>d. m c = Full d \<longrightarrow> holds w c d))"

section \<open>Stores with a frame\<close>

locale framed_store = blob_store put_blob get_first env_ok free holds
  for put_blob :: "'env \<Rightarrow> string \<Rightarrow> bytes \<Rightarrow> bool proc"
    and get_first :: "'env \<Rightarrow> string \<Rightarrow> bytes option proc"
    and env_ok :: "'env \<Rightarrow> bool"
    and free :: "'env \<Rightarrow> world \<Rightarrow> string \<Rightarrow> bool"
    and holds :: "'env \<Rightarrow> world \<Rightarrow> string \<Rightarrow> bytes \<Rightarrow> bool" +
  fixes apart :: "'env \<Rightarrow> string \<Rightarrow> string \<Rightarrow> bool"
    and alike :: "'env \<Rightarrow> 'env \<Rightarrow> bool"
  assumes put_total: "env_ok e \<Longrightarrow> \<exists>ok w'. put_blob e c d w = (Inr ok, w')"
    and get_total: "env_ok e \<Longrightarrow> \<exists>x w'. get_first e c w = (Inr x, w')"
    and get_free: "\<lbrakk>env_ok e; free e w c; get_first e c w = (q, w')\<rbrakk> \<Longrightarrow> q = Inr None"
    and put_frame: "\<lbrakk>apart e c c'; put_blob e c d w = (r, w')\<rbrakk> \<Longrightarrow>
      free e w' c' = free e w c' \<and> holds e w' c' = holds e w c'"
    and get_frame: "get_first e c w = (q, w') \<Longrightarrow> free e w' = free e w \<and> holds e w' = holds e w"
    and alike_same: "alike e e' \<Longrightarrow> free e = free e' \<and> holds e = holds e' \<and> apart e = apart e'"
begin

lemma agrees_put:
  assumes ok: "env_ok e" and c: "c \<in> C" and ap: "\<forall>c \<in> C. \<forall>c' \<in> C. c \<noteq> c' \<longrightarrow> apart e c c'"
    and ag: "agrees (free e) (holds e) C w m" and put: "put_blob e c d w = (Inr r, w')"
  shows "agrees (free e) (holds e) C w' (m(c := if m c = Fresh \<and> d \<noteq> [] \<and> r then Full d else Unclear))"
  unfolding agrees_def
proof
  fix c'
  assume c': "c' \<in> C"
  let ?m = "m(c := if m c = Fresh \<and> d \<noteq> [] \<and> r then Full d else Unclear)"
  show "(?m c' = Fresh \<longrightarrow> free e w' c') \<and> (\<forall>d'. ?m c' = Full d' \<longrightarrow> holds e w' c' d')"
  proof (cases "c' = c")
    case True
    have h: "holds e w' c d" if "m c = Fresh" "d \<noteq> []" "r"
    proof (rule put_holds [OF ok _ that(2)])
      show "free e w c" using ag c that(1) by (simp add: agrees_def)
      show "put_blob e c d w = (Inr True, w')" using put that(3) by simp
    qed
    show ?thesis
    proof (cases "m c = Fresh \<and> d \<noteq> [] \<and> r")
      case True
      with h have "holds e w' c d" by blast
      with \<open>c' = c\<close> True show ?thesis by simp
    next
      case False
      then show ?thesis unfolding \<open>c' = c\<close> by (simp only: fun_upd_same if_False) simp
    qed
  next
    case False
    then have "apart e c c'" using bspec [OF bspec [OF ap c] c'] by simp
    from put_frame [OF this put] have f: "free e w' c' = free e w c'" "holds e w' c' = holds e w c'"
      by simp_all
    have "(m c' = Fresh \<longrightarrow> free e w c') \<and> (\<forall>d'. m c' = Full d' \<longrightarrow> holds e w c' d')"
      using ag c' by (simp add: agrees_def)
    with False show ?thesis by (simp add: f)
  qed
qed

lemma op_refines:
  assumes ok: "env_ok e" and c: "op_code p \<in> C" and ap: "\<forall>c \<in> C. \<forall>c' \<in> C. c \<noteq> c' \<longrightarrow> apart e c c'"
    and ag: "agrees (free e) (holds e) C w m"
  shows "\<exists>r w' m'. run_op put_blob get_first e p w = (Inr r, w') \<and> spec_op m p r = Some m' \<and> agrees (free e) (holds e) C w' m'"
proof (cases p)
  case (Put c d)
  obtain r w' where put: "put_blob e c d w = (Inr r, w')" using put_total [OF ok] by blast
  with agrees_put [OF ok _ ap ag put] c Put show ?thesis by (auto simp: run_bind_Inr run_return)
next
  case (Get c)
  obtain r w' where get: "get_first e c w = (Inr r, w')" using get_total [OF ok] by blast
  have "agrees (free e) (holds e) C w' m" using ag get_frame [OF get] by (simp add: agrees_def)
  moreover have "spec_op m (Get c) (Got r) = Some m"
  proof (cases "m c")
    case Fresh
    then have "free e w c" using ag c Get by (simp add: agrees_def)
    with get_free [OF ok _ get] Fresh show ?thesis by simp
  next
    case (Full d)
    then have "holds e w c d" using ag c Get by (simp add: agrees_def)
    with get_holds [OF ok this] get Full show ?thesis by auto
  qed simp
  ultimately show ?thesis using Get get by (simp add: run_bind_Inr run_return)
qed

lemma session_refines:
  assumes "\<forall>(e, p) \<in> set ps. env_ok e \<and> alike e e0 \<and> op_code p \<in> C"
    and "\<forall>c \<in> C. \<forall>c' \<in> C. c \<noteq> c' \<longrightarrow> apart e0 c c'" and "agrees (free e0) (holds e0) C w m"
  shows "\<exists>rs w' m'. run_ops put_blob get_first ps w = (Inr rs, w') \<and>
     spec_ops m (map snd ps) rs = Some m' \<and> agrees (free e0) (holds e0) C w' m'"
  using assms
proof (induction ps arbitrary: w m)
  case Nil
  then show ?case by (simp add: run_return)
next
  case (Cons ep ps)
  obtain e p where ep: "ep = (e, p)" by (cases ep)
  have e: "env_ok e" "alike e e0" "op_code p \<in> C" using Cons.prems(1) ep by auto
  have ap: "\<forall>c \<in> C. \<forall>c' \<in> C. c \<noteq> c' \<longrightarrow> apart e c c'"
    using Cons.prems(2) alike_same [OF e(2)] by simp
  have "agrees (free e) (holds e) C w m" using Cons.prems(3) alike_same [OF e(2)] by simp
  from op_refines [OF e(1,3) ap this] obtain r w1 m1 where
    1: "run_op put_blob get_first e p w = (Inr r, w1)" "spec_op m p r = Some m1" "agrees (free e0) (holds e0) C w1 m1"
    using alike_same [OF e(2)] by auto
  from Cons.IH [OF _ Cons.prems(2) 1(3)] Cons.prems(1) obtain rs w' m' where
    "run_ops put_blob get_first ps w1 = (Inr rs, w')" "spec_ops m1 (map snd ps) rs = Some m'" "agrees (free e0) (holds e0) C w' m'"
    by auto
  with 1 ep show ?case by (simp add: run_bind_Inr run_return)
qed

end

section \<open>The transport\<close>

definition transport_apart :: "libs \<Rightarrow> string \<Rightarrow> string \<Rightarrow> bool" where
  "transport_apart L c c' \<longleftrightarrow>
     infohash_toString (lib_dht L) (infohash_get (lib_dht L) c) \<noteq>
     infohash_toString (lib_dht L) (infohash_get (lib_dht L) c')"

lemma posted_other_url:
  "url \<noteq> url' \<Longrightarrow> posted url' port (Http_Perform (put_request url port' data) out) = None"
  by (simp add: posted_def put_request_def)

lemma send_blob_frame:
  assumes ap: "transport_apart L c c'" and send: "send_blob L J hc c d w = (r, w')"
  shows "transport_free L hc w' c' = transport_free L hc w c' \<and> transport_holds L hc w' c' = transport_holds L hc w c'"
proof -
  let ?D = "lib_dht L"
  have u: "http_url ?D hc c \<noteq> http_url ?D hc c'" and h: "infohash_get ?D c \<noteq> infohash_get ?D c'"
    using ap by (auto simp: transport_apart_def http_url_def)
  obtain es where w': "trace w' = trace w @ es" and es: "list_all (send_event L hc c d) es"
    using send_blob_log [OF send] by blast
  have "attempted (http_url ?D hc c') (hc_port hc) es = [] \<and> confirmed (http_url ?D hc c') (hc_port hc) es = [] \<and>
      dht_stored (infohash_get ?D c') ut es = []" for ut
    using es h by (induction es) (auto simp: send_event_def posted_other_url [OF u] split: event.splits)
  then have a: "attempted (http_url ?D hc c') (hc_port hc) (trace w') = attempted (http_url ?D hc c') (hc_port hc) (trace w)"
    and b: "confirmed (http_url ?D hc c') (hc_port hc) (trace w') = confirmed (http_url ?D hc c') (hc_port hc) (trace w)"
    and s: "dht_stored (infohash_get ?D c') ut (trace w') = dht_stored (infohash_get ?D c') ut (trace w)" for ut
    by (simp_all add: w')
  have f: "transport_free L hc w' c' = transport_free L hc w c'"
    by (simp add: transport_free_def http_free_def node_free_def a s)
  have "transport_holds L hc w' c' = transport_holds L hc w c'"
    by (rule ext) (simp add: transport_holds_def http_tried_def http_holds_def node_holds_def a b s)
  with f show ?thesis by simp
qed

lemma fetch_blob_events:
  assumes "fetch_blob L hc c w = (r, w')"
  shows "\<exists>es. list_all no_store es \<and> trace w' = trace w @ es"
proof -
  obtain es where "snd (fetch_blob L hc c w) = fold record_event es w" "list_all no_store es"
    using transport_events [of L undefined hc c undefined w]
  proof (elim exE conjE, goal_cases)
    case (1 out ok out')
    from 1(3) show ?case by (rule 1(1)) simp
  qed
  with assms show ?thesis by (auto simp del: fold_simps)
qed

lemma http_get_total:
  assumes "http_ok H" and "port_code H c \<noteq> Curl_Runtime_Error"
  shows "\<exists>s. fst (http_get D H c code w) = Inr s"
proof -
  let ?q = "get_request (http_url D c code) (hc_port c)"
  have curl: "curl_ok H" using assms(1) by (simp add: http_ok_def)
  obtain body where j: "json_ok H body" and
    "(\<exists>ds. http_perform H (trace w) ?q = Http_Response 200 (body ds)) \<or>
     (\<forall>b. http_perform H (trace w) ?q \<noteq> Http_Response 200 b)"
    using assms(1) unfolding http_ok_def by metis
  then show ?thesis
    using assms(2)
    by (auto simp: run_http_get Let_def decode_body_ok [OF j] request_setup_port [OF curl]
        split: http_outcome.split curl_code.split)
qed

text \<open>The environment in which every operation returns: libcurl does not refuse the port.\<close>

definition session_ok :: "libs \<Rightarrow> http_client \<Rightarrow> bool" where
  "session_ok L hc \<longleftrightarrow> transport_ok L \<and> port_code (lib_http L) hc \<noteq> Curl_Runtime_Error"

lemma session_okD:
  assumes "session_ok L hc"
  shows "transport_ok L" "http_ok (lib_http L)" "curl_ok (lib_http L)" "dht_ok (lib_dht L)"
    "port_code (lib_http L) hc \<noteq> Curl_Runtime_Error"
  using assms by (simp_all add: session_ok_def transport_ok_def http_ok_def)

lemma fetch_blob_total:
  assumes "session_ok L hc"
  shows "\<exists>d w'. fetch_blob L hc c w = (Inr d, w')"
proof -
  obtain s where s: "fst (http_get (lib_dht L) (lib_http L) hc c w) = Inr s"
    using http_get_total [OF session_okD(2,5) [OF assms]] by blast
  obtain w1 where "http_get (lib_dht L) (lib_http L) hc c w = (Inr s, w1)"
    by (metis s prod.collapse)
  then show ?thesis by (simp add: fetch_blob_def run_bind_Inr run_return run_get_blobs Let_def)
qed

lemma fetch_blob_free:
  assumes ok: "session_ok L hc" and free: "transport_free L hc w c" and get: "fetch_blob L hc c w = (r, w')"
  shows "r = Inr []"
proof -
  let ?D = "lib_dht L"
  note h = session_okD [OF ok]
  have "http_tried ?D hc w c []" using free by (simp add: transport_free_def http_free_def http_tried_def)
  then obtain w1 where g: "http_get ?D (lib_http L) hc c w = (Inr [], w1)"
    using http_get_tried [OF h(2,5)] by (cases "http_get ?D (lib_http L) hc c w") force
  then have "w1 \<in> get_traces ?D hc c w"
    using http_get_trace [of ?D "lib_http L" hc c w] by simp
  then have "set (dht_get ?D (trace w1) (infohash_get ?D c) DPASTE_USER_TYPE) = {}"
    using h(4) free by (auto simp: dht_ok_def transport_free_def node_free_def get_traces_def)
  then show ?thesis using get
    by (simp add: fetch_blob_def run_bind_Inr [where m = "http_get ?D (lib_http L) hc c", OF g] run_bind_Inr
        run_get_blobs run_return bytes_of_string_def)
qed

interpretation session: framed_store
  "\<lambda>(L, J, hc). send_blob L J hc"
  "\<lambda>(L, J, hc). fetch_first L hc"
  "\<lambda>(L, J, hc). session_ok L hc"
  "\<lambda>(L, J, hc). transport_free L hc"
  "\<lambda>(L, J, hc). transport_holds L hc"
  "\<lambda>(L, J, hc). transport_apart L"
  "\<lambda>(L, J, hc) (L', J', hc'). L = L' \<and> hc = hc'"
proof (unfold_locales, goal_cases)
  case (1 e w c d w')
  then show ?case by (cases e) (auto intro: send_blob_holds dest: session_okD(1))
next
  case (2 e w c d)
  then show ?case using transport.get_holds [of e w c d] by (cases e) (auto dest: session_okD(1))
next
  case (3 e c d w)
  then show ?case by (cases e) (simp add: send_blob_returns session_okD)
next
  case (4 e c w)
  obtain L J hc where e: "e = (L, J, hc)" by (cases e)
  with 4 obtain d w' where "fetch_blob L hc c w = (Inr d, w')"
    using fetch_blob_total [of L hc c w] by auto
  with e show ?case by (simp add: fetch_first_def run_bind_Inr run_return)
next
  case (5 e w c q w')
  obtain L J hc where e: "e = (L, J, hc)" by (cases e)
  obtain r w1 where g: "fetch_blob L hc c w = (r, w1)" by (cases "fetch_blob L hc c w")
  with 5 e have "r = Inr []" using fetch_blob_free by auto
  with 5(3) e g show ?case by (simp add: fetch_first_def run_bind_Inr run_return)
next
  case (6 e c c' d w r w')
  then show ?case by (cases e) (use send_blob_frame in auto)
next
  case (7 e c w q w')
  obtain L J hc where e: "e = (L, J, hc)" by (cases e)
  obtain r w1 where g: "fetch_blob L hc c w = (r, w1)" by (cases "fetch_blob L hc c w")
  have "w' = w1" using 7 e g by (cases r) (simp_all add: fetch_first_def run_bind_Inr run_bind_Inl run_return)
  with fetch_blob_events [OF g] obtain es where "list_all no_store es" "trace w' = trace w @ es" by blast
  with transport_cong show ?case by (auto simp: e fun_eq_iff)
next
  case (8 e e')
  then show ?case by (cases e; cases e') auto
qed

section \<open>Properties\<close>

text \<open>
  C4. Any number of processes pasting and getting packets over the transport, with whatever values in
  their uninitialised variables, refine the specification: from a state whose slots agree with what
  the services hold, every operation returns, every result is one the specification allows, and the
  slots agree again. So a packet sent once with success is what every later fetch of its code finds,
  whatever is sent under other codes, as long as the hashes of the codes differ and libcurl accepts the
  port (otherwise no operation returns, see the property of a refused port).
\<close>

theorem transport_session_refines:
  assumes "session_ok L hc" and "\<forall>c \<in> C. \<forall>c' \<in> C. c \<noteq> c' \<longrightarrow> transport_apart L c c'"
    and "\<forall>p \<in> set ps. op_code (snd p) \<in> C"
    and "agrees (transport_free L hc) (transport_holds L hc) C w m"
  shows "\<exists>rs w' m'.
     run_ops (\<lambda>J c d. send_blob L J hc c d) (\<lambda>J c. fetch_first L hc c) ps w = (Inr rs, w') \<and>
     spec_ops m (map snd ps) rs = Some m' \<and>
     agrees (transport_free L hc) (transport_holds L hc) C w' m'"
proof -
  let ?put = "\<lambda>(L, J, hc). send_blob L J hc" and ?get = "\<lambda>(L, J :: junk, hc). fetch_first L hc"
  let ?ps = "map (\<lambda>(J, p). ((L, J, hc), p)) ps"
  have r: "run_ops ?put ?get ?ps = run_ops (\<lambda>J c d. send_blob L J hc c d) (\<lambda>J c. fetch_first L hc c) ps"
  proof (induction ps)
    case (Cons a ps)
    obtain J p where "a = (J, p)" by (cases a)
    with Cons show ?case by (cases p) simp_all
  qed simp
  have "\<exists>rs w' m'. run_ops ?put ?get ?ps w = (Inr rs, w') \<and> spec_ops m (map snd ?ps) rs = Some m' \<and>
      agrees (transport_free L hc) (transport_holds L hc) C w' m'"
    using session.session_refines [of ?ps "(L, undefined, hc)" C w m] assms by fastforce
  moreover have "map snd ?ps = map snd ps" by (induction ps) auto
  ultimately show ?thesis by (simp only: r)
qed

theorem transport_session_refines_witness:
  "\<exists>rs w' m'. run_ops (\<lambda>J c d. send_blob (toy_libs toy_http) J (bin_http toy_bin) c d)
       (\<lambda>J c. fetch_first (toy_libs toy_http) (bin_http toy_bin) c)
       [(junk_a, Get ''A''), (junk_a, Put ''A'' [1]), (junk_a, Get ''A'')] init_world = (Inr rs, w') \<and>
     spec_ops (\<lambda>c. Fresh) [Get ''A'', Put ''A'' [1], Get ''A''] rs = Some m'"
proof -
  let ?L = "toy_libs toy_http" and ?hc = "bin_http toy_bin"
  let ?ps = "[(junk_a, Get ''A''), (junk_a, Put ''A'' [1]), (junk_a, Get ''A'')]"
  have ap: "\<forall>c \<in> {''A''}. \<forall>c' \<in> {''A''}. c \<noteq> c' \<longrightarrow> transport_apart ?L c c'" by simp
  have ok: "session_ok ?L ?hc" by (simp add: session_ok_def toy_transport_ok)
  have c: "\<forall>p \<in> set ?ps. op_code (snd p) \<in> {''A''}" by simp
  have a: "agrees (transport_free ?L ?hc) (transport_holds ?L ?hc) {''A''} init_world (\<lambda>c. Fresh)"
    using toy_free by (simp add: agrees_def)
  show ?thesis
    using transport_session_refines [OF ok ap c a] by simp blast
qed

end
