(* ===== verification/Process_Uris.thy ===== *)
theory Process_Uris
  imports Bin
begin

text \<open>
  One process that pastes many times, as a program over the library \<open>Bin\<close> may. The static engine of
  \<open>random_pin\<close> is seeded again at every call, since its flag is never set, so the process has one PIN
  for all its location codes and passwords. \<open>pinned R v w\<close> is the invariant: the statics exist and
  the next draw of \<open>random_pin\<close> is \<open>v\<close>.
\<close>

definition pinned :: "rng_lib \<Rightarrow> 32 word \<Rightarrow> world \<Rightarrow> bool" where
  "pinned R v w \<longleftrightarrow> (case pin_statics w of
      None \<Rightarrow> False
    | Some st \<Rightarrow> \<not> ps_initialized st \<and> fst (dist_draw R (engine_seed R (ps_seed st))) = v)"

lemma pinned_cong: "pin_statics w' = pin_statics w \<Longrightarrow> pinned R v w' = pinned R v w"
  by (simp add: pinned_def)

lemma pinned_draw: "pinned R v w \<Longrightarrow> process_pin R w = v \<and> never_initialized w"
  by (auto simp: pinned_def process_pin_def never_initialized_def split: option.splits)

lemma pinned_after_pin: "never_initialized w \<Longrightarrow> pinned R (process_pin R w) (after_pin R w)"
  by (simp add: pinned_def never_initialized_def process_pin_def after_pin_def random_pin_def proc_simps
      init_pin_statics_def Let_def split: prod.split option.splits)

lemma pinned_messages: "\<lbrakk>only_messages m; m w = (r, w'); pinned R v w\<rbrakk> \<Longrightarrow> pinned R v w'"
  using only_messagesD pinned_cong by metis

section \<open>The operations keep the PIN\<close>

lemma read_params_pinned:
  assumes "read_params L J b params w = (r, w')" and "pinned (lib_rng L) v w"
  shows "pinned (lib_rng L) v w' \<and>
    (\<forall>s sch ip sp pwd. r = Inr (s, sch, ip, sp, pwd) \<longrightarrow> pwd \<in> {[], pin_text v})"
  using assms pinned_draw [OF assms(2)] pinned_after_pin [of w "lib_rng L"]
  by (auto simp: read_params_def bindP_def liftP_def returnP_def run_random_pin
      split: option.splits sum.splits)

lemma prepare_data_pinned:
  assumes "prepare_data L J b data params w = (r, w')" and "pinned (lib_rng L) v w"
  shows "pinned (lib_rng L) v w' \<and> (\<forall>p pwd. r = Inr (p, pwd) \<longrightarrow> pwd \<in> {[], pin_text v})"
proof -
  obtain q w1 where rp: "read_params L J b params w = (q, w1)"
    by (cases "read_params L J b params w")
  note keep = read_params_pinned [OF rp assms(2)]
  show ?thesis
  proof (cases q)
    case (Inl e)
    with rp assms keep show ?thesis by (auto simp: prepare_data_def run_bind_Inl)
  next
    case (Inr x)
    obtain to_sign scheme ip sp pwd where x: "x = (to_sign, scheme, ip, sp, pwd)" by (cases x)
    obtain rest where rest: "prepare_data L J b data params w = rest w1" "only_messages rest"
      and pwd: "\<And>p pwd' w w'. rest w = (Inr (p, pwd'), w') \<Longrightarrow> pwd' = pwd"
    proof
      let ?rest = "bindP (cipher_get_by_scheme (lib_gpgme L) scheme ip) (\<lambda>cipher.
        case cipher of
          None \<Rightarrow> returnP (\<lparr>pk_data = data, pk_signature = []\<rparr>, pwd)
        | Some c \<Rightarrow>
           bindP (processPlainText (lib_aes L) (lib_gpgme L) c data sp) (\<lambda>cipher_text.
           if cipher_text = [] then
             if to_sign then
               thenP (DPASTE_MSG ''Signing data...'' [])
                 (bindP (sign_with (lib_gpgme L) c data) (\<lambda>signature.
                  returnP (\<lparr>pk_data = data, pk_signature = signature\<rparr>, pwd)))
             else returnP (\<lparr>pk_data = data, pk_signature = []\<rparr>, pwd)
           else returnP (\<lparr>pk_data = cipher_text, pk_signature = []\<rparr>, pwd)))"
      show "prepare_data L J b data params w = ?rest w1"
        using rp Inr x by (simp add: prepare_data_def run_bind_Inr)
      show "only_messages ?rest" by (auto intro!: messages_intros split: option.split)
      show "pwd' = pwd" if "?rest v = (Inr (p, pwd'), v')" for p pwd' v v'
        using that
        by (auto simp: bindP_Inr_iff thenP_def returnP_def split: option.splits if_splits)
    qed
    have "pinned (lib_rng L) v w'"
      using pinned_messages [OF rest(2)] rest(1) assms(1) keep by metis
    moreover have "\<forall>p pwd'. r = Inr (p, pwd') \<longrightarrow> pwd' = pwd"
      using pwd rest(1) assms(1) by metis
    ultimately show ?thesis using keep Inr x by auto
  qed
qed

lemma statics_send_blob: "pin_statics (snd (send_blob L J hc code d w)) = pin_statics w"
  by (simp add: send_blob_def bindP_def run_http_put run_paste_blocking returnP_def Let_def split: curl_code.split)

lemma send_blob_pinned:
  "\<lbrakk>send_blob L J hc code d w = (r, w'); pinned R v w\<rbrakk> \<Longrightarrow> pinned R v w'"
  using statics_send_blob pinned_cong by (metis snd_conv)

text \<open>One paste: the URI it returns, and the invariant after it.\<close>

definition uris_of_pin :: "string \<Rightarrow> string set" where
  "uris_of_pin pin = {[], DPASTE_URI_PREFIX @ pin, DPASTE_URI_PREFIX @ pin @ pin}"

lemma bin_paste_pinned:
  assumes paste: "bin_paste L J b data params w = (r, w')" and never: "never_initialized w"
  shows "pinned (lib_rng L) (process_pin (lib_rng L) w) w' \<and>
    (\<forall>uri. r = Inr uri \<longrightarrow> uri \<in> uris_of_pin (pin_text (process_pin (lib_rng L) w)))"
proof -
  let ?R = "lib_rng L" and ?v = "process_pin (lib_rng L) w"
  obtain q w1 where prep: "prepare_data L J b data params (after_pin ?R w) = (q, w1)"
    by (cases "prepare_data L J b data params (after_pin ?R w)")
  note keep = prepare_data_pinned [OF prep pinned_after_pin [OF never]]
  show ?thesis
  proof (cases q)
    case (Inl e)
    with prep paste keep show ?thesis
      by (auto simp: bin_paste_def run_bind_Inr run_bind_Inl run_random_pin)
  next
    case (Inr x)
    obtain p pwd where x: "x = (p, pwd)" by (cases x)
    let ?w1 = "after_msg ''Pasting data...'' [] w1"
    obtain s w2 where send:
      "send_blob L J (bin_http b) (pin_text ?v) (serialize (lib_msgpack L) p) ?w1 = (s, w2)"
      by (cases "send_blob L J (bin_http b) (pin_text ?v) (serialize (lib_msgpack L) p) ?w1")
    have "pinned ?R ?v ?w1"
      using pinned_messages [OF messages_msg run_msg] keep by blast
    then have "pinned ?R ?v w2" using send send_blob_pinned by blast
    moreover have "r = (case s of Inl e \<Rightarrow> Inl e | Inr ok \<Rightarrow> Inr (if ok then DPASTE_URI_PREFIX @ pin_text ?v @ pwd else []))"
      "w' = w2"
      using paste prep send Inr x
      by (cases s; simp add: bin_paste_def run_bind_Inr run_bind_Inl run_random_pin run_then_Inr run_msg run_return Let_def)+
    ultimately show ?thesis
      using keep Inr x by (auto simp: uris_of_pin_def split: sum.splits)
  qed
qed

section \<open>Many pastes\<close>

text \<open>The pastes of a process, one after the other, whatever each of them returns or throws.\<close>

fun paste_all :: "libs \<Rightarrow> bin \<Rightarrow> (junk \<times> bytes \<times> parameters option) list \<Rightarrow> world \<Rightarrow> (exn + string) list \<times> world" where
  "paste_all L b [] w = ([], w)"
| "paste_all L b ((J, data, params) # rs) w =
     (case bin_paste L J b data params w of
        (r, w1) \<Rightarrow> (case paste_all L b rs w1 of (us, w2) \<Rightarrow> (r # us, w2)))"

lemma paste_all_pinned:
  "pinned (lib_rng L) v w \<Longrightarrow> Inr uri \<in> set (fst (paste_all L b rs w)) \<Longrightarrow> uri \<in> uris_of_pin (pin_text v)"
proof (induction L b rs w rule: paste_all.induct)
  case (2 L b J data params rs w)
  obtain r w1 where p: "bin_paste L J b data params w = (r, w1)"
    by (cases "bin_paste L J b data params w")
  have "pinned (lib_rng L) v w1" and "\<forall>uri. r = Inr uri \<longrightarrow> uri \<in> uris_of_pin (pin_text v)"
    using bin_paste_pinned [OF p] pinned_draw [OF 2(2)] by simp_all
  with 2 p show ?case by (auto split: prod.splits)
qed simp

section \<open>Properties\<close>

text \<open>
  C20. However many values a process pastes and with whatever parameters, it returns at most two
  different URIs: the one of its PIN, and for AES the one with the PIN as the password as well. So
  every paste of a process is stored under the same location code.
\<close>

theorem process_uris:
  assumes "never_initialized w" and "Inr uri \<in> set (fst (paste_all L b rs w))" and "uri \<noteq> []"
  shows "uri \<in> {DPASTE_URI_PREFIX @ pin_text (process_pin (lib_rng L) w),
     DPASTE_URI_PREFIX @ pin_text (process_pin (lib_rng L) w) @ pin_text (process_pin (lib_rng L) w)}"
proof -
  obtain J data params rs' where rs: "rs = (J, data, params) # rs'"
    using assms(2) by (cases rs) auto
  obtain r w1 where p: "bin_paste L J b data params w = (r, w1)"
    by (cases "bin_paste L J b data params w")
  have "uri \<in> uris_of_pin (pin_text (process_pin (lib_rng L) w))"
    using bin_paste_pinned [OF p assms(1)] assms(2) p rs
      paste_all_pinned [OF conjunct1 [OF bin_paste_pinned [OF p assms(1)]], of uri b rs']
    by (auto split: prod.splits)
  with assms(3) show ?thesis by (simp add: uris_of_pin_def)
qed

theorem process_uris_witness:
  "\<exists>uri w'. paste_all (toy_libs toy_http) toy_bin
       [(junk_a, [104, 105], None), (junk_a, [104, 111], None)] init_world = ([Inr uri, Inr uri], w') \<and> length uri = 15"
proof -
  let ?L = "toy_libs toy_http"
  have paste: "\<exists>w'. bin_paste ?L junk_a toy_bin d None w =
      (Inr (DPASTE_URI_PREFIX @ pin_text (process_pin (lib_rng ?L) w) @ []), w')" for d w
    by (rule bin_paste_succeeds [OF run_prepare_none toy_bin_send(1)]) (simp_all add: junk_a_def)
  let ?uri = "\<lambda>w. DPASTE_URI_PREFIX @ pin_text (process_pin (lib_rng ?L) w) @ []"
  obtain w1 where w1: "bin_paste ?L junk_a toy_bin [104, 105] None init_world = (Inr (?uri init_world), w1)"
    using paste by blast
  obtain w2 where w2: "bin_paste ?L junk_a toy_bin [104, 111] None w1 = (Inr (?uri w1), w2)"
    using paste by blast
  let ?rs = "[(junk_a, [104, 105], None), (junk_a, [104, 111], None)]"
  have all: "paste_all ?L toy_bin ?rs init_world = ([Inr (?uri init_world), Inr (?uri w1)], w2)"
    using w1 w2 by simp
  have len: "length (?uri w) = 15" for w by (simp add: DPASTE_URI_PREFIX_def)
  let ?pin = "pin_text (process_pin (lib_rng ?L) init_world)"
  have "length (DPASTE_URI_PREFIX @ ?pin @ ?pin) \<noteq> 15" by (simp add: DPASTE_URI_PREFIX_def)
  then have "?uri w1 \<noteq> DPASTE_URI_PREFIX @ ?pin @ ?pin"
    using len [of w1] by (intro notI) (simp only: not_True_eq_False simp_thms)
  moreover have "?uri w1 \<in> {DPASTE_URI_PREFIX @ ?pin, DPASTE_URI_PREFIX @ ?pin @ ?pin}"
    by (rule process_uris [of init_world "?uri w1" ?L toy_bin ?rs])
      (use all len [of w1] in \<open>auto simp: DPASTE_URI_PREFIX_def\<close>)
  ultimately have "?uri w1 = ?uri init_world" by simp
  with all len [of init_world] show ?thesis by metis
qed

end
