(* ===== verification/Escapes.thy ===== *)
theory Escapes
  imports Main_Prog
begin

text \<open>
  Which exceptions can leave which part of the program. \<open>throws_only S m\<close> is a small type system for
  procedures: whatever state \<open>m\<close> starts in, an exception that leaves it is in \<open>S\<close>; its rules follow
  the combinators. It shows that the program only ever takes the alternative of a
  \<open>std::variant\<close> that is there, never calls through a null cipher, and catches what it means to catch.
\<close>

named_theorems throws_intros \<open>rules for the exceptions of a procedure\<close>

section \<open>The rules\<close>

definition throws_only :: "exn set \<Rightarrow> 'a proc \<Rightarrow> bool" where
  "throws_only S m \<longleftrightarrow> (\<forall>w e. fst (m w) = Inl e \<longrightarrow> e \<in> S)"

text \<open>The values a procedure can return.\<close>

definition returns :: "'a proc \<Rightarrow> 'a \<Rightarrow> bool" where
  "returns m x \<longleftrightarrow> (\<exists>w w'. m w = (Inr x, w'))"

lemma throws_onlyD: "\<lbrakk>throws_only S m; m w = (Inl e, w')\<rbrakk> \<Longrightarrow> e \<in> S"
  unfolding throws_only_def by (metis fst_conv)

lemma throws_mono: "\<lbrakk>throws_only S m; S \<subseteq> T\<rbrakk> \<Longrightarrow> throws_only T m"
  unfolding throws_only_def by blast

lemma throws_return [throws_intros]: "throws_only S (returnP x)"
  by (simp add: throws_only_def returnP_def)

lemma throws_throw [throws_intros]: "e \<in> S \<Longrightarrow> throws_only S (throwP e)"
  by (simp add: throws_only_def throwP_def)

lemma throws_lift: "(\<And>e. r = Inl e \<Longrightarrow> e \<in> S) \<Longrightarrow> throws_only S (liftP r)"
  by (simp add: throws_only_def liftP_def)

lemma throws_none [throws_intros]:
  "throws_only S (askP f)" "throws_only S (getP g)" "throws_only S (emitP ev)" "throws_only S (modifyP h)"
  "throws_only S (DPASTE_MSG fmt args)"
  by (simp_all add: throws_only_def askP_def getP_def emitP_def modifyP_def run_msg)

lemma throws_bind_returns:
  assumes "throws_only S m" and "\<And>x. returns m x \<Longrightarrow> throws_only S (f x)"
  shows "throws_only S (bindP m f)"
  unfolding throws_only_def
proof (intro allI impI)
  fix w e
  assume e: "fst (bindP m f w) = Inl e"
  obtain r w1 where m: "m w = (r, w1)" by (cases "m w")
  show "e \<in> S"
  proof (cases r)
    case (Inl e')
    then have "e' = e" using m e by (simp add: run_bind_Inl)
    with throws_onlyD [OF assms(1)] m Inl show ?thesis by blast
  next
    case (Inr x)
    then have "returns m x" using m by (auto simp: returns_def)
    with assms(2) have "throws_only S (f x)" by blast
    with m e Inr show ?thesis by (simp add: run_bind_Inr throws_only_def)
  qed
qed

lemma throws_bind [throws_intros]:
  "\<lbrakk>throws_only S m; \<And>x. throws_only S (f x)\<rbrakk> \<Longrightarrow> throws_only S (bindP m f)"
  by (rule throws_bind_returns)

lemma throws_then [throws_intros]: "\<lbrakk>throws_only S m; throws_only S n\<rbrakk> \<Longrightarrow> throws_only S (thenP m n)"
  unfolding thenP_def by (rule throws_bind)

lemma throws_if [throws_intros]:
  "\<lbrakk>b \<Longrightarrow> throws_only S m; \<not> b \<Longrightarrow> throws_only S n\<rbrakk> \<Longrightarrow> throws_only S (if b then m else n)"
  by simp

section \<open>The ciphers\<close>

definition gpg_exns :: "exn set" where
  "gpg_exns = {Gpg_Exception err msg |err msg. True}"

lemma gpg_exns_in [simp]: "Gpg_Exception err msg \<in> gpg_exns"
  by (auto simp: gpg_exns_def)

lemma getKey_exns: "getKey G ctx kid = Inl e \<Longrightarrow> e \<in> gpg_exns"
  by (auto simp: getKey_def Let_def split: if_splits prod.splits)

lemma getKeys_exns: "getKeys G ctx rs = Inl e \<Longrightarrow> e \<in> gpg_exns"
  by (induction rs) (auto split: sum.splits dest: getKey_exns)

lemma throws_encrypt [throws_intros]: "throws_only gpg_exns (encrypt G g rs pt sign)"
  by (auto simp: encrypt_def Let_def intro!: throws_intros throws_lift dest: getKeys_exns
      split: option.split prod.split)

lemma throws_decrypt [throws_intros]: "throws_only gpg_exns (decryptAndVerify G g ct)"
  by (auto simp: decryptAndVerify_def Let_def intro!: throws_intros split: option.split prod.split)

lemma throws_sign [throws_intros]: "throws_only gpg_exns (gpg_sign G g pt)"
  by (auto simp: gpg_sign_def intro!: throws_intros split: option.split prod.split)

lemma throws_verify [throws_intros]: "throws_only gpg_exns (verify G g sg pt)"
  by (auto simp: verify_def intro!: throws_intros split: option.split prod.split)

lemma throws_comment [throws_intros]: "throws_only S (comment_on_signature G sg)"
  by (auto simp: comment_on_signature_def intro!: throws_intros)

lemma throws_gpg_new:
  assumes "\<And>tr. gm_create G tr"
  shows "throws_only gpg_exns (gpg_new G signer)"
proof -
  have "returns (askP (gm_create G)) x \<Longrightarrow> x" for x
    using assms by (auto simp: returns_def askP_def)
  then show ?thesis
    unfolding gpg_new_def Let_def
    by (intro throws_bind_returns throws_intros throws_lift) (auto dest: getKey_exns)
qed

lemma throws_gpg_plain [throws_intros]:
  "throws_only gpg_exns (gpg_processPlainText G g pt None)"
  "throws_only gpg_exns (gpg_processPlainText G g pt (Some (GPG_Params gp)))"
  by (auto simp: gpg_processPlainText_def Let_def intro!: throws_intros throws_lift split: prod.split)

lemma throws_gpg_cipher [throws_intros]: "throws_only gpg_exns (gpg_processCipherText G j g ct None)"
  unfolding gpg_processCipherText_def
  by (auto intro!: throws_intros throws_lift split: prod.split list.split)

lemma throws_aes_plain [throws_intros]: "throws_only S (aes_processPlainText A pt params)"
  by (auto simp: aes_processPlainText_def intro!: throws_intros)

lemma throws_aes_cipher: "throws_only {Decrypt_Error msg |msg. True} (aes_processCipherText A ct params)"
  by (auto simp: aes_processCipherText_def intro!: throws_intros throws_lift split: sum.splits)

lemma throws_cipher_init [throws_intros]:
  "throws_only {Gpg_Exception err ''Failed to initialize OpenPGP engine'' |err. err_code err \<noteq> 0} (cipher_init G)"
  by (auto simp: throws_only_def cipher_init_def gpg_init_def proc_defs Let_def split: if_splits)

lemma bind_return [simp]: "bindP (returnP x) f = f x"
  by (rule ext) (simp add: bindP_def returnP_def)

lemma bind_lift_Inr [simp]: "bindP (liftP (Inr x)) f = f x"
  by (rule ext) (simp add: bindP_def liftP_def)

lemma throws_random_pin [throws_intros]: "throws_only S (random_pin R)"
  by (simp add: throws_only_def run_random_pin)

lemma throws_process_plain [throws_intros]:
  "throws_only gpg_exns (processPlainText A G c pt None)"
  "throws_only gpg_exns (gpg_processPlainText G g pt (Some (GPG_Params gp)))"
  by (cases c; auto intro: throws_intros) (rule throws_intros)

section \<open>The pastebin\<close>

text \<open>
  With a configuration that has the key option, \<open>prepare_data\<close> and so \<open>paste\<close> throw nothing but
  exceptions of gpgme: the scheme and the parameters always fit the cipher they go to.
\<close>

lemma throws_prepare:
  assumes create: "\<And>tr. gm_create (lib_gpgme L) tr" and key: "bin_conf b ''pgp_key_id'' \<noteq> None"
  shows "throws_only gpg_exns (prepare_data L J b data params)"
proof -
  note new = throws_gpg_new [OF create]
  obtain k where k: "map_at (bin_conf b) ''pgp_key_id'' = Inr k"
    using key by (auto simp: map_at_def)
  consider "params = None" | ap where "params = Some (AES_Params ap)" | gp where "params = Some (GPG_Params gp)"
    by (metis option.exhaust parameters.exhaust)
  then show ?thesis
  proof cases
    case 1
    then show ?thesis
      by (auto simp: prepare_data_def read_params_def cipher_get_by_scheme_def bindP_assoc
          intro!: throws_intros new split: option.split)
  next
    case 2
    then show ?thesis
      by (auto simp: prepare_data_def read_params_def cipher_get_by_scheme_def bindP_assoc Let_def
          intro!: throws_intros split: option.split)
  next
    case 3
    then show ?thesis
      by (auto simp: prepare_data_def read_params_def k cipher_get_by_scheme_def bindP_assoc sign_with_def
          intro!: throws_intros new)
  qed
qed

lemma throws_send: "throws_only {Curlpp_Runtime_Error} (send_blob L J hc code d)"
  unfolding throws_only_def
proof (intro allI impI)
  fix w e
  assume "fst (send_blob L J hc code d w) = Inl e"
  then show "e \<in> {Curlpp_Runtime_Error}"
    by (cases rule: send_blob_cases [of L J hc code d w]) simp_all
qed

lemma throws_paste:
  assumes "\<And>tr. gm_create (lib_gpgme L) tr" and "bin_conf b ''pgp_key_id'' \<noteq> None"
  shows "throws_only (insert Curlpp_Runtime_Error gpg_exns) (bin_paste L J b data params)"
  unfolding bin_paste_def Let_def
  by (intro throws_intros throws_mono [OF throws_send] throws_mono [OF throws_prepare [OF assms]]
      | (split prod.split, intro allI impI) | blast)+

definition json_exns :: "exn set" where
  "json_exns = {Json_Exception msg |msg. True}"

definition unpack_exns :: "exn set" where
  "unpack_exns = {Msgpack_Unpack_Error msg |msg. True}"

definition caught_exns :: "exn set" where
  "caught_exns = gpg_exns \<union> {Decrypt_Error msg |msg. True} \<union> {Msgpack_Type_Error}"

lemma throws_http_get [throws_intros]: "throws_only (insert Curlpp_Runtime_Error json_exns) (http_get D H hc code)"
  by (auto simp: throws_only_def json_exns_def run_http_get Let_def dest: decode_body_exn
      split: http_outcome.splits if_splits curl_code.splits)

lemma throws_get_blobs [throws_intros]: "throws_only S (get_blobs D code)"
  by (simp add: throws_only_def run_get_blobs Let_def)

lemma throws_fetch: "throws_only (insert Curlpp_Runtime_Error json_exns) (fetch_blob L hc code)"
  by (auto simp: fetch_blob_def Let_def intro!: throws_intros)

lemma deserialize_exns: "deserialize M buf = Inl e \<Longrightarrow> e \<in> unpack_exns \<union> {Msgpack_Type_Error}"
  by (auto simp: deserialize_def findMapValue_def convert_member_def unpack_exns_def
      split: sum.splits option.splits mp_object.splits)

text \<open>\<open>check_signature\<close> asks for a GPG cipher and gets one, so it never calls through null.\<close>

lemma throws_check_signature:
  assumes "\<And>tr. gm_create G tr"
  shows "throws_only gpg_exns (check_signature G sg data)"
  using throws_gpg_new [OF assms]
  by (auto simp: check_signature_def cipher_get_by_scheme_def bindP_assoc intro!: throws_intros split: list.split)

lemma throws_open_packet:
  assumes create: "\<And>tr. gm_create (lib_gpgme L) tr"
  shows "throws_only (unpack_exns \<union> caught_exns) (open_packet L J data code pwd nd)"
proof -
  let ?S = "unpack_exns \<union> caught_exns"
  have sub: "gpg_exns \<subseteq> ?S" "{Decrypt_Error msg |msg. True} \<subseteq> ?S"
    by (auto simp: caught_exns_def)
  note g = throws_mono [OF _ sub(1)]
  have d: "throws_only ?S (liftP (deserialize (lib_msgpack L) data))"
    by (rule throws_lift) (auto dest!: deserialize_exns simp: caught_exns_def)
  have t: "throws_only ?S (cipher_get_by_text (lib_gpgme L) ct code)" for ct
    using g [OF throws_gpg_new [OF create]] by (auto simp: cipher_get_by_text_def intro!: throws_intros)
  have p: "throws_only ?S (processCipherText (lib_aes L) (lib_gpgme L) j c ct
      (case c of AES_Cipher \<Rightarrow> Some (AES_Params (aes_parameters pwd)) | GPG_Cipher _ \<Rightarrow> None))" for j c ct
    using throws_mono [OF throws_aes_cipher sub(2)] g [OF throws_gpg_cipher] by (cases c) auto
  have s: "throws_only ?S (check_signature (lib_gpgme L) sg x)" for sg x
    by (rule g [OF throws_check_signature [OF create]])
  show ?thesis
    unfolding open_packet_def
    by (intro throws_intros d t s; (split option.split, intro conjI allI impI)?; intro throws_intros p)
qed

text \<open>The \<open>try\<close> block lets out only what is not caught.\<close>

lemma throws_get_try:
  assumes "throws_only (S \<union> caught_exns) m" and "S \<inter> caught_exns = {}"
  shows "throws_only S (catchP (bindP m (\<lambda>data. returnP (True, string_of_bytes data))) (get_handler L raw))"
proof -
  have h: "e \<in> caught_exns \<Longrightarrow>
      fst (catchP (bindP m (\<lambda>data. returnP (True, string_of_bytes data))) (get_handler L raw) w) \<noteq> Inl e'"
    if "fst (m w) = Inl e" for e e' w
    using that by (auto simp: run_get_try caught_exns_def gpg_exns_def)
  show ?thesis
    unfolding throws_only_def
  proof (intro allI impI)
    fix w e
    assume e: "fst (catchP (bindP m (\<lambda>data. returnP (True, string_of_bytes data))) (get_handler L raw) w) = Inl e"
    then have "fst (m w) = Inl e"
      by (auto simp: run_get_try split: sum.splits exn.splits)
    with h [OF this, of e] e assms(1) show "e \<in> S" by (auto simp: throws_only_def)
  qed
qed

lemma unpack_not_caught: "unpack_exns \<inter> caught_exns = {}"
  by (auto simp: unpack_exns_def caught_exns_def gpg_exns_def)

text \<open>The code of a URI is shorter than a location code.\<close>

definition short_code :: "string \<Rightarrow> bool" where
  "short_code uri \<longleftrightarrow> (case code_from_dpaste_uri uri of Some code \<Rightarrow> length code < 8 | None \<Rightarrow> True)"

definition get_exns :: "string \<Rightarrow> exn set" where
  "get_exns uri = (if short_code uri then {Out_Of_Range} else {}) \<union> unpack_exns \<union> json_exns \<union> {Curlpp_Runtime_Error}"

lemma throws_bin_get:
  assumes create: "\<And>tr. gm_create (lib_gpgme L) tr"
  shows "throws_only (get_exns uri) (bin_get L J b uri nd)"
proof -
  let ?S = "get_exns uri"
  obtain code where code: "code_from_dpaste_uri uri = Some code"
    using code_from_uri_total [of uri] by blast
  have l: "throws_only ?S (liftP (or_out_of_range (substr code 0 (CODE_PASS_OFFSET * 2))))"
    by (rule throws_lift) (simp add: or_out_of_range_def substr_def)
  have p: "throws_only ?S (liftP (or_out_of_range (substr_from code (CODE_PASS_OFFSET * 2))))"
    by (rule throws_lift) (auto simp: or_out_of_range_def substr_from_def get_exns_def short_code_def code
        CODE_PASS_OFFSET_def split: if_splits)
  have f: "throws_only ?S (fetch_blob L hc lcode)" for hc lcode
    by (rule throws_mono [OF throws_fetch]) (auto simp: get_exns_def)
  have t: "throws_only ?S (catchP (bindP (open_packet L J data code pwd nd)
      (\<lambda>data. returnP (True, string_of_bytes data))) (get_handler L data))" for data pwd
    by (rule throws_mono [OF throws_get_try [OF throws_open_packet [OF create] unpack_not_caught]])
      (auto simp: get_exns_def)
  show ?thesis
    unfolding bin_get_def code or_out_of_range_def option.case(2) bind_lift_Inr Let_def
    unfolding or_out_of_range_def [symmetric]
    by (intro throws_intros l p f t)
qed

section \<open>main\<close>

lemma bin_new_conf:
  "\<exists>b w'. bin_new L J w = (Inr b, w') \<and> bin_conf b ''pgp_key_id'' \<noteq> None"
proof -
  let ?H = "lib_host L"
  let ?c = "configuration_file ?H []"
  have def: "config_map ?c = default_config" by (simp add: configuration_file_def)
  have at: "\<exists>rc cf v. load ?H ?c = Inr (rc, cf) \<and> map_at (config_map cf) k = Inr v"
    if "default_config k \<noteq> None" for k
    using conf.at_after_load [of ?c k ?H] that def by auto
  obtain rc cf where l: "load ?H ?c = Inr (rc, cf)"
    using at [of "''port''"] by (auto simp: default_config_def)
  obtain p h k where v: "map_at (config_map cf) ''port'' = Inr p" "map_at (config_map cf) ''host'' = Inr h"
    "map_at (config_map cf) ''pgp_key_id'' = Inr k"
    using at [of "''port''"] at [of "''host''"] at [of "''pgp_key_id''"] l by (auto simp: default_config_def)
  have rn: "run_default node_new w = (Inr \<lparr>running = True\<rparr>,
      record_event (Dht_Bootstrap ''bootstrap.ring.cx'' ''4222'') (record_event (Dht_Run 0) w))"
    by (simp add: run_default_def run_def node_new_def proc_simps DEFAULT_BOOTSTRAP_NODE_def
        DEFAULT_BOOTSTRAP_PORT_def)
  have "bin_conf b ''pgp_key_id'' \<noteq> None" if "bin_conf b = config_map cf" for b
    using v(3) that by (simp add: map_at_def split: option.splits)
  moreover have "\<exists>b w'. bin_new L J w = (Inr b, w') \<and> bin_conf b = config_map cf"
    by (simp add: bin_new_def l v run_bind_Inr rn getConfiguration_def run_return)
  ultimately show ?thesis by blast
qed

definition init_exns :: "exn set" where
  "init_exns = {Gpg_Exception err ''Failed to initialize OpenPGP engine'' |err. err_code err \<noteq> 0}"

lemma init_exns_gpg: "init_exns \<subseteq> gpg_exns"
  by (auto simp: init_exns_def)

definition main_exns :: "parsed_args \<Rightarrow> exn set" where
  "main_exns pa = (if pa_code pa = [] then insert Curlpp_Runtime_Error gpg_exns else init_exns \<union> get_exns (pa_code pa))"

lemma throws_main:
  assumes create: "\<And>tr. gm_create (lib_gpgme L) tr"
  shows "throws_only (main_exns (parseArgs getopt_long argv)) (main_prog L J C getopt_long argv input)"
proof -
  let ?pa = "parseArgs getopt_long argv"
  let ?S = "main_exns ?pa"
  have new: "throws_only ?S (bin_new L J)"
    unfolding throws_only_def using bin_new_conf [of L J] by (metis fst_conv sum.distinct(1))
  have ret: "returns (bin_new L J) b \<Longrightarrow> bin_conf b ''pgp_key_id'' \<noteq> None" for b
    using bin_new_conf [of L J] unfolding returns_def by (metis prod.inject sum.inject(2))
  have init: "throws_only ?S (cipher_init (lib_gpgme L))"
    by (rule throws_mono [OF throws_cipher_init]) (auto simp: main_exns_def init_exns_def)
  have get: "throws_only ?S (main_get L J b ?pa)" if "pa_code ?pa \<noteq> []" for b
    using throws_mono [OF throws_bin_get [OF create], of "pa_code ?pa" ?S] that
    by (auto simp: main_get_def main_exns_def intro!: throws_intros)
  have paste: "throws_only ?S (main_paste L J b ?pa input)"
    if "pa_code ?pa = []" "bin_conf b ''pgp_key_id'' \<noteq> None" for b
    using throws_paste [OF create that(2)] that(1)
    by (auto simp: main_paste_def bin_paste_stream_def main_exns_def intro!: throws_intros)
  have rest: "throws_only ?S (bindP (bin_new L J) (\<lambda>b. thenP (cipher_init (lib_gpgme L))
      (if pa_code ?pa \<noteq> [] then main_get L J b ?pa else main_paste L J b ?pa input)))"
    by (rule throws_bind_returns [OF new]) (use init get paste ret in \<open>auto intro!: throws_intros\<close>)
  show ?thesis
    unfolding main_prog_def Let_def print_help_def
    by (rule throws_if throws_return throws_then throws_none rest)+
qed

section \<open>Properties\<close>

text \<open>
  C11. What can leave \<open>main\<close>, when a context of gpgme can be made: a paste only ever ends in an
  exception of gpgme; with a code, only the failed engine check, the \<open>std::out_of_range\<close> of
  \<open>substr\<close> (only for a code of less than 8 characters), an \<open>unpack_error\<close> of msgpack or an
  exception of the JSON library gets out; of curlpp, in both cases, a \<open>RuntimeError\<close> but never a
  \<open>LogicError\<close>. So no \<open>std::get\<close> takes the wrong alternative, and no call goes through a null cipher.
\<close>

theorem main_escapes:
  assumes "\<And>tr. gm_create (lib_gpgme L) tr"
    and "fst (main_prog L J C getopt_long argv input w) = Inl e"
  shows "(case e of
      Gpg_Exception err msg \<Rightarrow> pa_code (parseArgs getopt_long argv) = [] \<or>
        err_code err \<noteq> 0 \<and> msg = ''Failed to initialize OpenPGP engine''
    | Out_Of_Range \<Rightarrow> pa_code (parseArgs getopt_long argv) \<noteq> [] \<and> short_code (pa_code (parseArgs getopt_long argv))
    | Msgpack_Unpack_Error msg \<Rightarrow> pa_code (parseArgs getopt_long argv) \<noteq> []
    | Json_Exception msg \<Rightarrow> pa_code (parseArgs getopt_long argv) \<noteq> []
    | Curlpp_Runtime_Error \<Rightarrow> True
    | _ \<Rightarrow> False)"
proof -
  have "e \<in> main_exns (parseArgs getopt_long argv)"
    using throws_main [OF assms(1)] assms(2) by (auto simp: throws_only_def)
  then show ?thesis
    by (auto simp: main_exns_def init_exns_def get_exns_def gpg_exns_def unpack_exns_def json_exns_def
        split: if_splits exn.split)
qed

theorem main_escapes_witness:
  "\<exists>w'. main_prog (toy_libs toy_http) junk_a toy_build (get_option (DPASTE_URI_PREFIX @ ''B79F'')) [] [] init_world =
     (Inl Out_Of_Range, w') \<and> short_code (DPASTE_URI_PREFIX @ ''B79F'')"
proof -
  let ?uri = "DPASTE_URI_PREFIX @ ''B79F''"
  let ?m = "main_prog (toy_libs toy_http) junk_a toy_build (get_option ?uri) [] [] init_world"
  obtain b wa w where start: "bin_new (toy_libs toy_http) junk_a init_world = (Inr b, wa)"
    "cipher_init (lib_gpgme (toy_libs toy_http)) wa = (Inr (), w)"
    using toy_start [of toy_http "[]"] by (auto simp: init_world_def)
  have pa: "pa_code (parseArgs (get_option ?uri) []) = ?uri" "?uri \<noteq> []"
    by (simp_all add: parseArgs_def parsed_args_new_def DPASTE_URI_PREFIX_def)
  have opts: "list_all known_opt (getopt_results (get_option ?uri) [])"
    "args_of (CHR ''h'') (getopt_results (get_option ?uri) []) = []"
    "args_of (CHR ''v'') (getopt_results (get_option ?uri) []) = []"
    by (simp_all add: known_opt_def args_of_def)
  have "bin_get (toy_libs toy_http) junk_a b ?uri nd w = (Inl Out_Of_Range, w)" for nd
    by (simp add: bin_get_def code_from_pasted or_out_of_range_def substr_def substr_from_def
        CODE_PASS_OFFSET_def run_bind_Inl run_lift)
  then have m: "?m = (Inl Out_Of_Range, w)"
    using run_main_prog [OF opts start, of toy_build "[]"] pa by (simp add: main_get_def run_bind_Inl)
  then have "short_code ?uri"
    using main_escapes [of "toy_libs toy_http" junk_a toy_build "get_option ?uri" "[]" "[]" init_world Out_Of_Range] pa(1)
    by simp
  with m show ?thesis by blast
qed

end
