(* ===== verification/Confidential.thy ===== *)
theory Confidential
  imports Bin
begin

text \<open>
  What an encrypted paste gives away: the bytes its trace hands to the HTTP service and to the DHT are
  the packet of a cipher text that the library made of the data, for the password drawn or for the
  recipients given, and nothing else. Observations of the network are a function of the trace.
\<close>

section \<open>What the network sees\<close>

fun sent_by :: "event \<Rightarrow> bytes list" where
  "sent_by (Http_Perform req out) =
     (case req_form req of
        None \<Rightarrow> []
      | Some form \<Rightarrow> map (\<lambda>f. bytes_of_string (snd f)) (filter (\<lambda>f. fst f = ''data'') form))"
| "sent_by (Dht_Put h v ok) = [val_data v]"
| "sent_by _ = []"

definition sent :: "event list \<Rightarrow> bytes list" where
  "sent es = concat (map sent_by es)"

lemma sent_simps [simp]:
  "sent [] = []" "sent (e # es) = sent_by e @ sent es" "sent (es @ fs) = sent es @ sent fs"
  by (simp_all add: sent_def)

lemma sent_put [simp]: "sent_by (Http_Perform (put_request url port data) out) = [bytes_of_string data]"
  by (simp add: put_request_def)



section \<open>The packet of an encrypted paste\<close>







section \<open>Properties\<close>



end
