(* ===== verification/Conf_Reference.thy ===== *)
theory Conf_Reference
  imports Conf
begin

text \<open>
  A reference for \<open>ConfigurationFile::load\<close> without streams: the file is split at its newlines, every
  line at its \<open>=\<close> signs. Of the fields of a line the first that names an option once trimmed is
  the name; its value is what stands behind it up to the end of the line, trimmed; an empty value
  assigns nothing. \<open>load\<close> computes exactly this.
\<close>

section \<open>Splitting and joining\<close>

fun fields :: "char \<Rightarrow> string \<Rightarrow> string list" where
  "fields c [] = [[]]"
| "fields c (x # s) =
     (if x = c then [] # fields c s
      else case fields c s of [] \<Rightarrow> [[x]] | f # fs \<Rightarrow> (x # f) # fs)"

fun join :: "char \<Rightarrow> string list \<Rightarrow> string" where
  "join c [] = []"
| "join c [f] = f"
| "join c (f # g # fs) = f @ c # join c (g # fs)"

lemma fields_not_Nil [simp]: "fields c s \<noteq> []"
  by (cases s) (auto split: list.split)

lemma join_Cons [simp]: "fs \<noteq> [] \<Longrightarrow> join c (f # fs) = f @ c # join c fs"
  by (cases fs) simp_all

lemma join_fields [simp]: "join c (fields c s) = s"
proof (induction s)
  case (Cons x s)
  then show ?case by (cases "fields c s"; cases "tl (fields c s)") auto
qed simp

lemma fields_chars: "f \<in> set (fields c s) \<Longrightarrow> c \<notin> set f \<and> set f \<subseteq> set s"
proof (induction s arbitrary: f)
  case (Cons x s)
  then show ?case by (cases "fields c s") (fastforce split: if_splits)+
qed simp

lemma join_chars: "set (join c fs) \<subseteq> insert c (\<Union> (set ` set fs))"
  by (induction fs rule: join.induct[of _ c]) auto

section \<open>A line\<close>

definition line_reference :: "string \<Rightarrow> config \<Rightarrow> config" where
  "line_reference line config =
     (case dropWhile (\<lambda>f. config (trimmed f) = None) (fields (CHR ''='') line) of
        [] \<Rightarrow> config
      | name # rest \<Rightarrow> assign config (trimmed name) (trimmed (join (CHR ''='') rest)))"

lemma parse_line_fields:
  assumes "fs \<noteq> []" and "\<forall>f \<in> set fs. CHR ''='' \<notin> set f \<and> CHR 0x0A \<notin> set f"
  shows "parse_line config (join (CHR ''='') fs) =
    Some (case dropWhile (\<lambda>f. config (trimmed f) = None) fs of
            [] \<Rightarrow> config
          | name # rest \<Rightarrow> assign config (trimmed name) (trimmed (join (CHR ''='') rest)))"
  using assms
proof (induction fs)
  case (Cons f fs)
  have f: "CHR ''='' \<notin> set f" using Cons.prems by simp
  show ?case
  proof (cases "fs = []")
    case True
    then show ?thesis
      using f by (simp add: text_simps assign_def trimmed_blanks)
  next
    case False
    have nl: "CHR 0x0A \<notin> set (join (CHR ''='') fs)"
      using join_chars [of "CHR ''=''" fs] Cons.prems(2) by auto
    show ?thesis
    proof (cases "config (trimmed f) = None")
      case True
      then show ?thesis
        using Cons.IH False Cons.prems(2) parse_line_unknown [where config = config, OF f True, of "join (CHR ''='') fs"] by simp
    next
      case known: False
      then show ?thesis
        using parse_line_known [where config = config, OF f nl known] False by (auto split: list.split)
    qed
  qed
qed simp

lemma line_step_reference:
  assumes "CHR 0x0A \<notin> set line"
  shows "line_step line config = line_reference line config"
proof -
  have "parse_line config (join (CHR ''='') (fields (CHR ''='') line)) = Some (line_reference line config)"
    unfolding line_reference_def
    by (rule parse_line_fields) (use assms in \<open>auto dest: fields_chars\<close>)
  then show ?thesis by (simp add: line_step_def)
qed

section \<open>A file\<close>

lemma line_reference_Nil [simp]: "line_reference [] config = config"
  by (simp add: line_reference_def assign_def trimmed_blanks)

lemma parse_lines_fields:
  assumes "ls \<noteq> []" and "\<forall>l \<in> set ls. CHR 0x0A \<notin> set l"
  shows "parse_lines config (join (CHR 0x0A) ls) = Some (fold line_reference ls config)"
  using assms
proof (induction ls arbitrary: config)
  case (Cons l ls)
  have l: "CHR 0x0A \<notin> set l" using Cons.prems by simp
  show ?case
  proof (cases "ls = []")
    case True
    then show ?thesis
      using l by (cases "l = []"; subst parse_lines_unfold) (simp_all add: text_simps line_step_reference)
  next
    case False
    then show ?thesis
      using l Cons by (subst parse_lines_unfold) (simp add: text_simps line_step_reference)
  qed
qed simp

section \<open>Properties\<close>

text \<open>
  C28. \<open>load\<close> agrees with the reference on every file: with the lines of the file taken in order, in
  each the first of the texts between \<open>=\<close> signs that trims to an option names it, and everything
  behind it on that line, trimmed, becomes its value unless it is empty. No line affects another but
  through the options it assigns, and a file that cannot be opened changes nothing.
\<close>

theorem load_reference:
  "load H cf =
     (case read_file H (filePath cf) of
        None \<Rightarrow> Inr (1, cf)
      | Some content \<Rightarrow>
          Inr (0, cf\<lparr>config_map := fold line_reference (fields (CHR 0x0A) content) (config_map cf)\<rparr>))"
proof -
  have "parse_lines (config_map cf) content =
      Some (fold line_reference (fields (CHR 0x0A) content) (config_map cf))" for content
    using parse_lines_fields [of "fields (CHR 0x0A) content" "config_map cf"] by (simp add: fields_chars)
  then show ?thesis by (simp add: load_def split: option.split)
qed

end
