(* ===== verification/Getopt_Ref.thy ===== *)
theory Getopt_Ref
  imports Main_Prog
begin

text \<open>
  The command line as the user types it. \<open>cl_word\<close> lists the ways \<open>getopt_long(3)\<close> documents to give an
  option of the program's table; \<open>getopt_ok\<close> is its documented behaviour on words of these
  forms, with which \<open>parseArgs\<close> inverts the printing of its result as a command line. \<open>ref_getopt\<close>
  is an executable reader of GNU command lines that has this behaviour: it shows that the
  hypothesis can hold, and makes concrete command lines computable.
\<close>

section \<open>The forms of an option\<close>

datatype cl_word =
    Short_Flags string \<comment> \<open>\<open>-h\<close>, and several at once: \<open>-hs\<close>\<close>
  | Short_Attached char string \<comment> \<open>\<open>-gCODE\<close>\<close>
  | Short_Separate char string \<comment> \<open>\<open>-g CODE\<close>\<close>
  | Long_Flag string \<comment> \<open>\<open>--help\<close>\<close>
  | Long_Attached string string \<comment> \<open>\<open>--get=CODE\<close>\<close>
  | Long_Separate string string \<comment> \<open>\<open>--get CODE\<close>\<close>
  | Operand string \<comment> \<open>anything that does not start with a dash\<close>

fun words_of :: "cl_word \<Rightarrow> string list" where
  "words_of (Short_Flags cs) = [CHR ''-'' # cs]"
| "words_of (Short_Attached c a) = [CHR ''-'' # c # a]"
| "words_of (Short_Separate c a) = [[CHR ''-'', c], a]"
| "words_of (Long_Flag n) = [''--'' @ n]"
| "words_of (Long_Attached n a) = [''--'' @ n @ ''='' @ a]"
| "words_of (Long_Separate n a) = [''--'' @ n, a]"
| "words_of (Operand a) = [a]"

definition command_line :: "string \<Rightarrow> cl_word list \<Rightarrow> string list" where
  "command_line prog ws = prog # concat (map words_of ws)"

text \<open>What an option string says of a character: unknown, a flag, or an option with an argument.\<close>

fun short_kind :: "string \<Rightarrow> char \<Rightarrow> has_arg option" where
  "short_kind [] c = None"
| "short_kind (x # s) c =
     (if x = c \<and> c \<noteq> CHR '':'' then Some (if take 1 s = '':'' then Required_Argument else No_Argument)
      else short_kind s c)"

fun valid_word :: "string \<Rightarrow> long_option list \<Rightarrow> cl_word \<Rightarrow> bool" where
  "valid_word s lo (Short_Flags cs) = (cs \<noteq> [] \<and> list_all (\<lambda>c. short_kind s c = Some No_Argument) cs)"
| "valid_word s lo (Short_Attached c a) = (short_kind s c = Some Required_Argument \<and> a \<noteq> [])"
| "valid_word s lo (Short_Separate c a) = (short_kind s c = Some Required_Argument)"
| "valid_word s lo (Long_Flag n) = (map_option fst (map_of lo n) = Some No_Argument)"
| "valid_word s lo (Long_Attached n a) = (map_option fst (map_of lo n) = Some Required_Argument)"
| "valid_word s lo (Long_Separate n a) = (map_option fst (map_of lo n) = Some Required_Argument)"
| "valid_word s lo (Operand a) = (take 1 a \<noteq> ''-'')"

fun meaning :: "long_option list \<Rightarrow> cl_word \<Rightarrow> (char \<times> string) list" where
  "meaning lo (Short_Flags cs) = map (\<lambda>c. (c, [])) cs"
| "meaning lo (Short_Attached c a) = [(c, a)]"
| "meaning lo (Short_Separate c a) = [(c, a)]"
| "meaning lo (Long_Flag n) = [(snd (the (map_of lo n)), [])]"
| "meaning lo (Long_Attached n a) = [(snd (the (map_of lo n)), a)]"
| "meaning lo (Long_Separate n a) = [(snd (the (map_of lo n)), a)]"
| "meaning lo (Operand a) = []"

text \<open>
  The documented behaviour, for the program's option string and table: a long option is recognised by
  its full name, operands are passed over (\<open>POSIXLY_CORRECT\<close> is not set).
\<close>

definition getopt_ok :: "getopt \<Rightarrow> bool" where
  "getopt_ok g \<longleftrightarrow> (\<forall>prog ws. list_all (valid_word ''hvg:r:s'' long_options) ws \<longrightarrow>
     g ''hvg:r:s'' long_options (command_line prog ws) = concat (map (meaning long_options) ws))"

section \<open>A reader of GNU command lines\<close>

text \<open>
  A word behind the dash: results, and the option that still wants the next word as its argument.
\<close>

definition unknown_opt :: "char \<times> string" where
  "unknown_opt = (CHR ''?'', [])"

fun scan_short :: "string \<Rightarrow> string \<Rightarrow> (char \<times> string) list \<times> char option" where
  "scan_short s [] = ([], None)"
| "scan_short s (c # cs) =
     (case short_kind s c of
        Some Required_Argument \<Rightarrow> if cs = [] then ([], Some c) else ([(c, cs)], None)
      | k \<Rightarrow> (case scan_short s cs of
                (rs, p) \<Rightarrow> ((if k = None then unknown_opt else (c, [])) # rs, p)))"

definition find_long :: "long_option list \<Rightarrow> string \<Rightarrow> (has_arg \<times> char) option" where
  "find_long lo n =
     (case map_of lo n of
        Some e \<Rightarrow> Some e
      | None \<Rightarrow> (case filter (\<lambda>(m, _). take (length n) m = n) lo of [(_, e)] \<Rightarrow> Some e | _ \<Rightarrow> None))"

definition scan_long :: "long_option list \<Rightarrow> string \<Rightarrow> (char \<times> string) list \<times> char option" where
  "scan_long lo w =
     (let n = takeWhile (\<lambda>c. c \<noteq> CHR ''='') w; a = dropWhile (\<lambda>c. c \<noteq> CHR ''='') w in
      case find_long lo n of
        None \<Rightarrow> ([unknown_opt], None)
      | Some (No_Argument, c) \<Rightarrow> ([if a = [] then (c, []) else unknown_opt], None)
      | Some (Required_Argument, c) \<Rightarrow> if a = [] then ([], Some c) else ([(c, tl a)], None))"

fun scan_words :: "string \<Rightarrow> long_option list \<Rightarrow> char option \<Rightarrow> string list \<Rightarrow> (char \<times> string) list" where
  "scan_words s lo None [] = []"
| "scan_words s lo (Some c) [] = [unknown_opt]"
| "scan_words s lo (Some c) (w # ws) = (c, w) # scan_words s lo None ws"
| "scan_words s lo None (w # ws) =
     (if w = ''--'' then []
      else if take 2 w = ''--'' then
        (case scan_long lo (drop 2 w) of (rs, p) \<Rightarrow> rs @ scan_words s lo p ws)
      else if take 1 w = ''-'' \<and> length w > 1 then
        (case scan_short s (drop 1 w) of (rs, p) \<Rightarrow> rs @ scan_words s lo p ws)
      else scan_words s lo None ws)"

definition ref_getopt :: getopt where
  "ref_getopt s lo argv = scan_words s lo None (drop 1 argv)"

text \<open>It has the documented behaviour.\<close>

lemma kind_not_dash: "short_kind ''hvg:r:s'' c = Some k \<Longrightarrow> c \<noteq> CHR ''-''"
  by auto

lemma scan_short_flags:
  "list_all (\<lambda>c. short_kind s c = Some No_Argument) cs \<Longrightarrow> scan_short s cs = (map (\<lambda>c. (c, [])) cs, None)"
  by (induction cs) auto

lemma long_names: "map_of long_options n = Some e \<Longrightarrow> CHR ''='' \<notin> set n \<and> n \<noteq> []"
  by (drule map_of_SomeD) (auto simp: long_options_def)

lemma scan_long_name:
  assumes "map_of long_options n = Some (k, c)"
  shows "scan_long long_options n = (case k of No_Argument \<Rightarrow> ([(c, [])], None) | Required_Argument \<Rightarrow> ([], Some c))"
    and "scan_long long_options (n @ CHR ''='' # a) =
      (case k of No_Argument \<Rightarrow> ([unknown_opt], None) | Required_Argument \<Rightarrow> ([(c, a)], None))"
proof -
  have n: "\<forall>x \<in> set n. x \<noteq> CHR ''=''" using long_names [OF assms] by auto
  have t: "takeWhile (\<lambda>c. c \<noteq> CHR ''='') (n @ CHR ''='' # a) = n"
    "dropWhile (\<lambda>c. c \<noteq> CHR ''='') (n @ CHR ''='' # a) = CHR ''='' # a"
    and e: "takeWhile (\<lambda>c. c \<noteq> CHR ''='') n = n" "dropWhile (\<lambda>c. c \<noteq> CHR ''='') n = []"
    using n by (simp_all add: takeWhile_append2 dropWhile_append2 takeWhile_eq_all_conv dropWhile_eq_Nil_conv)
  show "scan_long long_options n =
      (case k of No_Argument \<Rightarrow> ([(c, [])], None) | Required_Argument \<Rightarrow> ([], Some c))"
    unfolding scan_long_def e Let_def find_long_def assms by (simp split: has_arg.split)
  show "scan_long long_options (n @ CHR ''='' # a) =
      (case k of No_Argument \<Rightarrow> ([unknown_opt], None) | Required_Argument \<Rightarrow> ([(c, a)], None))"
    unfolding scan_long_def t Let_def find_long_def assms by (simp split: has_arg.split)
qed

lemma scan_word:
  assumes "valid_word ''hvg:r:s'' long_options w"
  shows "scan_words ''hvg:r:s'' long_options None (words_of w @ ws) =
    meaning long_options w @ scan_words ''hvg:r:s'' long_options None ws"
proof (cases w)
  case (Short_Flags cs)
  then obtain c cs' where cs: "cs = c # cs'" and c: "c \<noteq> CHR ''-''"
    using assms kind_not_dash by (cases cs) auto
  with Short_Flags assms scan_short_flags [of "''hvg:r:s''" cs] show ?thesis by simp
next
  case (Short_Attached c a)
  with assms kind_not_dash [of c] show ?thesis by simp
next
  case (Short_Separate c a)
  with assms kind_not_dash [of c] show ?thesis by simp
next
  case (Long_Flag n)
  then obtain c where "map_of long_options n = Some (No_Argument, c)" using assms by auto
  with Long_Flag long_names show ?thesis by (simp add: scan_long_name)
next
  case (Long_Attached n a)
  then obtain c where "map_of long_options n = Some (Required_Argument, c)" using assms by auto
  with Long_Attached long_names show ?thesis by (simp add: scan_long_name)
next
  case (Long_Separate n a)
  then obtain c where "map_of long_options n = Some (Required_Argument, c)" using assms by auto
  with Long_Separate long_names show ?thesis by (simp add: scan_long_name)
next
  case (Operand a)
  with assms show ?thesis by (cases a) auto
qed

lemma ref_getopt_ok: "getopt_ok ref_getopt"
  unfolding getopt_ok_def
proof (intro allI impI)
  fix prog ws
  assume "list_all (valid_word ''hvg:r:s'' long_options) ws"
  then show "ref_getopt ''hvg:r:s'' long_options (command_line prog ws) = concat (map (meaning long_options) ws)"
    by (induction ws) (simp_all add: ref_getopt_def command_line_def scan_word)
qed

section \<open>Printing the parsed arguments as a command line\<close>

definition flag_word :: "bool \<Rightarrow> bool \<Rightarrow> char \<Rightarrow> string \<Rightarrow> cl_word list" where
  "flag_word long b c name = (if b then [if long then Long_Flag name else Short_Flags [c]] else [])"

definition arg_word :: "bool \<Rightarrow> char \<Rightarrow> string \<Rightarrow> string \<Rightarrow> cl_word" where
  "arg_word long c name a = (if long then Long_Attached name a else Short_Separate c a)"

definition render :: "bool \<Rightarrow> parsed_args \<Rightarrow> cl_word list" where
  "render long pa =
     flag_word long (pa_help pa) (CHR ''h'') ''help'' @
     flag_word long (pa_version pa) (CHR ''v'') ''version'' @
     flag_word long (pa_sign pa) (CHR ''s'') ''sign'' @
     flag_word True (pa_aes_encrypt pa) (CHR ''3'') ''aes-encrypt'' @
     flag_word True (pa_gpg_encrypt pa) (CHR ''4'') ''gpg-encrypt'' @
     flag_word True (pa_no_decrypt pa) (CHR ''1'') ''no-decrypt'' @
     flag_word True (pa_self_recipient pa) (CHR ''2'') ''self-recipient'' @
     (if pa_code pa = [] then [] else [arg_word long (CHR ''g'') ''get'' (pa_code pa)]) @
     map (arg_word long (CHR ''r'') ''recipients'') (pa_recipients pa)"

lemma long_lookup [simp]:
  "map_of long_options ''help'' = Some (No_Argument, CHR ''h'')"
  "map_of long_options ''version'' = Some (No_Argument, CHR ''v'')"
  "map_of long_options ''get'' = Some (Required_Argument, CHR ''g'')"
  "map_of long_options ''aes-encrypt'' = Some (No_Argument, CHR ''3'')"
  "map_of long_options ''gpg-encrypt'' = Some (No_Argument, CHR ''4'')"
  "map_of long_options ''recipients'' = Some (Required_Argument, CHR ''r'')"
  "map_of long_options ''sign'' = Some (No_Argument, CHR ''s'')"
  "map_of long_options ''no-decrypt'' = Some (No_Argument, CHR ''1'')"
  "map_of long_options ''self-recipient'' = Some (No_Argument, CHR ''2'')"
  by (simp_all add: long_options_def)

lemma render_valid: "list_all (valid_word ''hvg:r:s'' long_options) (render long pa)"
  by (auto simp: render_def flag_word_def arg_word_def list_all_iff)

definition rendered_opts :: "parsed_args \<Rightarrow> (char \<times> string) list" where
  "rendered_opts pa =
     (let flag = (\<lambda>b c. if b then [(c, [])] else []) in
      flag (pa_help pa) (CHR ''h'') @ flag (pa_version pa) (CHR ''v'') @ flag (pa_sign pa) (CHR ''s'') @
      flag (pa_aes_encrypt pa) (CHR ''3'') @ flag (pa_gpg_encrypt pa) (CHR ''4'') @
      flag (pa_no_decrypt pa) (CHR ''1'') @ flag (pa_self_recipient pa) (CHR ''2'') @
      (if pa_code pa = [] then [] else [(CHR ''g'', pa_code pa)]) @ map (Pair (CHR ''r'')) (pa_recipients pa))"

lemma render_meaning: "concat (map (meaning long_options) (render long pa)) = rendered_opts pa"
proof -
  have "concat (map (meaning long_options) (map (arg_word long (CHR ''r'') ''recipients'') rs)) =
      map (Pair (CHR ''r'')) rs" for rs
    by (induction rs) (simp_all add: arg_word_def)
  then show ?thesis
    by (simp add: render_def rendered_opts_def flag_word_def arg_word_def Let_def)
qed

lemma args_of_simps [simp]:
  "args_of c [] = []" "args_of c ((c', a) # os) = (if c' = c then a # args_of c os else args_of c os)"
  "args_of c (xs @ ys) = args_of c xs @ args_of c ys"
  by (simp_all add: args_of_def)

lemma args_of_Pair [simp]: "args_of c (map (Pair c') as) = (if c' = c then as else [])"
  by (induction as) auto

lemma rendered_known: "list_all known_opt (rendered_opts pa)"
  by (auto simp: rendered_opts_def Let_def list_all_iff known_opt_def)

lemma args_of_rendered:
  "args_of (CHR ''h'') (rendered_opts pa) \<noteq> [] \<longleftrightarrow> pa_help pa"
  "args_of (CHR ''v'') (rendered_opts pa) \<noteq> [] \<longleftrightarrow> pa_version pa"
  "args_of (CHR ''s'') (rendered_opts pa) \<noteq> [] \<longleftrightarrow> pa_sign pa"
  "args_of (CHR ''3'') (rendered_opts pa) \<noteq> [] \<longleftrightarrow> pa_aes_encrypt pa"
  "args_of (CHR ''4'') (rendered_opts pa) \<noteq> [] \<longleftrightarrow> pa_gpg_encrypt pa"
  "args_of (CHR ''1'') (rendered_opts pa) \<noteq> [] \<longleftrightarrow> pa_no_decrypt pa"
  "args_of (CHR ''2'') (rendered_opts pa) \<noteq> [] \<longleftrightarrow> pa_self_recipient pa"
  "args_of (CHR ''g'') (rendered_opts pa) = (if pa_code pa = [] then [] else [pa_code pa])"
  "args_of (CHR ''r'') (rendered_opts pa) = pa_recipients pa"
  by (simp_all add: rendered_opts_def Let_def)

section \<open>Properties\<close>

text \<open>
  C33. \<open>parseArgs\<close> inverts the printing of its result: every combination of flags, code and recipients
  (all that \<open>parseArgs\<close> returns when it does not fail) is what the command line with these options
  parses to, with long options or with the short ones where there are any.
\<close>

theorem parse_args_roundtrip:
  assumes "getopt_ok g" and "\<not> pa_fail pa"
  shows "parseArgs g (command_line prog (render long pa)) = pa"
proof -
  have r: "getopt_results g (command_line prog (render long pa)) = rendered_opts pa"
    using assms(1) render_valid [of long pa] render_meaning [of long pa]
    by (simp add: getopt_results_def getopt_ok_def)
  have k: "takeWhile known_opt (rendered_opts pa) = rendered_opts pa"
    using rendered_known [of pa] by (simp add: list_all_iff)
  show ?thesis
    unfolding parseArgs_def r parse_opts_eq k Let_def
    using assms(2) by (simp add: parsed_args_new_def args_of_rendered)
qed

theorem parse_args_roundtrip_witness:
  "parseArgs ref_getopt [''dpaste'', ''--sign'', ''--gpg-encrypt'', ''--recipients=alice'', ''--recipients=bob''] =
     parsed_args_new\<lparr>pa_sign := True, pa_gpg_encrypt := True, pa_recipients := [''alice'', ''bob'']\<rparr> \<and>
   parseArgs ref_getopt [''dpaste'', ''-g'', ''dpaste:B79F2F91''] = parsed_args_new\<lparr>pa_code := ''dpaste:B79F2F91''\<rparr>"
  using parse_args_roundtrip [OF ref_getopt_ok, of "parsed_args_new\<lparr>pa_sign := True, pa_gpg_encrypt := True,
      pa_recipients := [''alice'', ''bob'']\<rparr>" "''dpaste''" True]
    parse_args_roundtrip [OF ref_getopt_ok, of "parsed_args_new\<lparr>pa_code := ''dpaste:B79F2F91''\<rparr>" "''dpaste''" False]
  by (simp add: parsed_args_new_def command_line_def render_def flag_word_def arg_word_def)

end
