(* ===== verification/Curlpp_Slots.thy ===== *)
theory Curlpp_Slots
  imports Curlpp_Options
begin

text \<open>
  The whole table of \<open>src/curlpp/Options.hpp\<close>: which of its options set the same constant of libcurl.
\<close>

section \<open>Which options share a setting\<close>














section \<open>Properties\<close>



end
