(* ===== verification/Refused_Port.thy ===== *)
theory Refused_Port
  imports Main_Prog
begin

text \<open>
  A port in \<open>dpaste.conf\<close> that libcurl refuses. The constructor accepts any \<open>long\<close>; \<open>setOpt\<close> of the port
  then throws a \<open>RuntimeError\<close>, in \<open>HttpClient::get\<close> and \<open>HttpClient::put\<close> outside the block whose
  \<open>catch\<close> clause is for it. This theory follows that exception from the client to \<open>main\<close>.
\<close>

section \<open>Through the transport\<close>

definition port_refused :: "libs \<Rightarrow> http_client \<Rightarrow> bool" where
  "port_refused L hc \<longleftrightarrow> curl_ok (lib_http L) \<and> port_code (lib_http L) hc = Curl_Runtime_Error"

lemma refused_requests:
  assumes "port_refused L hc"
  shows "http_put (lib_dht L) (lib_http L) hc code data w = (Inl Curlpp_Runtime_Error, w)"
    and "http_get (lib_dht L) (lib_http L) hc code w = (Inl Curlpp_Runtime_Error, w)"
  using assms by (simp_all add: port_refused_def run_http_put run_http_get Let_def request_setup_port)

lemma refused_transport:
  assumes "port_refused L hc"
  shows "send_blob L J hc code d w = (Inl Curlpp_Runtime_Error, w)"
    and "fetch_blob L hc code w = (Inl Curlpp_Runtime_Error, w)"
  by (simp_all add: send_blob_def fetch_blob_def run_bind_Inl refused_requests [OF assms])

section \<open>Through the pastebin\<close>

lemma refused_paste:
  assumes "port_refused L (bin_http b)"
    and "prepare_data L J b data params (after_pin (lib_rng L) w) = (Inr (p, pwd), w1)"
  shows "bin_paste L J b data params w = (Inl Curlpp_Runtime_Error, after_msg ''Pasting data...'' [] w1)"
  using assms(2)
  by (simp add: bin_paste_def run_bind_Inr run_bind_Inl run_random_pin run_then_Inr run_msg Let_def
      refused_transport [OF assms(1)])

lemma refused_get:
  assumes "port_refused L (bin_http b)" and "code_from_dpaste_uri uri = Some code" and "8 \<le> length code"
  shows "bin_get L J b uri nd w = (Inl Curlpp_Runtime_Error, w)"
  using assms(2,3)
  by (simp add: bin_get_def run_bind_Inr run_bind_Inl run_lift or_out_of_range_def substr_def substr_from_def
      CODE_PASS_OFFSET_def refused_transport [OF assms(1)])

section \<open>A configuration with such a port\<close>

definition port_host :: host_lib where
  "port_host = test_host\<lparr>read_file := (\<lambda>p. if p = ''/home/u/.config/dpaste.conf'' then
     Some (unlines (map assignment_line [(''port'', ''70000'')])) else None)\<rparr>"

definition port_libs :: libs where
  "port_libs = toy_libs toy_http\<lparr>lib_host := port_host\<rparr>"

lemma port_libs_sel [simp]:
  "lib_http port_libs = toy_http" "lib_gpgme port_libs = toy_gpgme" "lib_host port_libs = port_host"
  by (simp_all add: port_libs_def)

lemma port_libs_start:
  "\<exists>b w1 w. bin_new port_libs junk_a init_world = (Inr b, w1) \<and> cipher_init (lib_gpgme port_libs) w1 = (Inr (), w) \<and>
     port_code (lib_http port_libs) (bin_http b) = Curl_Runtime_Error"
proof -
  let ?cf = "configuration_file port_host []" and ?kvs = "[(''port'', ''70000'')]"
  have f: "read_file port_host (filePath ?cf) = Some (unlines (map assignment_line ?kvs))"
    by (simp add: port_host_def test_host_def configuration_file_def CONFIG_FILE_NAME_def)
  have w: "list_all (well_formed_assignment (config_map ?cf)) ?kvs"
    by (simp add: configuration_file_def default_config_def well_formed_assignment_def tidy_def)
  have p: "extract_long j ''70000'' = 70000" for j
    by (simp add: extract_long_def is_space_def is_digit_def decimal_def LONG_MIN_def LONG_MAX_def)
  let ?c = "default_config(''port'' \<mapsto> ''70000'')"
  let ?b = "\<lparr>bin_conf = ?c, bin_http = \<lparr>hc_host = ''127.0.0.1'', hc_port = 70000\<rparr>, bin_node = \<lparr>running = True\<rparr>\<rparr>"
  let ?w1 = "fold record_event [Dht_Run 0, Dht_Bootstrap ''bootstrap.ring.cx'' ''4222''] init_world"
  have l: "load port_host ?cf = Inr (0, ?cf\<lparr>config_map := ?c\<rparr>)"
    using load_assignments [OF f w] by (simp add: configuration_file_def)
  have m: "map_at ?c ''port'' = Inr ''70000''" "map_at ?c ''host'' = Inr ''127.0.0.1''"
    by (simp_all add: map_at_def default_config_def)
  have rn: "run_default node_new init_world = (Inr \<lparr>running = True\<rparr>, ?w1)"
    by (simp add: run_default_def run_def node_new_def proc_simps DEFAULT_BOOTSTRAP_NODE_def DEFAULT_BOOTSTRAP_PORT_def)
  have "bin_new port_libs junk_a init_world = (Inr ?b, ?w1)"
    by (simp add: bin_new_def l m p rn run_lift run_bind_Inr getConfiguration_def run_return)
  moreover have "hc_port (bin_http ?b) = 70000" "\<not> cipher_initialized ?w1" "\<not> gpg_initialized ?w1"
    by (simp_all add: init_world_def)
  ultimately have "\<exists>b w1. bin_new port_libs junk_a init_world = (Inr b, w1) \<and> hc_port (bin_http b) = 70000 \<and>
      \<not> cipher_initialized w1 \<and> \<not> gpg_initialized w1" by blast
  then obtain b w1 where b: "bin_new port_libs junk_a init_world = (Inr b, w1)" "hc_port (bin_http b) = 70000"
    and g: "\<not> cipher_initialized w1" "\<not> gpg_initialized w1" by blast
  obtain w where "cipher_init toy_gpgme w1 = (Inr (), w)" using toy_cipher_init [OF g] by blast
  with b toy_port_code(2) show ?thesis by simp
qed

section \<open>Properties\<close>

text \<open>
  C12. When libcurl refuses the configured port, neither transport is ever used: a get with a code of
  at least eight characters and a paste whose preparation works both leave \<open>main\<close> by the uncaught
  \<open>RuntimeError\<close> of curlpp. The only events of the paste since the start are messages; the node,
  which would have taken the packet or might have it, is not asked.
\<close>

theorem refused_port_escapes:
  assumes "list_all known_opt (getopt_results getopt argv)"
    and "args_of (CHR ''h'') (getopt_results getopt argv) = []" "args_of (CHR ''v'') (getopt_results getopt argv) = []"
    and "bin_new L J w0 = (Inr b, w1)" and "cipher_init (lib_gpgme L) w1 = (Inr (), w)"
    and "curl_ok (lib_http L)" and "port_code (lib_http L) (bin_http b) = Curl_Runtime_Error"
  shows "(case pa_code (parseArgs getopt argv) of
       [] \<Rightarrow>
         (case prepare_data L J b (data_from_stream L input) (chosen_params (junk_flags_of J) (getopt_results getopt argv))
                 (after_pin (lib_rng L) w) of
            (Inr x, w2) \<Rightarrow> \<exists>w' msgs. main_prog L J C getopt argv input w0 = (Inl Curlpp_Runtime_Error, w') \<and>
              trace w' = trace w @ msgs \<and> list_all is_message msgs
          | (Inl e, w2) \<Rightarrow> True)
     | uri \<Rightarrow>
         (case code_from_dpaste_uri uri of
            Some code \<Rightarrow> length code < 8 \<or> main_prog L J C getopt argv input w0 = (Inl Curlpp_Runtime_Error, w)
          | None \<Rightarrow> False))"
proof -
  let ?pa = "parseArgs getopt argv"
  let ?params = "chosen_params (junk_flags_of J) (getopt_results getopt argv)"
  have refused: "port_refused L (bin_http b)" using assms(6,7) by (simp add: port_refused_def)
  note run = run_main_prog [OF assms(1-5), of C input]
  show ?thesis
  proof (cases "pa_code ?pa")
    case Nil
    obtain q w2 where prep: "prepare_data L J b (data_from_stream L input) ?params (after_pin (lib_rng L) w) = (q, w2)"
      by (cases "prepare_data L J b (data_from_stream L input) ?params (after_pin (lib_rng L) w)")
    show ?thesis
    proof (cases q)
      case (Inr x)
      let ?w' = "after_msg ''Pasting data...'' [] w2"
      have "bin_paste L J b (data_from_stream L input) ?params w = (Inl Curlpp_Runtime_Error, ?w')"
        using refused_paste [OF refused] prep Inr by (cases x) simp
      then have m: "main_prog L J C getopt argv input w0 = (Inl Curlpp_Runtime_Error, ?w')"
        using run Nil by (simp add: main_paste_def bin_paste_stream_def params_of_known [OF assms(1)] run_bind_Inl)
      obtain es where es: "list_all is_message es" "trace w2 = trace w @ es"
        using prepare_data_frame [OF prep] by auto
      obtain fs where "list_all is_message fs" "trace ?w' = trace w2 @ fs"
        using only_messagesD [OF messages_msg run_msg] by blast
      with es have "trace ?w' = trace w @ (es @ fs)" "list_all is_message (es @ fs)" by simp_all
      with m show ?thesis by (auto simp: Nil prep Inr)
    qed (simp add: Nil prep)
  next
    case (Cons c cs)
    obtain code where code: "code_from_dpaste_uri (c # cs) = Some code"
      using code_from_uri_total [of "c # cs"] by blast
    have "8 \<le> length code \<Longrightarrow> main_prog L J C getopt argv input w0 = (Inl Curlpp_Runtime_Error, w)"
      using run refused_get [OF refused code] Cons by (simp add: main_get_def run_bind_Inl)
    then show ?thesis by (cases "length code < 8") (simp_all add: Cons code)
  qed
qed

theorem refused_port_escapes_witness:
  "\<exists>w w'. main_prog port_libs junk_a toy_build (get_option ''dpaste:B79F2F91'') [] [] init_world = (Inl Curlpp_Runtime_Error, w) \<and>
     main_prog port_libs junk_a toy_build (flag_options ''s3'') [] ''hi'' init_world = (Inl Curlpp_Runtime_Error, w')"
proof -
  let ?g = "get_option ''dpaste:B79F2F91''" and ?p = "flag_options ''s3''"
  obtain b w1 w where start: "bin_new port_libs junk_a init_world = (Inr b, w1)"
    "cipher_init (lib_gpgme port_libs) w1 = (Inr (), w)"
    and port: "port_code (lib_http port_libs) (bin_http b) = Curl_Runtime_Error"
    using port_libs_start by blast
  have curl: "curl_ok (lib_http port_libs)" by (simp add: toy_curl_ok)
  have go: "list_all known_opt (getopt_results ?g [])" "args_of (CHR ''h'') (getopt_results ?g []) = []"
    "args_of (CHR ''v'') (getopt_results ?g []) = []"
    and po: "list_all known_opt (getopt_results ?p [])" "args_of (CHR ''h'') (getopt_results ?p []) = []"
    "args_of (CHR ''v'') (getopt_results ?p []) = []" "args_of (CHR ''g'') (getopt_results ?p []) = []"
    by (simp_all add: known_opt_def args_of_def)
  have gc: "pa_code (parseArgs ?g []) = ''dpaste:B79F2F91''" by (simp add: parseArgs_def parsed_args_new_def)
  have pc: "pa_code (parseArgs ?p []) = []" by (simp only: code_of_known [OF po(1)] po(4)) simp
  have code: "code_from_dpaste_uri ''dpaste:B79F2F91'' = Some ''B79F2F91''"
    using code_from_pasted [of "''B79F2F91''"] by (simp add: DPASTE_URI_PREFIX_def)
  have chosen: "chosen_params (junk_flags_of junk_a) (getopt_results ?p []) = Some (AES_Params (aes_parameters []))"
    by (simp add: chosen_params_def args_of_def)
  let ?d = "data_from_stream port_libs ''hi''"
  obtain x w2 where prep: "prepare_data port_libs junk_a b ?d (Some (AES_Params (aes_parameters [])))
      (after_pin (lib_rng port_libs) w) = (Inr x, w2)"
    by (simp add: run_prepare_aes Let_def)
  have "main_prog port_libs junk_a toy_build ?g [] [] init_world = (Inl Curlpp_Runtime_Error, w)"
    using refused_port_escapes [OF go start curl port, of toy_build "[]"] by (simp add: gc code)
  moreover obtain w' where "main_prog port_libs junk_a toy_build ?p [] ''hi'' init_world = (Inl Curlpp_Runtime_Error, w')"
    using refused_port_escapes [OF po(1-3) start curl port, of toy_build "''hi''"] unfolding pc chosen prep by auto
  ultimately show ?thesis by blast
qed

end
