(* ===== verification/Unit_Tests.thy ===== *)
theory Unit_Tests
  imports Main_Prog
begin

text \<open>
  The unit tests of the repository (\<open>src/tests\<close>) as procedures over the model: each leaf section of a
  test case is one run, with the sections around it, and is \<open>True\<close> when every \<open>REQUIRE\<close> of it holds.
\<close>

section \<open>tests.cpp\<close>



section \<open>bin.cpp\<close>










section \<open>conf.cpp\<close>






section \<open>node.cpp\<close>


section \<open>aes.cpp\<close>


section \<open>The suite\<close>


section \<open>What the tests rely on\<close>




section \<open>Running the tests\<close>





section \<open>Each test\<close>











section \<open>An environment\<close>




section \<open>Properties\<close>



end
