(* ===== verification/Main_Roundtrip.thy ===== *)
theory Main_Roundtrip
  imports Main_Prog
begin

text \<open>
  The program run twice: what a paste of the command line printed is given to a later get. The lemma
  of the first section reduces such a statement to \<open>Bin::paste\<close> and \<open>Bin::get\<close>; it is used for AES, for a
  paste without a cipher, for GPG and for signed data. What lies between the two runs (\<open>hs\<close>) is
  anything that stores nothing under the PIN of the paste.
\<close>

section \<open>From main to Bin\<close>

text \<open>The options of a paste, and the two starts of the program; \<open>w3\<close> is where the get begins.\<close>

definition paste_options :: "(char \<times> string) list \<Rightarrow> bool" where
  "paste_options opts \<longleftrightarrow> list_all known_opt opts \<and>
     args_of (CHR ''h'') opts = [] \<and> args_of (CHR ''v'') opts = [] \<and> args_of (CHR ''g'') opts = []"

definition starts :: "libs \<Rightarrow> junk \<Rightarrow> world \<Rightarrow> bin \<Rightarrow> world \<Rightarrow> bool" where
  "starts L J w0 b w \<longleftrightarrow> (\<exists>w1. bin_new L J w0 = (Inr b, w1) \<and> cipher_init (lib_gpgme L) w1 = (Inr (), w))"

lemma paste_optionsD:
  assumes "paste_options opts"
  shows "list_all known_opt opts" "args_of (CHR ''h'') opts = []" "args_of (CHR ''v'') opts = []"
    "args_of (CHR ''g'') opts = []"
  using assms by (simp_all add: paste_options_def)

lemma starts_trace:
  assumes "starts L J w0 b w"
  shows "\<exists>es. list_all no_store es \<and> trace w = trace w0 @ es"
  using assms start_trace unfolding starts_def by blast

text \<open>The options of a get: the code, and whether it asks not to decrypt.\<close>

definition get_options :: "string \<Rightarrow> bool \<Rightarrow> (char \<times> string) list \<Rightarrow> bool" where
  "get_options uri nd opts \<longleftrightarrow> opts = [(CHR ''g'', uri)] @ (if nd then [(CHR ''1'', [])] else [])"

lemma main_paste_then_get:
  assumes opts: "paste_options (getopt_results getopt argv)"
    and start: "starts L J w0 b w"
    and run1: "main_prog L J C getopt argv input w0 = (Inr 0, w1)"
    and start': "trace w2 = trace w1 @ hs" "list_all (spares L (bin_http b) (pin_text (process_pin (lib_rng L) w))) hs" "starts L J' w2 b' w3"
    and again: "\<And>uri w' es. \<lbrakk>bin_paste L J b (data_from_stream L input)
        (chosen_params (junk_flags_of J) (getopt_results getopt argv)) w = (Inr uri, w'); uri \<noteq> [];
        list_all (spares L (bin_http b) (pin_text (process_pin (lib_rng L) w))) es;
        trace w3 = trace w' @ es\<rbrakk> \<Longrightarrow> fst (bin_get L J' b' uri nd w3) = Inr (True, out)"
  shows "\<exists>uri. last (trace w1) = Stdout (uri @ [newline]) \<and>
     (\<forall>getopt' argv' input'. get_options uri nd (getopt_results getopt' argv') \<longrightarrow>
        fst (main_prog L J' C getopt' argv' input' w2) = Inr 0 \<and>
        last (trace (snd (main_prog L J' C getopt' argv' input' w2))) = Stdout out)"
proof -
  note opts = paste_optionsD [OF opts]
  obtain wa where start: "bin_new L J w0 = (Inr b, wa)" "cipher_init (lib_gpgme L) wa = (Inr (), w)"
    using start unfolding starts_def by blast
  obtain wb where start2: "bin_new L J' w2 = (Inr b', wb)" "cipher_init (lib_gpgme L) wb = (Inr (), w3)"
    using start'(3) unfolding starts_def by blast
  have "main_paste L J b (parseArgs getopt argv) input w = (Inr 0, w1)"
    using run1 run_main_prog [OF opts(1-3) start, of C input] code_of_known [OF opts(1)] opts(4) by simp
  then obtain uri w' where p: "bin_paste_stream L J b input (params_from_args (junk_flags_of J) (parseArgs getopt argv)) w
      = (Inr uri, w')" "uri \<noteq> []" and w1: "w1 = record_event (Stdout (uri @ [newline])) w'"
    using main_paste_Inr by blast
  have paste: "bin_paste L J b (data_from_stream L input)
      (chosen_params (junk_flags_of J) (getopt_results getopt argv)) w = (Inr uri, w')"
    using p(1) by (simp add: bin_paste_stream_def params_of_known [OF opts(1)])
  obtain es where es: "list_all no_store es" "trace w3 = trace w2 @ es"
    using start_trace [OF start2] by blast
  have get: "fst (bin_get L J' b' uri nd w3) = Inr (True, out)"
    by (rule again [OF paste p(2), of "[Stdout (uri @ [newline])] @ hs @ es"])
      (use es start'(1,2) w1 in \<open>simp_all add: list_no_store_spares no_store_spares\<close>)
  have "fst (main_prog L J' C getopt' argv' input' w2) = Inr 0 \<and>
      last (trace (snd (main_prog L J' C getopt' argv' input' w2))) = Stdout out"
    if g: "get_options uri nd (getopt_results getopt' argv')" for getopt' argv' input'
  proof -
    let ?pa = "parseArgs getopt' argv'"
    have k: "list_all known_opt (getopt_results getopt' argv')"
      "args_of (CHR ''h'') (getopt_results getopt' argv') = []" "args_of (CHR ''v'') (getopt_results getopt' argv') = []"
      using g by (auto simp: get_options_def known_opt_def args_of_def)
    have pa: "pa_code ?pa = uri" "pa_no_decrypt ?pa = nd"
      using g by (auto simp: parseArgs_def parsed_args_new_def get_options_def)
    have "main_prog L J' C getopt' argv' input' w2 = main_get L J' b' ?pa w3"
      using run_main_prog [OF k start2, of C input'] p(2) pa by simp
    with run_main_get [of L J' b' ?pa w3 True] get show ?thesis by (simp add: pa)
  qed
  with w1 show ?thesis by auto
qed

section \<open>Two concrete runs\<close>

text \<open>
  On the concrete libraries, with a configuration that leaves host and port as they are: when the
  preparation of the data works, a paste exits with 0, and another process starts after it.
\<close>

definition home_libs :: "http_lib \<Rightarrow> host_lib \<Rightarrow> libs" where
  "home_libs H host = toy_libs H\<lparr>lib_host := host\<rparr>"

lemma home_libs_sel [simp]:
  "lib_gpgme (home_libs H host) = toy_gpgme" "lib_aes (home_libs H host) = toy_aes"
  "lib_msgpack (home_libs H host) = ref_msgpack" "lib_http (home_libs H host) = H"
  "lib_dht (home_libs H host) = toy_dht" "lib_rng (home_libs H host) = lcg_rng"
  "lib_host (home_libs H host) = host" "MAX_VALUE_SIZE (home_libs H host) = 65536"
  by (simp_all add: home_libs_def)

lemma home_libs_test [simp]: "home_libs H test_host = toy_libs H"
  by (simp add: home_libs_def toy_libs_def)

definition loads :: "host_lib \<Rightarrow> config \<Rightarrow> bool" where
  "loads host c \<longleftrightarrow> (\<exists>rc cf. load host (configuration_file host []) = Inr (rc, cf) \<and> config_map cf = c) \<and>
     c ''host'' = Some ''127.0.0.1'' \<and> c ''port'' = Some ''6509''"

lemma loads_default: "loads test_host default_config"
  by (simp add: loads_def load_def configuration_file_def test_host_def CONFIG_FILE_NAME_def) (simp add: default_config_def)

lemma toy_starts:
  assumes "loads host c"
  shows "\<exists>b w. starts (home_libs H host) junk_a (init_world\<lparr>trace := tr\<rparr>) b w \<and>
     bin_http b = \<lparr>hc_host = ''127.0.0.1'', hc_port = 6509\<rparr> \<and> bin_conf b = c"
proof -
  let ?w0 = "init_world\<lparr>trace := tr\<rparr>"
  let ?b = "\<lparr>bin_conf = c, bin_http = \<lparr>hc_host = ''127.0.0.1'', hc_port = 6509\<rparr>, bin_node = \<lparr>running = True\<rparr>\<rparr>"
  let ?w1 = "fold record_event [Dht_Run 0, Dht_Bootstrap ''bootstrap.ring.cx'' ''4222''] ?w0"
  obtain rc cf where l: "load host (configuration_file host []) = Inr (rc, cf)" "config_map cf = c"
    using assms unfolding loads_def by blast
  have m: "map_at c ''port'' = Inr ''6509''" "map_at c ''host'' = Inr ''127.0.0.1''"
    using assms by (simp_all add: map_at_def loads_def)
  have p: "extract_long j ''6509'' = 6509" for j
    by (simp add: extract_long_def is_space_def is_digit_def decimal_def LONG_MIN_def LONG_MAX_def)
  have rn: "run_default node_new ?w0 = (Inr \<lparr>running = True\<rparr>, ?w1)"
    by (simp add: run_default_def run_def node_new_def proc_simps DEFAULT_BOOTSTRAP_NODE_def DEFAULT_BOOTSTRAP_PORT_def)
  have new: "bin_new (home_libs H host) junk_a ?w0 = (Inr ?b, ?w1)"
    by (simp add: bin_new_def l m p rn run_lift run_bind_Inr getConfiguration_def run_return)
  have "\<not> cipher_initialized ?w1" "\<not> gpg_initialized ?w1" by (simp_all add: init_world_def)
  then obtain w where "cipher_init toy_gpgme ?w1 = (Inr (), w)" using toy_cipher_init by blast
  with new show ?thesis unfolding starts_def by (intro exI [of _ ?b] exI [of _ w]) simp
qed

lemma toy_two_runs:
  fixes g :: getopt and host :: host_lib
  defines "L \<equiv> home_libs toy_http host"
  assumes c: "loads host c"
    and opts: "paste_options (getopt_results g [])"
    and prep: "\<And>b w. bin_conf b = c \<Longrightarrow> \<exists>p pwd wp. prepare_data L junk_a b (data_from_stream L input)
       (chosen_params (junk_flags_of junk_a) (getopt_results g [])) (after_pin (lib_rng L) w) = (Inr (p, pwd), wp)"
  obtains b w w1 b' w3 where "starts L junk_a init_world b w" "\<And>code. transport_free L (bin_http b) w code"
    "main_prog L junk_a toy_build g [] input init_world = (Inr 0, w1)"
    "starts L junk_a (init_world\<lparr>trace := trace w1\<rparr>) b' w3" "bin_http b' = bin_http b"
proof -
  obtain b w where start: "starts L junk_a init_world b w"
    and b: "bin_http b = \<lparr>hc_host = ''127.0.0.1'', hc_port = 6509\<rparr>" "bin_conf b = c"
    using toy_starts [OF c, of toy_http "[]"] by (auto simp: L_def init_world_def)
  obtain es where es: "list_all no_store es" "trace w = trace init_world @ es"
    using starts_trace [OF start] by blast
  have free: "transport_free L (bin_http b) w code" for code
    using transport_cong(1) [OF es(2,1)] toy_free by blast
  obtain wa where new: "bin_new L junk_a init_world = (Inr b, wa)" "cipher_init (lib_gpgme L) wa = (Inr (), w)"
    using start unfolding starts_def by blast
  obtain p pwd wp where p: "prepare_data L junk_a b (data_from_stream L input)
      (chosen_params (junk_flags_of junk_a) (getopt_results g [])) (after_pin (lib_rng L) w) = (Inr (p, pwd), wp)"
    using prep [OF b(2)] by blast
  have send: "\<exists>w'. send_blob L junk_a (bin_http b) code d v = (Inr True, w')" for code d v
    using toy_send [of "bin_http b"] b(1) by (simp add: L_def send_blob_def cong: if_cong)
  obtain w' where "bin_paste L junk_a b (data_from_stream L input)
      (chosen_params (junk_flags_of junk_a) (getopt_results g [])) w =
      (Inr (DPASTE_URI_PREFIX @ pin_text (process_pin (lib_rng L) w) @ pwd), w')"
    using bin_paste_succeeds [OF p send] by blast
  then obtain w1 where run1: "main_prog L junk_a toy_build g [] input init_world = (Inr 0, w1)"
    using run_main_prog [OF paste_optionsD(1-3) [OF opts] new, of toy_build input]
      code_of_known [OF paste_optionsD(1) [OF opts]] paste_optionsD(4) [OF opts]
    by (simp add: main_paste_def bin_paste_stream_def params_of_known [OF paste_optionsD(1) [OF opts]]
        run_bind_Inr run_then_Inr run_emit run_return DPASTE_URI_PREFIX_def)
  obtain b' w3 where "starts L junk_a (init_world\<lparr>trace := trace w1\<rparr>) b' w3"
    "bin_http b' = \<lparr>hc_host = ''127.0.0.1'', hc_port = 6509\<rparr>"
    using toy_starts [OF c, of toy_http "trace w1"] unfolding L_def by blast
  with b(1) show thesis using that [OF start free run1] by simp
qed

section \<open>With AES\<close>

lemma main_aes_later:
  assumes ok: "transport_ok L" "msgpack_ok (lib_msgpack L)" "aes_lib_ok (lib_aes L)"
    and ct: "\<And>tr v. let ct = aesEncrypt (lib_aes L) tr (data_from_stream L input) (pin_text v)
               in length ct < 2 ^ 32 \<and> \<not> isGPGencrypted (lib_gpgme L) ct"
    and opts: "paste_options (getopt_results getopt argv)" "args_of (CHR ''3'') (getopt_results getopt argv) \<noteq> []"
    and start: "starts L J w0 b w"
    and free: "transport_free L (bin_http b) w (pin_text (process_pin (lib_rng L) w))"
    and run1: "main_prog L J C getopt argv input w0 = (Inr 0, w1)"
    and start': "trace w2 = trace w1 @ hs" "list_all (spares L (bin_http b) (pin_text (process_pin (lib_rng L) w))) hs"
      "starts L J' w2 b' w3" "bin_http b' = bin_http b"
  shows "\<exists>uri. last (trace w1) = Stdout (uri @ [newline]) \<and>
     (\<forall>getopt' argv' input'. get_options uri False (getopt_results getopt' argv') \<longrightarrow>
        fst (main_prog L J' C getopt' argv' input' w2) = Inr 0 \<and>
        last (trace (snd (main_prog L J' C getopt' argv' input' w2))) = Stdout (take (MAX_VALUE_SIZE L) input))"
proof (rule main_paste_then_get [OF opts(1) start run1 start'(1-3)])
  fix uri w' es
  let ?opts = "getopt_results getopt argv"
  assume paste: "bin_paste L J b (data_from_stream L input) (chosen_params (junk_flags_of J) ?opts) w = (Inr uri, w')"
      "uri \<noteq> []"
    and es: "list_all (spares L (bin_http b) (pin_text (process_pin (lib_rng L) w))) es" "trace w3 = trace w' @ es"
  have chosen: "chosen_params (junk_flags_of J) ?opts = Some (AES_Params (aes_parameters []))"
    using opts(2) by (simp add: chosen_params_def Let_def)
  have ct': "length (aesEncrypt (lib_aes L) tr (data_from_stream L input) (pin_text v)) < 2 ^ 32 \<and>
      \<not> isGPGencrypted (lib_gpgme L) (aesEncrypt (lib_aes L) tr (data_from_stream L input) (pin_text v))" for tr v
    using ct [of tr v] by (simp add: Let_def)
  show "fst (bin_get L J' b' uri False w3) = Inr (True, take (MAX_VALUE_SIZE L) input)"
    using aes_get_pasted [OF ok ct' free paste(1) [unfolded chosen] paste(2) es(2,1) start'(4)]
    by (simp add: data_from_stream_def)
qed

section \<open>Without a cipher\<close>

text \<open>
  C3. \<open>dpaste\<close> without \<open>--aes-encrypt\<close>, \<open>--gpg-encrypt\<close> and \<open>--sign\<close>: when it exits with 0, a later
  \<open>dpaste -g\<close> with the printed URI, with or without \<open>--no-decrypt\<close>, in any process that starts with
  the same configuration, exits with 0 and prints the standard input of the first, cut to
  \<open>MAX_VALUE_SIZE\<close> bytes, provided the uninitialised scheme of the first is not the value of AES, the
  data is no PGP message and nothing else was stored under the PIN of the paste in between.
\<close>

theorem main_plain_roundtrip:
  assumes ok: "transport_ok L" "msgpack_ok (lib_msgpack L)" "\<And>tr. gm_create (lib_gpgme L) tr"
    and junk: "junk_scheme J \<noteq> scheme_value AES"
    and data: "MAX_VALUE_SIZE L < 2 ^ 32" "\<not> isGPGencrypted (lib_gpgme L) (data_from_stream L input)"
    and opts: "paste_options (getopt_results getopt argv)"
      "chosen_params (junk_flags_of J) (getopt_results getopt argv) = None"
    and start: "starts L J w0 b w"
    and free: "transport_free L (bin_http b) w (pin_text (process_pin (lib_rng L) w))"
    and run1: "main_prog L J C getopt argv input w0 = (Inr 0, w1)"
    and start': "trace w2 = trace w1 @ hs" "list_all (spares L (bin_http b) (pin_text (process_pin (lib_rng L) w))) hs"
      "starts L J' w2 b' w3" "bin_http b' = bin_http b"
  shows "\<exists>uri. last (trace w1) = Stdout (uri @ [newline]) \<and>
     (\<forall>getopt' argv' input'. get_options uri nd (getopt_results getopt' argv') \<longrightarrow>
        fst (main_prog L J' C getopt' argv' input' w2) = Inr 0 \<and>
        last (trace (snd (main_prog L J' C getopt' argv' input' w2))) = Stdout (take (MAX_VALUE_SIZE L) input))"
proof (rule main_paste_then_get [OF opts(1) start run1 start'(1-3)])
  fix uri w' es
  assume paste: "bin_paste L J b (data_from_stream L input)
      (chosen_params (junk_flags_of J) (getopt_results getopt argv)) w = (Inr uri, w')" "uri \<noteq> []"
    and es: "list_all (spares L (bin_http b) (pin_text (process_pin (lib_rng L) w))) es" "trace w3 = trace w' @ es"
  have "length (data_from_stream L input) < 2 ^ 32" using data(1) by (simp add: data_from_stream_def)
  from plain_get_pasted [OF ok junk this data(2) free paste(1) [unfolded opts(2)] paste(2) es(2,1) start'(4)]
  show "fst (bin_get L J' b' uri nd w3) = Inr (True, take (MAX_VALUE_SIZE L) input)"
    by (simp add: data_from_stream_def)
qed

theorem main_plain_roundtrip_witness:
  "\<exists>uri w1 w2. main_prog (toy_libs toy_http) junk_a toy_build no_options [] ''hi'' init_world = (Inr 0, w1) \<and>
     last (trace w1) = Stdout (uri @ [newline]) \<and>
     main_prog (toy_libs toy_http) junk_a toy_build (get_option uri) [] [] (init_world\<lparr>trace := trace w1\<rparr>) = (Inr 0, w2) \<and>
     last (trace w2) = Stdout ''hi''"
proof -
  let ?L = "toy_libs toy_http"
  have opts: "paste_options (getopt_results no_options [])" and chosen: "chosen_params j (getopt_results no_options []) = None" for j
    by (simp_all add: paste_options_def args_of_def chosen_params_def)
  have "\<exists>p pwd wp. prepare_data ?L junk_a b (data_from_stream ?L ''hi'')
      (chosen_params (junk_flags_of junk_a) (getopt_results no_options [])) (after_pin (lib_rng ?L) w) = (Inr (p, pwd), wp)"
    for b w unfolding chosen by (subst run_prepare_none) (simp_all add: junk_a_def)
  then obtain b w w1 b' w3 where start: "starts ?L junk_a init_world b w"
    and free: "\<And>code. transport_free ?L (bin_http b) w code"
    and run1: "main_prog ?L junk_a toy_build no_options [] ''hi'' init_world = (Inr 0, w1)"
    and start': "starts ?L junk_a (init_world\<lparr>trace := trace w1\<rparr>) b' w3" "bin_http b' = bin_http b"
    using toy_two_runs [OF loads_default opts] unfolding home_libs_test by metis
  have c: "gm_create (lib_gpgme ?L) tr" for tr by simp
  have j: "junk_scheme junk_a \<noteq> scheme_value AES" by (simp add: junk_a_def)
  have m: "MAX_VALUE_SIZE ?L < 2 ^ 32" by simp
  have d: "\<not> isGPGencrypted (lib_gpgme ?L) (data_from_stream ?L ''hi'')"
    by (simp add: isGPGencrypted_def data_from_stream_def bytes_of_string_def byte_of_char_def PGP_MARK_def)
  have t: "trace (init_world\<lparr>trace := trace w1\<rparr>) = trace w1 @ []"
    "list_all (spares ?L (bin_http b) (pin_text (process_pin (lib_rng ?L) w))) []" by simp_all
  obtain uri where uri: "last (trace w1) = Stdout (uri @ [newline])"
    "fst (main_prog ?L junk_a toy_build (get_option uri) [] [] (init_world\<lparr>trace := trace w1\<rparr>)) = Inr 0"
    "last (trace (snd (main_prog ?L junk_a toy_build (get_option uri) [] [] (init_world\<lparr>trace := trace w1\<rparr>)))) =
       Stdout (take (MAX_VALUE_SIZE ?L) ''hi'')"
    using main_plain_roundtrip [OF toy_transport_ok(1) toy_msgpack_ok c j m d opts chosen start free run1 t start', of False]
    by (auto simp: get_options_def)
  obtain r w2 where "main_prog ?L junk_a toy_build (get_option uri) [] [] (init_world\<lparr>trace := trace w1\<rparr>) = (r, w2)"
    by (cases "main_prog ?L junk_a toy_build (get_option uri) [] [] (init_world\<lparr>trace := trace w1\<rparr>)")
  with run1 uri show ?thesis by auto
qed

section \<open>With GPG\<close>

text \<open>
  C5. \<open>dpaste --gpg-encrypt\<close> for recipients one of whose secret keys the getting user has: when it
  exits with 0, a later \<open>dpaste -g\<close> with the printed URI exits with 0 and prints the standard input
  of the first, cut to \<open>MAX_VALUE_SIZE\<close> bytes, and one NUL character behind it, which
  \<open>GPG::encrypt\<close> appends to the plain text and nothing removes; whatever happened in between, except that
  nothing else was stored under the PIN of the paste.
\<close>

theorem main_gpg_roundtrip:
  assumes ok: "transport_ok L" "msgpack_ok (lib_msgpack L)" "\<And>tr. gm_create (lib_gpgme L) tr"
      "gpgme_ok (lib_gpgme L, own)" "adds_keys (lib_gpgme L)"
    and opts: "paste_options (getopt_results getopt argv)"
      "chosen_params (junk_flags_of J) (getopt_results getopt argv) = Some (GPG_Params gp)"
    and own: "recipient_owned (lib_gpgme L, own) (Some (GPG_Params gp))"
    and ct: "\<And>g v ct v'. gpg_processPlainText (lib_gpgme L) g (data_from_stream L input) (Some (GPG_Params gp)) v
               = (Inr ct, v') \<Longrightarrow> length ct < 2 ^ 32"
    and start: "starts L J w0 b w"
    and free: "transport_free L (bin_http b) w (pin_text (process_pin (lib_rng L) w))"
    and run1: "main_prog L J C getopt argv input w0 = (Inr 0, w1)"
    and start': "trace w2 = trace w1 @ hs" "list_all (spares L (bin_http b) (pin_text (process_pin (lib_rng L) w))) hs"
      "starts L J' w2 b' w3" "bin_http b' = bin_http b"
  shows "\<exists>uri. last (trace w1) = Stdout (uri @ [newline]) \<and>
     (\<forall>getopt' argv' input'. get_options uri False (getopt_results getopt' argv') \<longrightarrow>
        fst (main_prog L J' C getopt' argv' input' w2) = Inr 0 \<and>
        last (trace (snd (main_prog L J' C getopt' argv' input' w2))) =
          Stdout (take (MAX_VALUE_SIZE L) input @ [CHR 0x00]))"
proof (rule main_paste_then_get [OF opts(1) start run1 start'(1-3)])
  fix uri w' es
  assume paste: "bin_paste L J b (data_from_stream L input)
      (chosen_params (junk_flags_of J) (getopt_results getopt argv)) w = (Inr uri, w')" "uri \<noteq> []"
    and es: "list_all (spares L (bin_http b) (pin_text (process_pin (lib_rng L) w))) es" "trace w3 = trace w' @ es"
  have nul: "string_of_bytes [0] = [CHR 0x00]"
    by (simp add: string_of_bytes_def char_of_byte_def char_of_def)
  have app: "string_of_bytes (xs @ ys) = string_of_bytes xs @ string_of_bytes ys" for xs ys
    by (simp add: string_of_bytes_def)
  from gpg_get_pasted [OF ok own ct free paste(1) [unfolded opts(2)] paste(2) es(2,1) start'(4)]
  show "fst (bin_get L J' b' uri False w3) = Inr (True, take (MAX_VALUE_SIZE L) input @ [CHR 0x00])"
    by (simp add: data_from_stream_def app nul)
qed

text \<open>The command line \<open>dpaste --gpg-encrypt -r me\<close>, read.\<close>

definition gpg_options :: getopt where
  "gpg_options s lo argv = [(CHR ''4'', []), (CHR ''r'', ''me'')]"

lemma gpg_options_results [simp]: "getopt_results gpg_options argv = [(CHR ''4'', []), (CHR ''r'', ''me'')]"
  by (simp add: getopt_results_def gpg_options_def)

theorem main_gpg_roundtrip_witness:
  "\<exists>uri w1 w2. main_prog (toy_libs toy_http) junk_a toy_build gpg_options [] ''hi'' init_world = (Inr 0, w1) \<and>
     last (trace w1) = Stdout (uri @ [newline]) \<and>
     main_prog (toy_libs toy_http) junk_a toy_build (get_option uri) [] [] (init_world\<lparr>trace := trace w1\<rparr>) = (Inr 0, w2) \<and>
     last (trace w2) = Stdout (''hi'' @ [CHR 0x00])"
proof -
  let ?L = "toy_libs toy_http" and ?gp = "gpg_parameters_full [''me''] False False"
  have opts: "paste_options (getopt_results gpg_options [])"
    and chosen: "chosen_params j (getopt_results gpg_options []) = Some (GPG_Params ?gp)" for j
    by (simp_all add: paste_options_def known_opt_def args_of_def chosen_params_def gpg_parameters_full_def)
  have "\<exists>p pwd wp. prepare_data ?L junk_a b (data_from_stream ?L ''hi'')
      (chosen_params (junk_flags_of junk_a) (getopt_results gpg_options [])) (after_pin (lib_rng ?L) w) = (Inr (p, pwd), wp)"
    if "bin_conf b = default_config" for b w
    unfolding chosen using that
    by (simp add: prepare_data_def read_params_def proc_defs map_at_def cipher_get_by_scheme_def default_config_def
        gpg_parameters_key_def gpg_parameters_full_def gpg_new_def getKey_def gpg_processPlainText_def
        encrypt_def run_msg PGP_MARK_def Let_def)
  then obtain b w w1 b' w3 where start: "starts ?L junk_a init_world b w"
    and free: "\<And>code. transport_free ?L (bin_http b) w code"
    and run1: "main_prog ?L junk_a toy_build gpg_options [] ''hi'' init_world = (Inr 0, w1)"
    and start': "starts ?L junk_a (init_world\<lparr>trace := trace w1\<rparr>) b' w3" "bin_http b' = bin_http b"
    using toy_two_runs [OF loads_default opts] unfolding home_libs_test by metis
  have c: "gm_create (lib_gpgme ?L) tr" for tr by simp
  have g: "gpgme_ok (lib_gpgme ?L, toy_own)" "adds_keys (lib_gpgme ?L)"
    by (simp_all add: toy_gpgme_ok toy_adds_keys)
  have o: "recipient_owned (lib_gpgme ?L, toy_own) (Some (GPG_Params ?gp))"
    by (simp add: recipient_owned_def gpg_parameters_full_def toy_own_def toy_key_def)
  have l: "length ct < 2 ^ 32"
    if "gpg_processPlainText (lib_gpgme ?L) g (data_from_stream ?L ''hi'') (Some (GPG_Params ?gp)) v = (Inr ct, v')" for g v ct v'
    using toy_gpg_length [of g "data_from_stream ?L ''hi''" ?gp v ct v'] that by (simp add: data_from_stream_def)
  have t: "trace (init_world\<lparr>trace := trace w1\<rparr>) = trace w1 @ []"
    "list_all (spares ?L (bin_http b) (pin_text (process_pin (lib_rng ?L) w))) []" by simp_all
  have "\<exists>uri. last (trace w1) = Stdout (uri @ [newline]) \<and>
      (\<forall>getopt' argv' input'. get_options uri False (getopt_results getopt' argv') \<longrightarrow>
         fst (main_prog ?L junk_a toy_build getopt' argv' input' (init_world\<lparr>trace := trace w1\<rparr>)) = Inr 0 \<and>
         last (trace (snd (main_prog ?L junk_a toy_build getopt' argv' input' (init_world\<lparr>trace := trace w1\<rparr>)))) =
           Stdout (take (MAX_VALUE_SIZE ?L) ''hi'' @ [CHR 0x00]))"
    by (rule main_gpg_roundtrip [OF toy_transport_ok(1) toy_msgpack_ok c g opts chosen o _ start free run1 t start'])
      (rule l)
  then obtain uri where uri: "last (trace w1) = Stdout (uri @ [newline])"
    "fst (main_prog ?L junk_a toy_build (get_option uri) [] [] (init_world\<lparr>trace := trace w1\<rparr>)) = Inr 0"
    "last (trace (snd (main_prog ?L junk_a toy_build (get_option uri) [] [] (init_world\<lparr>trace := trace w1\<rparr>)))) =
       Stdout (take (MAX_VALUE_SIZE ?L) ''hi'' @ [CHR 0x00])"
    by (auto simp: get_options_def)
  obtain r w2 where "main_prog ?L junk_a toy_build (get_option uri) [] [] (init_world\<lparr>trace := trace w1\<rparr>) = (r, w2)"
    by (cases "main_prog ?L junk_a toy_build (get_option uri) [] [] (init_world\<lparr>trace := trace w1\<rparr>)")
  with run1 uri show ?thesis by auto
qed

section \<open>With a signature only\<close>

text \<open>
  GPG parameters without recipients: nothing is encrypted, and the packet has the data as it is, with
  a signature when one was asked for and a key is configured.
\<close>

lemma gpg_sign_Inr:
  assumes "gpg_sign G g pt w = (Inr s, w')"
  shows "s = [] \<or> (\<exists>tr ctx err sg. gm_sign G tr ctx pt = (err, sg) \<and> \<not> err_raised err \<and> s = dataToVector G sg)"
  using assms by (auto simp: gpg_sign_def bindP_def askP_def throwP_def returnP_def split: option.splits if_splits prod.splits)

lemma prepare_data_unencrypted:
  assumes "gp_recipients gp = []" and "prepare_data L J b data (Some (GPG_Params gp)) w = (Inr (p, pwd), w')"
  shows "pk_data p = data \<and> pwd = [] \<and> (pk_signature p = [] \<or>
     (\<exists>tr ctx err sg. gm_sign (lib_gpgme L) tr ctx data = (err, sg) \<and> \<not> err_raised err \<and>
        pk_signature p = dataToVector (lib_gpgme L) sg))"
  using assms
  by (auto simp: prepare_data_def read_params_def bindP_Inr_iff thenP_def cipher_get_by_scheme_def sign_with_def
      gpg_parameters_key_def gpg_processPlainText_def liftP_def returnP_def dest!: gpg_sign_Inr
      split: if_splits) blast+

text \<open>
  The documented behaviour of gpgme: a signature it made is one \<open>verifyOpaqueSignature\<close> can process,
  whatever its verdict, and is shorter than the limit of msgpack.
\<close>

definition signs_ok :: "gpgme_lib \<Rightarrow> bytes \<Rightarrow> bool" where
  "signs_ok G data \<longleftrightarrow> (\<forall>tr ctx. case gm_sign G tr ctx data of (err, sg) \<Rightarrow>
     err_raised err \<or> \<not> err_raised (fst (gm_verify_opaque G sg data)) \<and> length sg < 2 ^ 32)"

lemma signed_get_pasted:
  assumes ok: "transport_ok L" "msgpack_ok (lib_msgpack L)" "\<And>tr. gm_create (lib_gpgme L) tr"
      "reads_ok (lib_gpgme L)" "signs_ok (lib_gpgme L) data"
    and gp: "gp_recipients gp = []"
    and data: "length data < 2 ^ 32" "\<not> isGPGencrypted (lib_gpgme L) data"
    and free: "transport_free L (bin_http b) w (pin_text (process_pin (lib_rng L) w))"
    and paste: "bin_paste L J b data (Some (GPG_Params gp)) w = (Inr uri, w')" "uri \<noteq> []"
    and later: "trace w2 = trace w' @ es" "list_all (spares L (bin_http b) (pin_text (process_pin (lib_rng L) w))) es"
      "bin_http b' = bin_http b"
  shows "fst (bin_get L J' b' uri nd w2) = Inr (True, string_of_bytes data)"
proof -
  let ?G = "lib_gpgme L"
  obtain p pwd w1 w3 where
    prep: "prepare_data L J b data (Some (GPG_Params gp)) (after_pin (lib_rng L) w) = (Inr (p, pwd), w1)"
    and get: "bin_get L J' b' uri nd w2 =
       catchP (bindP (open_packet L J' (serialize (lib_msgpack L) p)
                   (pin_text (process_pin (lib_rng L) w) @ pwd) pwd nd)
                 (\<lambda>data. returnP (True, string_of_bytes data)))
         (get_handler L (serialize (lib_msgpack L) p)) w3"
    using paste_then_get [OF ok(1,2) free paste later] by blast
  have p: "pk_data p = data" "pwd = []"
    and sg: "pk_signature p = [] \<or> (\<not> err_raised (fst (gm_verify_opaque ?G (pk_signature p) data)) \<and>
      length (pk_signature p) < 2 ^ 32)"
    using prepare_data_unencrypted [OF gp prep] ok(5) unfolding signs_ok_def dataToVector_eq [OF ok(4)]
    by (auto split: prod.splits)
  have d: "deserialize (lib_msgpack L) (serialize (lib_msgpack L) p) = Inr p"
    using sg data(1) p by (intro deserialize_serialize ok(2)) (auto simp: packet_fits_def)
  have "fst (open_packet L J' (serialize (lib_msgpack L) p) (pin_text (process_pin (lib_rng L) w) @ pwd) pwd nd w3) = Inr data"
    using open_packet_signed [OF d ok(3)] data(2) sg p by (auto split: prod.split)
  then show ?thesis by (simp add: get run_get_try)
qed

text \<open>A user with the key \<open>me\<close> in the configuration file.\<close>

definition key_host :: host_lib where
  "key_host = test_host\<lparr>read_file := (\<lambda>p. if p = ''/home/u/.config/dpaste.conf'' then
     Some (unlines (map assignment_line [(''pgp_key_id'', ''me'')])) else None)\<rparr>"

lemma loads_key: "loads key_host (default_config(''pgp_key_id'' \<mapsto> ''me''))"
proof -
  let ?cf = "configuration_file key_host []" and ?kvs = "[(''pgp_key_id'', ''me'')]"
  have f: "read_file key_host (filePath ?cf) = Some (unlines (map assignment_line ?kvs))"
    by (simp add: key_host_def test_host_def configuration_file_def CONFIG_FILE_NAME_def)
  have w: "list_all (well_formed_assignment (config_map ?cf)) ?kvs"
    by (simp add: configuration_file_def default_config_def well_formed_assignment_def tidy_def)
  have c: "config_map ?cf = default_config" by (simp add: configuration_file_def)
  have "load key_host ?cf = Inr (0, ?cf\<lparr>config_map := default_config(''pgp_key_id'' \<mapsto> ''me'')\<rparr>)"
    using load_assignments [OF f w] by (simp add: c)
  then show ?thesis by (simp add: loads_def) (simp add: default_config_def)
qed

text \<open>
  C6. \<open>dpaste --sign\<close>, and \<open>dpaste --gpg-encrypt\<close> without recipients: when it exits with 0, a later
  \<open>dpaste -g\<close> with the printed URI exits with 0 and prints the standard input of the first, cut to
  \<open>MAX_VALUE_SIZE\<close> bytes, whatever the verification says of the signature, whichever key is
  configured and whatever the uninitialised flags hold, if nothing else was stored under the PIN of the
  paste in between.
\<close>

theorem main_signed_roundtrip:
  assumes ok: "transport_ok L" "msgpack_ok (lib_msgpack L)" "\<And>tr. gm_create (lib_gpgme L) tr"
      "reads_ok (lib_gpgme L)" "signs_ok (lib_gpgme L) (data_from_stream L input)"
    and data: "MAX_VALUE_SIZE L < 2 ^ 32" "\<not> isGPGencrypted (lib_gpgme L) (data_from_stream L input)"
    and opts: "paste_options (getopt_results getopt argv)"
      "chosen_params (junk_flags_of J) (getopt_results getopt argv) = Some (GPG_Params gp)" "gp_recipients gp = []"
    and start: "starts L J w0 b w"
    and free: "transport_free L (bin_http b) w (pin_text (process_pin (lib_rng L) w))"
    and run1: "main_prog L J C getopt argv input w0 = (Inr 0, w1)"
    and start': "trace w2 = trace w1 @ hs" "list_all (spares L (bin_http b) (pin_text (process_pin (lib_rng L) w))) hs"
      "starts L J' w2 b' w3" "bin_http b' = bin_http b"
  shows "\<exists>uri. last (trace w1) = Stdout (uri @ [newline]) \<and>
     (\<forall>getopt' argv' input'. get_options uri nd (getopt_results getopt' argv') \<longrightarrow>
        fst (main_prog L J' C getopt' argv' input' w2) = Inr 0 \<and>
        last (trace (snd (main_prog L J' C getopt' argv' input' w2))) = Stdout (take (MAX_VALUE_SIZE L) input))"
proof (rule main_paste_then_get [OF opts(1) start run1 start'(1-3)])
  fix uri w' es
  assume paste: "bin_paste L J b (data_from_stream L input)
      (chosen_params (junk_flags_of J) (getopt_results getopt argv)) w = (Inr uri, w')" "uri \<noteq> []"
    and es: "list_all (spares L (bin_http b) (pin_text (process_pin (lib_rng L) w))) es" "trace w3 = trace w' @ es"
  have "length (data_from_stream L input) < 2 ^ 32" using data(1) by (simp add: data_from_stream_def)
  from signed_get_pasted [OF ok opts(3) this data(2) free paste(1) [unfolded opts(2)] paste(2) es(2,1) start'(4)]
  show "fst (bin_get L J' b' uri nd w3) = Inr (True, take (MAX_VALUE_SIZE L) input)"
    by (simp add: data_from_stream_def)
qed

theorem main_signed_roundtrip_witness:
  "\<exists>uri w1 w2. main_prog (home_libs toy_http key_host) junk_a toy_build (flag_options ''s'') [] ''hi'' init_world = (Inr 0, w1) \<and>
     last (trace w1) = Stdout (uri @ [newline]) \<and>
     main_prog (home_libs toy_http key_host) junk_a toy_build (get_option uri) [] [] (init_world\<lparr>trace := trace w1\<rparr>) = (Inr 0, w2) \<and>
     last (trace w2) = Stdout ''hi''"
proof -
  let ?L = "home_libs toy_http key_host" and ?g = "flag_options ''s''"
  let ?gp = "\<lparr>gp_key_id = [], gp_recipients = [], gp_self_recipient = True, gp_sign = True\<rparr>"
  have opts: "paste_options (getopt_results ?g [])"
    and chosen: "chosen_params (junk_flags_of junk_a) (getopt_results ?g []) = Some (GPG_Params ?gp)"
    by (simp_all add: paste_options_def known_opt_def args_of_def chosen_params_def junk_a_def)
  have "\<exists>p pwd wp. prepare_data ?L junk_a b (data_from_stream ?L ''hi'')
      (chosen_params (junk_flags_of junk_a) (getopt_results ?g [])) (after_pin (lib_rng ?L) w) = (Inr (p, pwd), wp)"
    if "bin_conf b = default_config(''pgp_key_id'' \<mapsto> ''me'')" for b w
    unfolding chosen using that
    by (simp add: prepare_data_def read_params_def proc_defs map_at_def cipher_get_by_scheme_def
        gpg_parameters_key_def gpg_new_def getKey_def gpg_processPlainText_def sign_with_def gpg_sign_def run_msg Let_def)
  then obtain b w w1 b' w3 where start: "starts ?L junk_a init_world b w"
    and free: "\<And>code. transport_free ?L (bin_http b) w code"
    and run1: "main_prog ?L junk_a toy_build ?g [] ''hi'' init_world = (Inr 0, w1)"
    and start': "starts ?L junk_a (init_world\<lparr>trace := trace w1\<rparr>) b' w3" "bin_http b' = bin_http b"
    using toy_two_runs [OF loads_key opts] by metis
  have tr: "transport_ok ?L" using toy_transport_ok(1) by (simp add: transport_ok_def)
  have mp: "msgpack_ok (lib_msgpack ?L)" using toy_msgpack_ok by simp
  have c: "gm_create (lib_gpgme ?L) tr" for tr by simp
  have r: "reads_ok (lib_gpgme ?L)" by (simp add: toy_reads_ok)
  have s: "signs_ok (lib_gpgme ?L) (data_from_stream ?L ''hi'')"
    by (simp add: signs_ok_def data_from_stream_def bytes_of_string_def toy_gpgme_def no_error_def)
  have m: "MAX_VALUE_SIZE ?L < 2 ^ 32" by simp
  have d: "\<not> isGPGencrypted (lib_gpgme ?L) (data_from_stream ?L ''hi'')"
    by (simp add: isGPGencrypted_def data_from_stream_def bytes_of_string_def byte_of_char_def PGP_MARK_def)
  have t: "trace (init_world\<lparr>trace := trace w1\<rparr>) = trace w1 @ []"
    "list_all (spares ?L (bin_http b) (pin_text (process_pin (lib_rng ?L) w))) []" by simp_all
  obtain uri where uri: "last (trace w1) = Stdout (uri @ [newline])"
    "fst (main_prog ?L junk_a toy_build (get_option uri) [] [] (init_world\<lparr>trace := trace w1\<rparr>)) = Inr 0"
    "last (trace (snd (main_prog ?L junk_a toy_build (get_option uri) [] [] (init_world\<lparr>trace := trace w1\<rparr>)))) =
       Stdout (take (MAX_VALUE_SIZE ?L) ''hi'')"
    using main_signed_roundtrip [OF tr mp c r s m d opts chosen _ start free run1 t start', of False]
    by (auto simp: get_options_def)
  obtain r w2 where "main_prog ?L junk_a toy_build (get_option uri) [] [] (init_world\<lparr>trace := trace w1\<rparr>) = (r, w2)"
    by (cases "main_prog ?L junk_a toy_build (get_option uri) [] [] (init_world\<lparr>trace := trace w1\<rparr>)")
  with run1 uri show ?thesis by auto
qed

section \<open>Any paste\<close>

text \<open>
  What a get prints of a paste, by the parameters of the paste, and what the paste needs of the libraries, of
  the data and of the uninitialised variables for that.
\<close>

definition paste_text :: "libs \<Rightarrow> parameters option \<Rightarrow> string \<Rightarrow> string" where
  "paste_text L params input = take (MAX_VALUE_SIZE L) input @
     (case params of Some (GPG_Params gp) \<Rightarrow> if gp_recipients gp = [] then [] else [CHR 0x00] | _ \<Rightarrow> [])"

definition paste_ok :: "libs \<Rightarrow> (gpg_key \<Rightarrow> bool) \<Rightarrow> junk \<Rightarrow> bytes \<Rightarrow> parameters option \<Rightarrow> bool" where
  "paste_ok L own J data params \<longleftrightarrow>
     (let G = lib_gpgme L; plain_ok = length data < 2 ^ 32 \<and> \<not> isGPGencrypted G data
      in case params of
           None \<Rightarrow> (\<forall>tr. gm_create G tr) \<and> junk_scheme J \<noteq> scheme_value AES \<and> plain_ok
         | Some (AES_Params ap) \<Rightarrow> aes_lib_ok (lib_aes L) \<and>
             (\<forall>tr v. let ct = aesEncrypt (lib_aes L) tr data (pin_text v)
                in length ct < 2 ^ 32 \<and> \<not> isGPGencrypted G ct)
         | Some (GPG_Params gp) \<Rightarrow> (\<forall>tr. gm_create G tr) \<and>
             (if gp_recipients gp = [] then reads_ok G \<and> signs_ok G data \<and> plain_ok
              else gpgme_ok (G, own) \<and> adds_keys G \<and> recipient_owned (G, own) params \<and>
                (\<forall>g v ct v'. gpg_processPlainText G g data params v = (Inr ct, v') \<longrightarrow> length ct < 2 ^ 32)))"

lemma any_get_pasted:
  assumes lib: "transport_ok L" "msgpack_ok (lib_msgpack L)"
    and ok: "paste_ok L own J (data_from_stream L input) params"
    and free: "transport_free L (bin_http b) w (pin_text (process_pin (lib_rng L) w))"
    and paste: "bin_paste L J b (data_from_stream L input) params w = (Inr uri, w')" "uri \<noteq> []"
    and later: "trace w2 = trace w' @ es" "list_all (spares L (bin_http b) (pin_text (process_pin (lib_rng L) w))) es"
      "bin_http b' = bin_http b"
  shows "fst (bin_get L J' b' uri False w2) = Inr (True, paste_text L params input)"
proof -
  have s: "string_of_bytes (data_from_stream L input) = take (MAX_VALUE_SIZE L) input"
    by (simp add: data_from_stream_def)
  show ?thesis
  proof (cases params)
    case None
    with plain_get_pasted [OF lib _ _ _ _ free paste [unfolded None] later] ok s show ?thesis
      by (simp add: paste_ok_def paste_text_def Let_def)
  next
    case (Some ps)
    show ?thesis
    proof (cases ps)
      case (AES_Params ap)
      with Some have p: "params = Some (AES_Params ap)" by simp
      have "aes_lib_ok (lib_aes L)" "\<And>tr v. length (aesEncrypt (lib_aes L) tr (data_from_stream L input) (pin_text v)) < 2 ^ 32 \<and>
          \<not> isGPGencrypted (lib_gpgme L) (aesEncrypt (lib_aes L) tr (data_from_stream L input) (pin_text v))"
        using ok by (simp_all add: p paste_ok_def Let_def)
      from aes_get_pasted [OF lib this free paste(1) [unfolded p] paste(2) later] s show ?thesis
        by (simp add: p paste_text_def)
    next
      case (GPG_Params gp)
      with Some have p: "params = Some (GPG_Params gp)" by simp
      have c: "\<And>tr. gm_create (lib_gpgme L) tr" using ok by (simp add: p paste_ok_def Let_def)
      show ?thesis
      proof (cases "gp_recipients gp = []")
        case True
        then have "reads_ok (lib_gpgme L)" "signs_ok (lib_gpgme L) (data_from_stream L input)"
          "length (data_from_stream L input) < 2 ^ 32" "\<not> isGPGencrypted (lib_gpgme L) (data_from_stream L input)"
          using ok by (simp_all add: p paste_ok_def Let_def)
        from signed_get_pasted [OF lib c this(1,2) True this(3,4) free paste(1) [unfolded p] paste(2) later] True s
        show ?thesis by (simp add: p paste_text_def)
      next
        case False
        then have g: "gpgme_ok (lib_gpgme L, own)" "adds_keys (lib_gpgme L)"
          "recipient_owned (lib_gpgme L, own) (Some (GPG_Params gp))"
          and "\<forall>g v ct v'. gpg_processPlainText (lib_gpgme L) g (data_from_stream L input) (Some (GPG_Params gp)) v
              = (Inr ct, v') \<longrightarrow> length ct < 2 ^ 32"
          using ok by (simp_all add: p paste_ok_def Let_def)
        then have l: "\<And>g v ct v'. gpg_processPlainText (lib_gpgme L) g (data_from_stream L input) (Some (GPG_Params gp)) v
            = (Inr ct, v') \<Longrightarrow> length ct < 2 ^ 32" by blast
        have nul: "string_of_bytes (data_from_stream L input @ [0]) = take (MAX_VALUE_SIZE L) input @ [CHR 0x00]"
          using s by (simp add: string_of_bytes_def char_of_byte_def char_of_def)
        from gpg_get_pasted [OF lib c g(1,2) g(3) l free paste(1) [unfolded p] paste(2) later] False nul
        show ?thesis by (simp add: p paste_text_def)
      qed
    qed
  qed
qed

lemma main_any_later:
  assumes lib: "transport_ok L" "msgpack_ok (lib_msgpack L)"
    and ok: "paste_ok L own J (data_from_stream L input) (chosen_params (junk_flags_of J) (getopt_results getopt argv))"
    and opts: "paste_options (getopt_results getopt argv)"
    and start: "starts L J w0 b w"
    and free: "transport_free L (bin_http b) w (pin_text (process_pin (lib_rng L) w))"
    and run1: "main_prog L J C getopt argv input w0 = (Inr 0, w1)"
    and start': "trace w2 = trace w1 @ hs" "list_all (spares L (bin_http b) (pin_text (process_pin (lib_rng L) w))) hs"
      "starts L J' w2 b' w3" "bin_http b' = bin_http b"
  shows "\<exists>uri. last (trace w1) = Stdout (uri @ [newline]) \<and>
     (\<forall>getopt' argv' input'. get_options uri False (getopt_results getopt' argv') \<longrightarrow>
        fst (main_prog L J' C getopt' argv' input' w2) = Inr 0 \<and>
        last (trace (snd (main_prog L J' C getopt' argv' input' w2))) =
          Stdout (paste_text L (chosen_params (junk_flags_of J) (getopt_results getopt argv)) input))"
proof (rule main_paste_then_get [OF opts start run1 start'(1-3)])
  fix uri w' es
  assume "bin_paste L J b (data_from_stream L input)
      (chosen_params (junk_flags_of J) (getopt_results getopt argv)) w = (Inr uri, w')" "uri \<noteq> []"
    and "list_all (spares L (bin_http b) (pin_text (process_pin (lib_rng L) w))) es" "trace w3 = trace w' @ es"
  from any_get_pasted [OF lib ok free this(1,2,4,3) start'(4)]
  show "fst (bin_get L J' b' uri False w3) =
      Inr (True, paste_text L (chosen_params (junk_flags_of J) (getopt_results getopt argv)) input)" .
qed

end
