(* ===== verification/Main_History.thy ===== *)
theory Main_History
  imports Main_Roundtrip Store_Session
begin

text \<open>
  Histories: the program run many times over, by anybody who shares the configuration, each run a new
  process on what the earlier ones left on the network. The first section follows the events a
  procedure adds, the second says which of them a run of \<open>main\<close> adds to what is stored; the third
  has the histories and what a paste gives back after one.
\<close>

section \<open>The events a procedure adds\<close>

definition logs :: "(event \<Rightarrow> bool) \<Rightarrow> 'a proc \<Rightarrow> bool" where
  "logs P m \<longleftrightarrow> (\<forall>w. \<exists>es. list_all P es \<and> trace (snd (m w)) = trace w @ es)"

named_theorems logs_intros \<open>procedures that only add events of a kind\<close>

lemma logsI: "(\<And>r w w'. m w = (r, w') \<Longrightarrow> \<exists>es. list_all P es \<and> trace w' = trace w @ es) \<Longrightarrow> logs P m"
  unfolding logs_def by (metis prod.collapse)

lemma logsD: "\<lbrakk>logs P m; m w = (r, w')\<rbrakk> \<Longrightarrow> \<exists>es. list_all P es \<and> trace w' = trace w @ es"
  unfolding logs_def by (metis snd_conv)

lemma logs_pure: "(\<And>w. trace (snd (m w)) = trace w) \<Longrightarrow> logs P m"
  by (auto simp: logs_def intro: exI [of _ "[]"])

lemma logs_quiet [logs_intros]: "logs P (returnP x)" "logs P (throwP e)" "logs P (liftP r)"
  by (auto intro!: logs_pure simp: returnP_def throwP_def liftP_def)

lemma logs_emit [logs_intros]: "P e \<Longrightarrow> logs P (emitP e)"
  by (rule logsI) (auto simp: run_emit)

lemma logs_messages:
  assumes "\<And>s. P (Stderr s)" and "only_messages m"
  shows "logs P m"
proof (rule logsI)
  fix r w w'
  assume "m w = (r, w')"
  then obtain tr where tr: "list_all is_message tr" "trace w' = trace w @ tr"
    using only_messagesD [OF assms(2)] by blast
  have "P e" if "is_message e" for e
    using that assms(1) by (cases e) (simp_all add: is_message_def)
  then have "list_all P tr" using tr(1) by (simp add: list_all_iff)
  with tr(2) show "\<exists>es. list_all P es \<and> trace w' = trace w @ es" by blast
qed

lemma logs_bind [logs_intros]:
  assumes m: "logs P m" and f: "\<And>x. logs P (f x)"
  shows "logs P (bindP m f)"
proof (rule logsI)
  fix r w w'
  assume e: "bindP m f w = (r, w')"
  obtain q w1 where mw: "m w = (q, w1)" by (cases "m w")
  obtain es where es: "list_all P es" "trace w1 = trace w @ es" using logsD [OF m mw] by blast
  show "\<exists>es. list_all P es \<and> trace w' = trace w @ es"
  proof (cases q)
    case (Inl x)
    with e mw es show ?thesis by (auto simp: run_bind_Inl)
  next
    case (Inr x)
    with e mw have "f x w1 = (r, w')" by (simp add: run_bind_Inr)
    with logsD [OF f] obtain fs where "list_all P fs" "trace w' = trace w1 @ fs" by blast
    with es show ?thesis by (intro exI [of _ "es @ fs"]) simp
  qed
qed

lemma logs_then [logs_intros]: "\<lbrakk>logs P m; logs P n\<rbrakk> \<Longrightarrow> logs P (thenP m n)"
  unfolding thenP_def by (rule logs_bind)

lemma logs_catch:
  assumes m: "logs P m" and h: "\<And>e n. h e = Some n \<Longrightarrow> logs P n"
  shows "logs P (catchP m h)"
proof (rule logsI)
  fix r w w'
  assume e: "catchP m h w = (r, w')"
  obtain q w1 where mw: "m w = (q, w1)" by (cases "m w")
  obtain es where es: "list_all P es" "trace w1 = trace w @ es" using logsD [OF m mw] by blast
  show "\<exists>es. list_all P es \<and> trace w' = trace w @ es"
  proof (cases "\<exists>x n. q = Inl x \<and> h x = Some n")
    case False
    with e mw es show ?thesis by (cases q) (auto simp: catchP_def split: option.splits)
  next
    case True
    then obtain x n where x: "q = Inl x" "h x = Some n" by blast
    with e mw have "n w1 = (r, w')" by (simp add: catchP_def)
    with logsD [OF h [OF x(2)]] obtain fs where "list_all P fs" "trace w' = trace w1 @ fs" by blast
    with es show ?thesis by (intro exI [of _ "es @ fs"]) simp
  qed
qed

lemma logs_if [logs_intros]: "\<lbrakk>c \<Longrightarrow> logs P m; \<not> c \<Longrightarrow> logs P n\<rbrakk> \<Longrightarrow> logs P (if c then m else n)"
  by simp

section \<open>The events a run adds\<close>

text \<open>
  The start and a get store nothing; a paste stores nothing but under its own PIN, so it spares every
  code with another hash.
\<close>

lemma spares_simps [simp]:
  "spares L hc code (Stderr s)" "spares L hc code (Stdout s)" "spares L hc code (Dht_Run p)"
  "spares L hc code (Dht_Bootstrap h bp)"
  by (simp_all add: no_store_spares)

lemma logs_spares_messages: "only_messages m \<Longrightarrow> logs (spares L hc code) m"
  by (rule logs_messages) simp

lemmas logs_spares_msg [logs_intros] = logs_spares_messages [OF messages_msg]

lemma logs_no_store:
  assumes "\<And>r w w'. m w = (r, w') \<Longrightarrow> \<exists>es. list_all no_store es \<and> trace w' = trace w @ es"
  shows "logs (spares L hc code) m"
  using assms by (intro logsI) (meson list_no_store_spares)

lemma logs_start [logs_intros]:
  "logs (spares L hc code) (bin_new L' J)" "logs (spares L hc code) (cipher_init G)"
proof -
  have n: "logs (spares L hc code) (run_default n)" for n
    by (auto simp: run_default_def run_def intro!: logs_intros)
  show "logs (spares L hc code) (bin_new L' J)"
    by (auto simp: bin_new_def Let_def intro!: logs_intros n)
  show "logs (spares L hc code) (cipher_init G)"
    using cipher_init_trace by (rule logs_no_store)
qed

lemma logs_get [logs_intros]: "logs (spares L hc code) (main_get L' J b pa)"
proof -
  have f: "logs (spares L hc code) (fetch_blob L' hc' c)" for hc' c
    using fetch_blob_events by (rule logs_no_store)
  have o: "logs (spares L hc code) (open_packet L' J d c pwd nd)" for d c pwd nd
    by (rule logs_spares_messages) (auto simp: open_packet_def intro!: messages_intros split: option.split)
  have h: "logs (spares L hc code) n" if "get_handler L' d e = Some n" for d e n
    using that by (auto simp: get_handler_def intro!: logs_intros split: exn.splits)
  have c: "logs (spares L hc code) (catchP m (get_handler L' d))" if "logs (spares L hc code) m" for m d
    by (rule logs_catch [OF that h])
  show ?thesis
    by (auto simp: main_get_def bin_get_def Let_def intro!: logs_intros f c o)
qed

lemma send_event_spares:
  assumes "transport_apart L c code" and "send_event L hc c d e"
  shows "spares L hc code e"
proof -
  have "http_url (lib_dht L) hc c \<noteq> http_url (lib_dht L) hc code"
    "infohash_get (lib_dht L) c \<noteq> infohash_get (lib_dht L) code"
    using assms(1) by (auto simp: transport_apart_def http_url_def)
  with assms(2) posted_other_url show ?thesis
    by (auto simp: send_event_def spares_def split: event.splits)
qed

lemma logs_paste:
  assumes hc: "bin_http b = hc" and ap: "transport_apart L (pin_text (process_pin (lib_rng L) w)) code"
    and run: "main_paste L J b pa input w = (r, w')"
  shows "\<exists>es. list_all (spares L hc code) es \<and> trace w' = trace w @ es"
proof -
  let ?pin = "pin_text (process_pin (lib_rng L) w)"
  have s: "logs (spares L hc code) (send_blob L J hc ?pin d)" for d
    by (rule logsI) (meson send_blob_log send_event_spares [OF ap] list_all_iff)
  have p: "logs (spares L hc code) (prepare_data L J b d ps)" for d ps
    by (rule logs_no_store) (meson prepare_data_frame messages_no_store)
  let ?d = "data_from_stream L input" and ?ps = "params_from_args (junk_flags_of J) pa"
  let ?rest = "bindP (bindP (prepare_data L J b ?d ?ps) (\<lambda>(p, pwd).
      thenP (DPASTE_MSG ''Pasting data...'' [])
       (let bin_packet = serialize (lib_msgpack L) p
        in bindP (send_blob L J (bin_http b) ?pin bin_packet) (\<lambda>success.
           returnP (if success then DPASTE_URI_PREFIX @ ?pin @ pwd else [])))))
      (\<lambda>uri. thenP (emitP (Stdout (uri @ [newline]))) (returnP (if uri = [] then 1 else 0)))"
  have e: "main_paste L J b pa input w = ?rest (after_pin (lib_rng L) w)"
    unfolding main_paste_def bin_paste_stream_def bin_paste_def bindP_assoc
    by (rule run_bind_Inr, rule run_random_pin)
  have l: "logs (spares L hc code) ?rest"
    by (auto simp: Let_def hc intro!: logs_intros p s)
  from logsD [OF l run [unfolded e]] show ?thesis by simp
qed

lemma main_prog_spares:
  assumes hc: "\<And>b w1. bin_new L J w0 = (Inr b, w1) \<Longrightarrow> bin_http b = hc"
    and ap: "\<And>b w1 u w. \<lbrakk>bin_new L J w0 = (Inr b, w1); cipher_init (lib_gpgme L) w1 = (Inr u, w);
      \<not> pa_fail (parseArgs getopt argv); \<not> pa_help (parseArgs getopt argv); \<not> pa_version (parseArgs getopt argv);
      pa_code (parseArgs getopt argv) = []\<rbrakk> \<Longrightarrow> transport_apart L (pin_text (process_pin (lib_rng L) w)) code"
    and run: "main_prog L J C getopt argv input w0 = (r, w')"
  shows "\<exists>es. list_all (spares L hc code) es \<and> trace w' = trace w0 @ es"
proof -
  let ?pa = "parseArgs getopt argv"
  let ?add = "\<lambda>v v'. \<exists>es. list_all (spares L hc code) es \<and> trace v' = trace v @ es"
  have step: "?add u w \<Longrightarrow> ?add v u \<Longrightarrow> ?add v w" for u v w
    by (metis append.assoc list_all_append)
  have early: "?add w0 w'" if "pa_fail ?pa \<or> pa_help ?pa \<or> pa_version ?pa"
    using that run by (auto simp: main_prog_def Let_def print_help_def run_return run_then_Inr run_emit split: if_splits)
  have late: "?add w0 w'" if p: "\<not> pa_fail ?pa" "\<not> pa_help ?pa" "\<not> pa_version ?pa"
  proof -
    let ?k = "\<lambda>b. if pa_code ?pa \<noteq> [] then main_get L J b ?pa else main_paste L J b ?pa input"
    have m: "main_prog L J C getopt argv input w0 =
        bindP (bin_new L J) (\<lambda>b. thenP (cipher_init (lib_gpgme L)) (?k b)) w0"
      using p by (simp add: main_prog_def Let_def)
    obtain q w1 where new: "bin_new L J w0 = (q, w1)" by (cases "bin_new L J w0")
    have a1: "?add w0 w1" using logsD [OF logs_start(1) new] .
    show ?thesis
    proof (cases q)
      case (Inl e)
      with run m new a1 show ?thesis by (simp add: run_bind_Inl)
    next
      case (Inr b)
      obtain q2 w2 where init: "cipher_init (lib_gpgme L) w1 = (q2, w2)" by (cases "cipher_init (lib_gpgme L) w1")
      have a2: "?add w0 w2" using step [OF logsD [OF logs_start(2) init] a1] .
      show ?thesis
      proof (cases q2)
        case (Inl e)
        with run m new Inr init a2 show ?thesis by (simp add: run_bind_Inr run_then_Inl)
      next
        case ok: (Inr u)
        have k: "?k b w2 = (r, w')" using run m new Inr init ok by (simp add: run_bind_Inr run_then_Inr)
        have "?add w2 w'"
        proof (cases "pa_code ?pa = []")
          case True
          show ?thesis
            by (rule logs_paste [OF hc ap]) (use new Inr init ok p True k in simp_all)
        next
          case False
          with k have "main_get L J b ?pa w2 = (r, w')" by simp
          with logs_get show ?thesis by (rule logsD)
        qed
        from step [OF this a2] show ?thesis .
      qed
    qed
  qed
  from early late show ?thesis by blast
qed

section \<open>Histories\<close>

text \<open>
  A run of the program: what its uninitialised variables hold, how its command line is read, its
  arguments and its standard input. It is a process of its own: it sees what the earlier ones did,
  and its static variables are new.
\<close>

record invocation =
  inv_junk :: junk
  inv_getopt :: getopt
  inv_argv :: "string list"
  inv_input :: string

definition new_process :: "event list \<Rightarrow> world" where
  "new_process tr = init_world\<lparr>trace := tr\<rparr>"

definition invoke :: "libs \<Rightarrow> build_config \<Rightarrow> invocation \<Rightarrow> int proc" where
  "invoke L C i = main_prog L (inv_junk i) C (inv_getopt i) (inv_argv i) (inv_input i)"

fun history :: "libs \<Rightarrow> build_config \<Rightarrow> invocation list \<Rightarrow> event list \<Rightarrow> event list" where
  "history L C [] tr = tr"
| "history L C (i # runs) tr = history L C runs (trace (snd (invoke L C i (new_process tr))))"

text \<open>The PIN a run draws, if it is one that pastes, and those of a history.\<close>

definition run_pins :: "libs \<Rightarrow> invocation \<Rightarrow> event list \<Rightarrow> string list" where
  "run_pins L i tr =
     (let pa = parseArgs (inv_getopt i) (inv_argv i)
      in if pa_fail pa \<or> pa_help pa \<or> pa_version pa \<or> pa_code pa \<noteq> [] then []
         else case bin_new L (inv_junk i) (new_process tr) of
             (Inl e, w1) \<Rightarrow> []
           | (Inr b, w1) \<Rightarrow>
               (case cipher_init (lib_gpgme L) w1 of
                  (Inl e, w) \<Rightarrow> []
                | (Inr u, w) \<Rightarrow> [pin_text (process_pin (lib_rng L) w)]))"

fun history_pins :: "libs \<Rightarrow> build_config \<Rightarrow> invocation list \<Rightarrow> event list \<Rightarrow> string list" where
  "history_pins L C [] tr = []"
| "history_pins L C (i # runs) tr =
     run_pins L i tr @ history_pins L C runs (trace (snd (invoke L C i (new_process tr))))"

text \<open>All runs talk to the same HTTP service: the configuration is the same.\<close>

definition keeps_client :: "libs \<Rightarrow> http_client \<Rightarrow> junk \<Rightarrow> bool" where
  "keeps_client L hc J \<longleftrightarrow> (\<forall>w b w'. bin_new L J w = (Inr b, w') \<longrightarrow> bin_http b = hc)"

lemma trace_new_process [simp]: "trace (new_process tr) = tr"
  by (simp add: new_process_def)

lemma history_append: "history L C (rs @ ss) tr = history L C ss (history L C rs tr)"
  by (induction rs arbitrary: tr) simp_all

lemma invoke_spares:
  assumes "keeps_client L hc (inv_junk i)" and "\<forall>p \<in> set (run_pins L i tr). transport_apart L p code"
  shows "\<exists>es. list_all (spares L hc code) es \<and> trace (snd (invoke L C i (new_process tr))) = tr @ es"
proof -
  obtain r w' where run: "invoke L C i (new_process tr) = (r, w')" by (cases "invoke L C i (new_process tr)")
  have "\<exists>es. list_all (spares L hc code) es \<and> trace w' = trace (new_process tr) @ es"
    by (rule main_prog_spares [OF _ _ run [unfolded invoke_def]])
      (use assms in \<open>auto simp: keeps_client_def run_pins_def Let_def\<close>)
  with run show ?thesis by simp
qed

lemma history_spares:
  assumes "\<forall>i \<in> set runs. keeps_client L hc (inv_junk i)"
    and "\<forall>p \<in> set (history_pins L C runs tr). transport_apart L p code"
  shows "\<exists>es. list_all (spares L hc code) es \<and> history L C runs tr = tr @ es"
  using assms
proof (induction runs arbitrary: tr)
  case (Cons i runs)
  obtain es where es: "list_all (spares L hc code) es" "trace (snd (invoke L C i (new_process tr))) = tr @ es"
    using invoke_spares [of L hc i tr code C] Cons.prems by auto
  obtain fs where "list_all (spares L hc code) fs" "history L C runs (tr @ es) = (tr @ es) @ fs"
    using Cons.IH [of "tr @ es"] Cons.prems es(2) by auto
  with es show ?case by (intro exI [of _ "es @ fs"]) simp
qed simp

text \<open>A paste that exits with 0 has started, and drew one PIN.\<close>

lemma paste_run_starts:
  assumes "paste_options (getopt_results (inv_getopt i) (inv_argv i))"
    and "invoke L C i (new_process tr) = (Inr x, w1)"
  obtains b w where "starts L (inv_junk i) (new_process tr) b w"
    and "run_pins L i tr = [pin_text (process_pin (lib_rng L) w)]"
proof -
  note opts = paste_optionsD [OF assms(1)]
  let ?pa = "parseArgs (inv_getopt i) (inv_argv i)"
  have pa: "\<not> pa_fail ?pa" "\<not> pa_help ?pa" "\<not> pa_version ?pa" "pa_code ?pa = []"
    using opts by (simp_all add: parsed_flags parse_known code_of_known)
  obtain b wa w where "bin_new L (inv_junk i) (new_process tr) = (Inr b, wa)" "cipher_init (lib_gpgme L) wa = (Inr (), w)"
    using assms(2) pa by (auto simp: invoke_def main_prog_def Let_def thenP_def bindP_Inr_iff)
  then show thesis using that [of b w] pa by (simp add: starts_def run_pins_def Let_def)
qed

text \<open>
  Between the paste of \<open>i\<close> in a history that begins with nothing stored, and any run after the history,
  nothing else is stored under the PIN of \<open>i\<close>, and nothing was before it.
\<close>

lemma history_around:
  assumes client: "\<forall>j \<in> set (runs1 @ i # runs2). keeps_client L hc (inv_junk j)"
    and paste: "paste_options (getopt_results (inv_getopt i) (inv_argv i))"
    and run: "invoke L C i (new_process (history L C runs1 [])) = (Inr x, w1)"
    and apart: "\<forall>p \<in> set (history_pins L C runs1 []) \<union> set (history_pins L C runs2 (trace w1)).
       \<forall>q \<in> set (run_pins L i (history L C runs1 [])). transport_apart L p q"
  obtains b w hs where "starts L (inv_junk i) (new_process (history L C runs1 [])) b w" "bin_http b = hc"
    and "transport_free L (bin_http b) w (pin_text (process_pin (lib_rng L) w))"
    and "history L C (runs1 @ i # runs2) [] = trace w1 @ hs"
    and "list_all (spares L (bin_http b) (pin_text (process_pin (lib_rng L) w))) hs"
proof -
  let ?tr = "history L C runs1 []"
  obtain b w where start: "starts L (inv_junk i) (new_process ?tr) b w"
    and pin: "run_pins L i ?tr = [pin_text (process_pin (lib_rng L) w)]"
    using paste_run_starts [OF paste run] by blast
  let ?pin = "pin_text (process_pin (lib_rng L) w)"
  have hc: "bin_http b = hc"
    using start client by (auto simp: starts_def keeps_client_def)
  obtain es where es: "list_all (spares L hc ?pin) es" "?tr = es"
    using history_spares [of runs1 L hc C "[]" ?pin] client apart pin by auto
  obtain fs where fs: "list_all no_store fs" "trace w = ?tr @ fs"
    using starts_trace [OF start] by auto
  have "transport_free L hc w ?pin = transport_free L hc init_world ?pin"
    by (rule transport_spared(1) [where tr = "es @ fs"])
      (use es fs in \<open>simp_all add: init_world_def list_no_store_spares\<close>)
  then have free: "transport_free L hc w ?pin"
    by (simp add: transport_free_def http_free_def node_free_def init_world_def)
  obtain hs where "list_all (spares L hc ?pin) hs" "history L C runs2 (trace w1) = trace w1 @ hs"
    using history_spares [of runs2 L hc C "trace w1" ?pin] client apart pin by auto
  with that [OF start hc] free hc run show thesis by (simp add: history_append)
qed

section \<open>Properties\<close>

text \<open>
  C2. A paste among many. The program is run any number of times, to paste, to get or for anything else,
  each run a process of its own, from a network on which nothing is stored: when one of the runs is a
  paste, of any kind, and exits with 0, a \<open>dpaste -g\<close> with the URI it printed, after all the
  others, exits with 0 and prints its standard input, cut to \<open>MAX_VALUE_SIZE\<close> bytes (and with a NUL behind
  it, for GPG with recipients), provided the other pastes drew PINs with other hashes and every run has the
  same HTTP service in its configuration.
\<close>

theorem main_history:
  fixes L :: libs and i :: invocation
  defines "params \<equiv> chosen_params (junk_flags_of (inv_junk i)) (getopt_results (inv_getopt i) (inv_argv i))"
  assumes lib: "transport_ok L" "msgpack_ok (lib_msgpack L)"
    and ok: "paste_ok L own (inv_junk i) (data_from_stream L (inv_input i)) params"
    and opts: "paste_options (getopt_results (inv_getopt i) (inv_argv i))"
    and client: "\<forall>j \<in> set (runs1 @ i # runs2). keeps_client L hc (inv_junk j)"
    and run: "invoke L C i (new_process (history L C runs1 [])) = (Inr 0, w1)"
    and apart: "\<forall>p \<in> set (history_pins L C runs1 []) \<union> set (history_pins L C runs2 (trace w1)).
       \<forall>q \<in> set (run_pins L i (history L C runs1 [])). transport_apart L p q"
    and getter: "starts L J' (new_process (history L C (runs1 @ i # runs2) [])) b' w3" "bin_http b' = hc"
  shows "\<exists>uri. last (trace w1) = Stdout (uri @ [newline]) \<and>
     (\<forall>getopt' argv' input'. get_options uri False (getopt_results getopt' argv') \<longrightarrow>
        (\<exists>w4. main_prog L J' C getopt' argv' input' (new_process (history L C (runs1 @ i # runs2) [])) = (Inr 0, w4) \<and>
           last (trace w4) = Stdout (paste_text L params (inv_input i))))"
proof -
  let ?w2 = "new_process (history L C (runs1 @ i # runs2) [])"
  obtain b w hs where s: "starts L (inv_junk i) (new_process (history L C runs1 [])) b w" "bin_http b = hc"
    and free: "transport_free L (bin_http b) w (pin_text (process_pin (lib_rng L) w))"
    and hs: "trace ?w2 = trace w1 @ hs" "list_all (spares L (bin_http b) (pin_text (process_pin (lib_rng L) w))) hs"
    using history_around [OF client opts run apart] by auto
  have h: "bin_http b' = bin_http b" using getter(2) s(2) by simp
  obtain uri where uri: "last (trace w1) = Stdout (uri @ [newline])"
    and get: "\<And>getopt' argv' input'. get_options uri False (getopt_results getopt' argv') \<Longrightarrow>
        fst (main_prog L J' C getopt' argv' input' ?w2) = Inr 0 \<and>
        last (trace (snd (main_prog L J' C getopt' argv' input' ?w2))) = Stdout (paste_text L params (inv_input i))"
    using main_any_later [OF lib ok [unfolded params_def] opts s(1) free run [unfolded invoke_def] hs getter(1) h]
    unfolding params_def by blast
  show ?thesis
    by (rule exI [of _ uri], rule conjI [OF uri], intro allI impI) (metis get prod.collapse)
qed

definition prints :: "event \<Rightarrow> bool" where
  "prints e \<longleftrightarrow> (case e of Stdout s \<Rightarrow> True | _ \<Rightarrow> False)"

text \<open>A generator that draws 0 in the first process that prints and 1 in the later ones.\<close>

definition turn_rng :: rng_lib where
  "turn_rng = \<lparr>random_device = (\<lambda>tr k. if list_ex prints tr then 1 else 0),
     engine_default = [0], engine_seed = (\<lambda>(a, b). [ucast a]), dist_draw = (\<lambda>e. (ucast (hd e), e))\<rparr>"

definition turn_libs :: libs where
  "turn_libs = (toy_libs toy_http)\<lparr>lib_rng := turn_rng\<rparr>"

definition aes_paste :: "string \<Rightarrow> invocation" where
  "aes_paste input = \<lparr>inv_junk = junk_a, inv_getopt = flag_options ''3'', inv_argv = [], inv_input = input\<rparr>"

lemma turn_libs_sel [simp]:
  "lib_gpgme turn_libs = toy_gpgme" "lib_aes turn_libs = toy_aes" "lib_msgpack turn_libs = ref_msgpack"
  "lib_http turn_libs = toy_http" "lib_dht turn_libs = toy_dht" "lib_rng turn_libs = turn_rng"
  "lib_host turn_libs = test_host" "MAX_VALUE_SIZE turn_libs = 65536"
  by (simp_all add: turn_libs_def)

lemma start_no_pin:
  assumes "starts L J (new_process tr) b w"
  shows "pin_statics w = None"
proof -
  obtain w1 where w: "bin_new L J (new_process tr) = (Inr b, w1)" "cipher_init (lib_gpgme L) w1 = (Inr (), w)"
    using assms unfolding starts_def by blast
  have "run_default node_new v = (Inr \<lparr>running = True\<rparr>,
      record_event (Dht_Bootstrap ''bootstrap.ring.cx'' ''4222'') (record_event (Dht_Run 0) v))" for v
    by (simp add: run_default_def run_def node_new_def proc_simps DEFAULT_BOOTSTRAP_NODE_def
        DEFAULT_BOOTSTRAP_PORT_def)
  then have "pin_statics w1 = None"
    using w(1) by (auto simp: bin_new_def bindP_Inr_iff liftP_def returnP_def Let_def new_process_def init_world_def)
  then show ?thesis using w(2)
    by (auto simp: cipher_init_def gpg_init_def bindP_def thenP_def getP_def askP_def emitP_def modifyP_def
      returnP_def throwP_def split: if_splits)
qed

lemma start_silent:
  assumes "starts L J w0 b w"
  shows "list_ex prints (trace w) = list_ex prints (trace w0)"
proof -
  obtain w1 where w: "bin_new L J w0 = (Inr b, w1)" "cipher_init (lib_gpgme L) w1 = (Inr (), w)"
    using assms unfolding starts_def by blast
  have "list_ex prints (trace w) = list_ex prints (trace w1)" using w(2)
    by (auto simp: cipher_init_def gpg_init_def bindP_def thenP_def getP_def askP_def emitP_def modifyP_def
      returnP_def throwP_def prints_def split: if_splits)
  then show ?thesis by (simp add: bin_new_trace [OF w(1)] prints_def)
qed

lemma turn_starts:
  obtains b w where "starts turn_libs junk_a (new_process tr) b w" "bin_http b = \<lparr>hc_host = ''127.0.0.1'', hc_port = 6509\<rparr>"
proof -
  obtain b w where "starts (home_libs toy_http test_host) junk_a (init_world\<lparr>trace := tr\<rparr>) b w"
    and b: "bin_http b = \<lparr>hc_host = ''127.0.0.1'', hc_port = 6509\<rparr>"
    using toy_starts [OF loads_default] by blast
  then have "starts turn_libs junk_a (new_process tr) b w"
    by (simp add: starts_def new_process_def bin_new_def)
  with b that show thesis by blast
qed

lemma turn_client: "keeps_client turn_libs \<lparr>hc_host = ''127.0.0.1'', hc_port = 6509\<rparr> junk_a"
  unfolding keeps_client_def
proof (intro allI impI)
  fix w b w'
  assume "bin_new turn_libs junk_a w = (Inr b, w')"
  moreover obtain b' w1 where s: "starts turn_libs junk_a (new_process (trace w)) b' w1"
    and b': "bin_http b' = \<lparr>hc_host = ''127.0.0.1'', hc_port = 6509\<rparr>"
    by (rule turn_starts)
  moreover obtain v where "bin_new turn_libs junk_a (new_process (trace w)) = (Inr b', v)"
    using s unfolding starts_def by blast
  ultimately have "bin_http b = bin_http b'"
    by (auto simp: bin_new_def bindP_Inr_iff liftP_def returnP_def Let_def)
  with b' show "bin_http b = \<lparr>hc_host = ''127.0.0.1'', hc_port = 6509\<rparr>" by simp
qed

lemma turn_paste:
  obtains w1 where "invoke turn_libs toy_build (aes_paste input) (new_process tr) = (Inr 0, w1)"
    and "list_ex prints (trace w1)"
    and "run_pins turn_libs (aes_paste input) tr = [pin_text (if list_ex prints tr then 1 else 0)]"
proof -
  let ?L = turn_libs and ?g = "flag_options ''3''"
  obtain b w where start: "starts ?L junk_a (new_process tr) b w"
    and b: "bin_http b = \<lparr>hc_host = ''127.0.0.1'', hc_port = 6509\<rparr>" by (rule turn_starts)
  obtain wa where new: "bin_new ?L junk_a (new_process tr) = (Inr b, wa)" "cipher_init (lib_gpgme ?L) wa = (Inr (), w)"
    using start unfolding starts_def by blast
  have opts: "paste_options (getopt_results ?g [])"
    by (simp add: paste_options_def known_opt_def args_of_def)
  obtain p pwd wp where p: "prepare_data ?L junk_a b (data_from_stream ?L input) (Some (AES_Params (aes_parameters [])))
      (after_pin (lib_rng ?L) w) = (Inr (p, pwd), wp)"
    by (simp add: run_prepare_aes Let_def)
  have send: "\<exists>w'. send_blob ?L junk_a (bin_http b) code d v = (Inr True, w')" for code d v
    using toy_send [of "bin_http b"] b by (simp add: send_blob_def cong: if_cong)
  obtain w' where "bin_paste ?L junk_a b (data_from_stream ?L input) (Some (AES_Params (aes_parameters []))) w =
      (Inr (DPASTE_URI_PREFIX @ pin_text (process_pin (lib_rng ?L) w) @ pwd), w')"
    using bin_paste_succeeds [OF p send] by blast
  then obtain w1 where run: "invoke ?L toy_build (aes_paste input) (new_process tr) = (Inr 0, w1)"
    and printed: "list_ex prints (trace w1)"
    using run_main_prog [OF paste_optionsD(1-3) [OF opts] new, of toy_build input]
      code_of_known [OF paste_optionsD(1) [OF opts]] paste_optionsD(4) [OF opts]
    by (simp add: invoke_def aes_paste_def main_paste_def bin_paste_stream_def params_of_known [OF paste_optionsD(1) [OF opts]]
        chosen_params_def args_of_def run_bind_Inr run_then_Inr run_emit run_return DPASTE_URI_PREFIX_def prints_def)
  have "run_pins ?L (aes_paste input) tr = [pin_text (process_pin turn_rng w)]"
    using opts new
    by (simp add: run_pins_def Let_def aes_paste_def parsed_flags parse_known [OF paste_optionsD(1) [OF opts]]
        code_of_known [OF paste_optionsD(1) [OF opts]] args_of_def known_opt_def)
  also have "process_pin turn_rng w = (if list_ex prints tr then 1 else 0)"
    using start_no_pin [OF start] start_silent [OF start]
    by (simp add: process_pin_def init_pin_statics_def turn_rng_def)
  finally show thesis by (rule that [OF run printed])
qed

theorem main_history_witness:
  "\<exists>uri tr w. tr = history turn_libs toy_build
       [aes_paste ''a'', aes_paste ''hi'', \<lparr>inv_junk = junk_a, inv_getopt = flag_options ''h'', inv_argv = [], inv_input = []\<rparr>] [] \<and>
     main_prog turn_libs junk_a toy_build (get_option uri) [] [] (new_process tr) = (Inr 0, w) \<and>
     last (trace w) = Stdout ''hi''"
proof -
  let ?L = turn_libs and ?C = toy_build and ?i = "aes_paste ''hi''" and ?r1 = "[aes_paste ''a'']"
  let ?usage = "\<lparr>inv_junk = junk_a, inv_getopt = flag_options ''h'', inv_argv = [], inv_input = []\<rparr>"
  let ?hc = "\<lparr>hc_host = ''127.0.0.1'', hc_port = 6509\<rparr>"
  obtain w0 where first: "invoke ?L ?C (aes_paste ''a'') (new_process []) = (Inr 0, w0)" "list_ex prints (trace w0)"
    "run_pins ?L (aes_paste ''a'') [] = [pin_text 0]"
    using turn_paste [of "''a''" "[]"] by auto
  then have h1: "history ?L ?C ?r1 [] = trace w0" "history_pins ?L ?C ?r1 [] = [pin_text 0]" by simp_all
  obtain w1 where run: "invoke ?L ?C ?i (new_process (trace w0)) = (Inr 0, w1)"
    "run_pins ?L ?i (trace w0) = [pin_text 1]"
    using turn_paste [of "''hi''" "trace w0"] first(2) by auto
  have none: "history_pins ?L ?C [?usage] (trace w1) = []"
    by (simp add: run_pins_def Let_def parsed_flags known_opt_def args_of_def)
  have p: "pin_text 0 = ''00000000''" "pin_text 1 = ''00000001''" by code_simp+
  have ap: "transport_apart ?L (pin_text 0) (pin_text 1)"
    unfolding transport_apart_def p by (simp add: toy_dht_def)
  obtain b' w3 where getter: "starts ?L junk_a (new_process (history ?L ?C (?r1 @ ?i # [?usage]) [])) b' w3" "bin_http b' = ?hc"
    by (rule turn_starts)
  have lib: "transport_ok ?L" "msgpack_ok (lib_msgpack ?L)"
    using toy_transport_ok(1) toy_msgpack_ok by (simp_all add: transport_ok_def)
  have chosen: "chosen_params (junk_flags_of (inv_junk ?i)) (getopt_results (inv_getopt ?i) (inv_argv ?i)) =
      Some (AES_Params (aes_parameters []))"
    by (simp add: aes_paste_def chosen_params_def args_of_def)
  have "length (data_from_stream ?L (inv_input ?i)) < 1000" by (simp add: data_from_stream_def aes_paste_def)
  then have ok: "paste_ok ?L (\<lambda>k. True) (inv_junk ?i) (data_from_stream ?L (inv_input ?i))
      (chosen_params (junk_flags_of (inv_junk ?i)) (getopt_results (inv_getopt ?i) (inv_argv ?i)))"
    unfolding chosen paste_ok_def using toy_ciphertext by (simp add: Let_def toy_aes_ok)
  have opts: "paste_options (getopt_results (inv_getopt ?i) (inv_argv ?i))"
    by (simp add: aes_paste_def paste_options_def known_opt_def args_of_def)
  have client: "\<forall>j \<in> set (?r1 @ ?i # [?usage]). keeps_client ?L ?hc (inv_junk j)"
    by (simp add: aes_paste_def turn_client)
  have r: "invoke ?L ?C ?i (new_process (history ?L ?C ?r1 [])) = (Inr 0, w1)" using run(1) h1(1) by simp
  have apart: "\<forall>p \<in> set (history_pins ?L ?C ?r1 []) \<union> set (history_pins ?L ?C [?usage] (trace w1)).
       \<forall>q \<in> set (run_pins ?L ?i (history ?L ?C ?r1 [])). transport_apart ?L p q"
    unfolding h1 none run(2) using ap by simp
  obtain tr where tr: "tr = history ?L ?C (?r1 @ ?i # [?usage]) []" by simp
  obtain uri where "\<forall>getopt' argv' input'. get_options uri False (getopt_results getopt' argv') \<longrightarrow>
      (\<exists>w4. main_prog ?L junk_a ?C getopt' argv' input' (new_process tr) = (Inr 0, w4) \<and>
         last (trace w4) = Stdout (paste_text ?L (Some (AES_Params (aes_parameters []))) (inv_input ?i)))"
    using main_history [OF lib ok opts client r apart getter] unfolding tr [symmetric] chosen by blast
  moreover have "get_options uri False (getopt_results (get_option uri) [])" by (simp add: get_options_def)
  ultimately obtain w where w: "main_prog ?L junk_a ?C (get_option uri) [] [] (new_process tr) = (Inr 0, w)"
    "last (trace w) = Stdout (paste_text ?L (Some (AES_Params (aes_parameters []))) (inv_input ?i))" by blast
  have "last (trace w) = Stdout ''hi''" unfolding w(2) by (simp add: aes_paste_def paste_text_def)
  with w(1) tr show ?thesis by auto
qed

end
