(* ===== verification/Node_Async.thy ===== *)
theory Node_Async
  imports Node
begin

text \<open>
  Several asynchronous \<open>Node::get\<close>s of \<open>src/node.cpp\<close> at once. A call makes a vector that its two
  lambdas share through \<open>std::shared_ptr\<close>; the threads of the DHT run the lambdas of all calls in any
  order and destroy them when they like. The model has the heap with the reference counts, so that a
  vector lives as long as a lambda that captured it, and its address can be used again afterwards.
\<close>

section \<open>The machine\<close>

text \<open>
  What happens: call number \<open>i\<close> of \<open>get\<close>, which gets address \<open>a\<close> for its vector and has a callback or
  an empty one; a value or the end of the search, handed to the lambdas of call \<open>i\<close>; and the destruction of
  either lambda.
\<close>

datatype action =
    Get_Call nat nat bool
  | On_Value nat dht_value
  | On_Done nat bool
  | Drop_Value_Cb nat
  | Drop_Done_Cb nat

datatype report = Failure_Message | Passed "bytes list"

text \<open>
  \<open>vectors\<close> maps an address to the contents and the use count of the vector there. \<open>value_cbs\<close> and
  \<open>done_cbs\<close> are the lambdas that are alive, with what they captured. \<open>reports\<close> says what the calls
  told to whom, in order; \<open>dangling\<close> is set when a lambda reads or writes a vector that is not there.
\<close>

record async_state =
  vectors :: "nat \<Rightarrow> (bytes list \<times> nat) option"
  value_cbs :: "nat \<Rightarrow> nat option"
  done_cbs :: "nat \<Rightarrow> (nat \<times> bool) option"
  called :: "nat list"
  finished :: "nat list"
  reports :: "(nat \<times> report) list"
  dangling :: bool

definition async_start :: async_state where
  "async_start = \<lparr>vectors = \<lambda>a. None, value_cbs = \<lambda>i. None, done_cbs = \<lambda>i. None, called = [],
     finished = [], reports = [], dangling = False\<rparr>"

text \<open>The destruction of a \<open>shared_ptr\<close>: the last one takes the vector with it.\<close>

definition release :: "(nat \<Rightarrow> (bytes list \<times> nat) option) \<Rightarrow> nat \<Rightarrow> nat \<Rightarrow> (bytes list \<times> nat) option" where
  "release h a =
     (case h a of
        None \<Rightarrow> h
      | Some (blobs, count) \<Rightarrow> h(a := if count \<le> 1 then None else Some (blobs, count - 1)))"

definition done_report :: "bool \<Rightarrow> bytes list \<Rightarrow> bool \<Rightarrow> report list" where
  "done_report has_pcb blobs success =
     (if \<not> success then [Failure_Message] else if has_pcb then [Passed blobs] else [])"

text \<open>
  One step. Of the library it takes that memory it hands out is not in use and that the done
  callback of a call is run at most once; everything else may happen in any order, values after the
  end and lambdas destroyed without having been run included.
\<close>

fun async_step :: "async_state \<Rightarrow> action \<Rightarrow> async_state option" where
  "async_step s (Get_Call i a has_pcb) =
     (if i \<in> set (called s) \<or> vectors s a \<noteq> None then None
      else Some (s\<lparr>vectors := (vectors s)(a \<mapsto> ([], 2)), value_cbs := (value_cbs s)(i \<mapsto> a),
                   done_cbs := (done_cbs s)(i \<mapsto> (a, has_pcb)), called := i # called s\<rparr>))"
| "async_step s (On_Value i v) =
     (case value_cbs s i of
        None \<Rightarrow> None
      | Some a \<Rightarrow>
          (case vectors s a of
             None \<Rightarrow> Some (s\<lparr>dangling := True\<rparr>)
           | Some (blobs, n) \<Rightarrow> Some (s\<lparr>vectors := (vectors s)(a \<mapsto> (fst (get_on_value blobs v), n))\<rparr>)))"
| "async_step s (On_Done i success) =
     (case done_cbs s i of
        None \<Rightarrow> None
      | Some (a, has_pcb) \<Rightarrow>
          if i \<in> set (finished s) then None
          else
            (case vectors s a of
               None \<Rightarrow> Some (s\<lparr>finished := i # finished s, dangling := True\<rparr>)
             | Some (blobs, n) \<Rightarrow>
                 Some (s\<lparr>finished := i # finished s,
                         reports := reports s @ map (Pair i) (done_report has_pcb blobs success)\<rparr>)))"
| "async_step s (Drop_Value_Cb i) =
     (case value_cbs s i of
        None \<Rightarrow> None
      | Some a \<Rightarrow> Some (s\<lparr>vectors := release (vectors s) a, value_cbs := (value_cbs s)(i := None)\<rparr>))"
| "async_step s (Drop_Done_Cb i) =
     (case done_cbs s i of
        None \<Rightarrow> None
      | Some (a, has_pcb) \<Rightarrow> Some (s\<lparr>vectors := release (vectors s) a, done_cbs := (done_cbs s)(i := None)\<rparr>))"

definition async_run :: "action list \<Rightarrow> async_state option" where
  "async_run acts = foldl (\<lambda>r act. Option.bind r (\<lambda>s. async_step s act)) (Some async_start) acts"

text \<open>A report is what \<open>get_on_done\<close> does.\<close>

fun perform_report :: "(bytes list \<Rightarrow> unit proc) option \<Rightarrow> report \<Rightarrow> unit proc" where
  "perform_report pcb Failure_Message = emitP (Stderr (OPERATION_FAILURE_MSG @ '' (get)'' @ [CHR 0x0A]))"
| "perform_report pcb (Passed blobs) = (case pcb of Some cb \<Rightarrow> cb blobs | None \<Rightarrow> returnP ())"

lemma done_report_performs:
  "get_on_done pcb blobs success =
     foldr (\<lambda>r m. bindP (perform_report pcb r) (\<lambda>u. m)) (done_report (pcb \<noteq> None) blobs success) (returnP ())"
proof -
  have "bindP m (\<lambda>u. returnP ()) = m" for m :: "unit proc"
    by (rule ext) (simp add: bindP_def returnP_def split: prod.splits sum.splits)
  then show ?thesis by (simp add: get_on_done_def done_report_def split: option.splits)
qed

lemma async_run_Nil [simp]: "async_run [] = Some async_start"
  by (simp add: async_run_def)

lemma async_run_snoc [simp]: "async_run (acts @ [act]) = Option.bind (async_run acts) (\<lambda>s. async_step s act)"
  by (simp add: async_run_def)

section \<open>What a call by itself tells\<close>

fun of_call :: "nat \<Rightarrow> action \<Rightarrow> bool" where
  "of_call i (Get_Call j a c) = (j = i)"
| "of_call i (On_Value j v) = (j = i)"
| "of_call i (On_Done j ok) = (j = i)"
| "of_call i (Drop_Value_Cb j) = (j = i)"
| "of_call i (Drop_Done_Cb j) = (j = i)"

text \<open>
  Of the actions of one call: whether it has a callback, the values it was handed, and what it
  tells: nothing before the end of the search, then the values handed to it so far, in order.
\<close>

definition call_has_pcb :: "action list \<Rightarrow> bool" where
  "call_has_pcb own \<longleftrightarrow> list_ex (\<lambda>act. case act of Get_Call i a c \<Rightarrow> c | _ \<Rightarrow> False) own"

definition call_values :: "action list \<Rightarrow> dht_value list" where
  "call_values own = concat (map (\<lambda>act. case act of On_Value i v \<Rightarrow> [v] | _ \<Rightarrow> []) own)"

definition not_done :: "action \<Rightarrow> bool" where
  "not_done act \<longleftrightarrow> (case act of On_Done i ok \<Rightarrow> False | _ \<Rightarrow> True)"

definition call_reports :: "action list \<Rightarrow> report list" where
  "call_reports own =
     (case dropWhile not_done own of
        On_Done i success # rest \<Rightarrow>
          done_report (call_has_pcb (takeWhile not_done own)) (deliver [] (call_values (takeWhile not_done own))) success
      | _ \<Rightarrow> [])"

definition reports_of :: "nat \<Rightarrow> async_state \<Rightarrow> report list" where
  "reports_of i s = map snd (filter (\<lambda>r. fst r = i) (reports s))"

section \<open>The heap\<close>

text \<open>
  A vector is there as long as a lambda of the one call it belongs to is, and its use count is the
  number of those. So nothing is read or written behind its end, although addresses are used again.
\<close>

definition shares :: "async_state \<Rightarrow> nat \<Rightarrow> nat \<Rightarrow> nat" where
  "shares s i a = (if value_cbs s i = Some a then 1 else 0) +
     (if map_option fst (done_cbs s i) = Some a then 1 else 0)"

definition vector_ok :: "async_state \<Rightarrow> nat \<Rightarrow> bool" where
  "vector_ok s a \<longleftrightarrow>
     (case vectors s a of
        None \<Rightarrow> \<forall>i. shares s i a = 0
      | Some (blobs, n) \<Rightarrow> 0 < n \<and> (\<exists>i. n = shares s i a \<and> (\<forall>j. j \<noteq> i \<longrightarrow> shares s j a = 0)))"

definition heap_inv :: "async_state \<Rightarrow> bool" where
  "heap_inv s \<longleftrightarrow> (\<forall>a. vector_ok s a) \<and> \<not> dangling s \<and>
     (\<forall>i. i \<notin> set (called s) \<longrightarrow> value_cbs s i = None \<and> done_cbs s i = None) \<and>
     (\<forall>i a b c. value_cbs s i = Some a \<longrightarrow> done_cbs s i = Some (b, c) \<longrightarrow> a = b)"

lemma heap_invD:
  assumes "heap_inv s"
  shows "vector_ok s a" "\<not> dangling s" "i \<notin> set (called s) \<Longrightarrow> value_cbs s i = None \<and> done_cbs s i = None"
    "\<lbrakk>value_cbs s i = Some a; done_cbs s i = Some (b, c)\<rbrakk> \<Longrightarrow> a = b"
  using assms unfolding heap_inv_def by blast+

lemma shared_lives:
  assumes "vector_ok s a" and "shares s i a > 0"
  obtains blobs where "vectors s a = Some (blobs, shares s i a)" and "\<And>j. j \<noteq> i \<Longrightarrow> shares s j a = 0"
proof (cases "vectors s a")
  case None
  with assms show ?thesis by (auto simp: vector_ok_def)
next
  case (Some v)
  obtain blobs n where v: "v = (blobs, n)" by (cases v)
  obtain k where k: "n = shares s k a" "\<And>j. j \<noteq> k \<Longrightarrow> shares s j a = 0"
    using assms(1) Some v by (auto simp: vector_ok_def)
  then have "k = i" using assms(2) by (metis less_irrefl)
  with Some v k show ?thesis using that by simp
qed

lemma captured_shares:
  "value_cbs s i = Some a \<Longrightarrow> shares s i a > 0" "done_cbs s i = Some (a, c) \<Longrightarrow> shares s i a > 0"
  by (simp_all add: shares_def)

lemma shares_zero: "shares s i a = 0 \<longleftrightarrow> value_cbs s i \<noteq> Some a \<and> map_option fst (done_cbs s i) \<noteq> Some a"
  by (simp add: shares_def)

text \<open>Destroying a lambda that shares a vector.\<close>

lemma vector_ok_release:
  assumes ok: "\<And>b. vector_ok s b" and held: "shares s i a > 0"
    and one: "shares s' i a = shares s i a - 1" and rest: "\<And>j b. (j, b) \<noteq> (i, a) \<Longrightarrow> shares s' j b = shares s j b"
    and vec: "vectors s' = release (vectors s) a"
  shows "vector_ok s' b"
proof (cases "b = a")
  case False
  then have "shares s' j b = shares s j b" for j using rest by auto
  with ok [of b] False show ?thesis
    by (simp add: vector_ok_def vec release_def split: option.splits prod.splits)
next
  case True
  obtain blobs where v: "vectors s a = Some (blobs, shares s i a)" and z: "\<And>j. j \<noteq> i \<Longrightarrow> shares s j a = 0"
    using shared_lives [OF ok held] by blast
  have z': "j \<noteq> i \<Longrightarrow> shares s' j a = 0" for j using rest [of j a] z [of j] by simp
  show ?thesis
  proof (cases "shares s i a \<le> 1")
    case True
    then have "shares s' j a = 0" for j using one z' [of j] by (cases "j = i") auto
    with True v \<open>b = a\<close> show ?thesis by (simp add: vector_ok_def vec release_def)
  next
    case False
    with v z' one \<open>b = a\<close> show ?thesis
      by (auto simp: vector_ok_def vec release_def intro!: exI [of _ i])
  qed
qed

lemma vector_ok_cong:
  assumes "vector_ok s b" and "\<And>j. shares s' j b = shares s j b"
    and "map_option snd (vectors s' b) = map_option snd (vectors s b)"
  shows "vector_ok s' b"
  using assms by (auto simp: vector_ok_def split: option.splits prod.splits)

lemma heap_step:
  assumes inv: "heap_inv s" and step: "async_step s act = Some s'"
  shows "heap_inv s'"
proof (cases act)
  case (Get_Call i a c)
  note g = heap_invD [OF inv]
  have n: "i \<notin> set (called s)" "vectors s a = None"
    and s': "s' = s\<lparr>vectors := (vectors s)(a \<mapsto> ([], 2)), value_cbs := (value_cbs s)(i \<mapsto> a),
                   done_cbs := (done_cbs s)(i \<mapsto> (a, c)), called := i # called s\<rparr>"
    using step Get_Call by (auto simp only: async_step.simps split: if_splits)
  have z: "shares s j a = 0" for j using g(1) [of a] n(2) by (simp add: vector_ok_def)
  have sh: "shares s' j b = (if j = i \<and> b = a then 2 else shares s j b)" for j b
    using g(3) [OF n(1)] by (simp add: shares_def s')
  have "vector_ok s' b" for b
  proof (cases "b = a")
    case True
    have "vectors s' a = Some ([], 2)" by (simp add: s')
    with z sh True show ?thesis by (auto simp: vector_ok_def intro!: exI [of _ i])
  next
    case False
    then show ?thesis by (intro vector_ok_cong [OF g(1)]) (simp_all add: sh, simp add: s')
  qed
  with g n show ?thesis unfolding heap_inv_def by (auto simp: s')
next
  case (On_Value i v)
  note g = heap_invD [OF inv]
  obtain a where a: "value_cbs s i = Some a" using step On_Value by (auto split: option.splits)
  obtain blobs where v: "vectors s a = Some (blobs, shares s i a)"
    using shared_lives [OF g(1) captured_shares(1) [OF a]] by blast
  have s': "s' = s\<lparr>vectors := (vectors s)(a \<mapsto> (fst (get_on_value blobs v), shares s i a))\<rparr>"
    using step On_Value a v by simp
  have "vector_ok s' b" for b
    by (rule vector_ok_cong [OF g(1)]) (simp_all add: shares_def s' v)
  with g show ?thesis unfolding heap_inv_def by (auto simp: s')
next
  case (On_Done i ok)
  note g = heap_invD [OF inv]
  obtain a c where a: "done_cbs s i = Some (a, c)" using step On_Done by (auto split: option.splits)
  obtain blobs where v: "vectors s a = Some (blobs, shares s i a)"
    using shared_lives [OF g(1) captured_shares(2) [OF a]] by blast
  have s': "s' = s\<lparr>finished := i # finished s, reports := reports s @ map (Pair i) (done_report c blobs ok)\<rparr>"
    using step On_Done a v by (simp split: if_splits)
  have "vector_ok s' b" for b
    by (rule vector_ok_cong [OF g(1)]) (simp_all add: shares_def s')
  with g show ?thesis unfolding heap_inv_def by (auto simp: s')
next
  case (Drop_Value_Cb i)
  note g = heap_invD [OF inv]
  obtain a where a: "value_cbs s i = Some a" using step Drop_Value_Cb by (auto split: option.splits)
  have s': "s' = s\<lparr>vectors := release (vectors s) a, value_cbs := (value_cbs s)(i := None)\<rparr>"
    using step Drop_Value_Cb a by simp
  have "vector_ok s' b" for b
    by (rule vector_ok_release [OF g(1) captured_shares(1) [OF a]]) (use a in \<open>auto simp: shares_def s'\<close>)
  with g show ?thesis unfolding heap_inv_def by (auto simp: s')
next
  case (Drop_Done_Cb i)
  note g = heap_invD [OF inv]
  obtain a c where a: "done_cbs s i = Some (a, c)" using step Drop_Done_Cb by (auto split: option.splits)
  have s': "s' = s\<lparr>vectors := release (vectors s) a, done_cbs := (done_cbs s)(i := None)\<rparr>"
    using step Drop_Done_Cb a by simp
  have "vector_ok s' b" for b
    by (rule vector_ok_release [OF g(1) captured_shares(2) [OF a]]) (use a in \<open>auto simp: shares_def s'\<close>)
  with g show ?thesis unfolding heap_inv_def by (auto simp: s')
qed

lemma heap_start: "heap_inv async_start"
  by (simp add: heap_inv_def vector_ok_def shares_def async_start_def)

section \<open>The reports\<close>

lemma call_reports_snoc:
  "list_all not_done own \<Longrightarrow> call_reports own = []"
  "list_all not_done own \<Longrightarrow> call_reports (own @ [On_Done i ok]) =
     done_report (call_has_pcb own) (deliver [] (call_values own)) ok"
  "\<lbrakk>list_all not_done own; not_done act\<rbrakk> \<Longrightarrow> call_reports (own @ [act]) = []"
  "\<not> list_all not_done own \<Longrightarrow> call_reports (own @ [act]) = call_reports own"
proof -
  have all: "takeWhile not_done own = own" "dropWhile not_done own = []" if "list_all not_done own"
    using that by (simp_all add: list_all_iff)
  show "list_all not_done own \<Longrightarrow> call_reports own = []"
    by (simp only: call_reports_def all list.case)
  show "list_all not_done own \<Longrightarrow> call_reports (own @ [On_Done i ok]) =
     done_report (call_has_pcb own) (deliver [] (call_values own)) ok"
    by (simp add: call_reports_def takeWhile_append dropWhile_append list_all_iff not_done_def)
  show "\<lbrakk>list_all not_done own; not_done act\<rbrakk> \<Longrightarrow> call_reports (own @ [act]) = []"
    by (simp add: call_reports_def dropWhile_append list_all_iff)
  assume "\<not> list_all not_done own"
  then obtain x where "x \<in> set own" "\<not> not_done x" by (auto simp: list_all_iff)
  then have "dropWhile not_done (own @ [act]) = dropWhile not_done own @ [act]"
    "takeWhile not_done (own @ [act]) = takeWhile not_done own" "dropWhile not_done own \<noteq> []"
    by (auto simp: dropWhile_append1 takeWhile_append1)
  then show "call_reports (own @ [act]) = call_reports own"
    unfolding call_reports_def by (cases "dropWhile not_done own") (auto split: action.split)
qed

lemma call_reports_Nil [simp]: "call_reports [] = []"
  by (simp add: call_reports_def)

lemma call_parts_snoc [simp]:
  "call_values (own @ [act]) = call_values own @ (case act of On_Value i v \<Rightarrow> [v] | _ \<Rightarrow> [])"
  "call_has_pcb (own @ [act]) \<longleftrightarrow> call_has_pcb own \<or> (case act of Get_Call i a c \<Rightarrow> c | _ \<Rightarrow> False)"
  by (simp_all add: call_values_def call_has_pcb_def)

lemma deliver_values: "deliver blobs vs = blobs @ map val_data vs"
  by (induction vs arbitrary: blobs) (simp_all add: get_on_value_def)

definition call_inv :: "async_state \<Rightarrow> nat \<Rightarrow> action list \<Rightarrow> bool" where
  "call_inv s i own \<longleftrightarrow> (i \<notin> set (called s) \<longrightarrow> own = []) \<and>
     (i \<in> set (finished s) \<longleftrightarrow> \<not> list_all not_done own) \<and> reports_of i s = call_reports own \<and>
     (\<forall>a c. done_cbs s i = Some (a, c) \<longrightarrow> c = call_has_pcb own \<and>
        (\<exists>n. vectors s a = Some (map val_data (call_values own), n)))"

text \<open>A step of another call changes nothing a call can see.\<close>

lemma other_call:
  assumes inv: "heap_inv s" and step: "async_step s act = Some s'" and other: "\<not> of_call i act"
    and call: "call_inv s i own"
  shows "call_inv s' i own"
proof -
  note g = heap_invD [OF inv]
  have away: "a \<noteq> b" if "done_cbs s i = Some (a, c)" "shares s j b > 0" "j \<noteq> i" for a b c j
  proof
    assume "a = b"
    with that(1) have "shares s i b > 0" by (simp add: captured_shares)
    then show False using shared_lives [OF g(1) that(2)] that(3) by (metis less_irrefl)
  qed
  have frame: "i \<in> set (called s') \<longleftrightarrow> i \<in> set (called s)" "i \<in> set (finished s') \<longleftrightarrow> i \<in> set (finished s)"
    "reports_of i s' = reports_of i s" "done_cbs s' i = done_cbs s i"
    using step other
    by (cases act; auto simp: reports_of_def filter_empty_conv split: option.splits prod.splits if_splits)+
  have "vectors s' a = vectors s a" if d: "done_cbs s i = Some (a, c)" for a c
  proof -
    have lives: "vectors s a \<noteq> None" using shared_lives [OF g(1) captured_shares(2) [OF d]] by blast
    show ?thesis
    proof (cases act)
      case (Get_Call j b c')
      with step lives show ?thesis by (auto split: if_splits)
    next
      case (On_Value j v)
      then obtain b where "value_cbs s j = Some b" using step by (auto split: option.splits)
      with away [OF d captured_shares(1) [OF this]] On_Value step other show ?thesis
        by (auto split: option.splits)
    next
      case (On_Done j ok)
      with step show ?thesis by (auto split: option.splits if_splits)
    next
      case (Drop_Value_Cb j)
      then obtain b where "value_cbs s j = Some b" using step by (auto split: option.splits)
      with away [OF d captured_shares(1) [OF this]] Drop_Value_Cb step other show ?thesis
        by (auto simp: release_def split: option.splits)
    next
      case (Drop_Done_Cb j)
      then obtain b c' where "done_cbs s j = Some (b, c')" using step by (auto split: option.splits)
      with away [OF d captured_shares(2) [OF this]] Drop_Done_Cb step other show ?thesis
        by (auto simp: release_def split: option.splits)
    qed
  qed
  with call frame show ?thesis by (simp add: call_inv_def)
qed

text \<open>A step of the call itself adds to what it was handed, or ends it.\<close>

lemma own_call:
  assumes inv: "heap_inv s" and step: "async_step s act = Some s'" and mine: "of_call i act"
    and call: "call_inv s i own"
  shows "call_inv s' i (own @ [act])"
proof -
  note g = heap_invD [OF inv]
  have c: "i \<notin> set (called s) \<Longrightarrow> own = []" "i \<in> set (finished s) \<longleftrightarrow> \<not> list_all not_done own"
    "reports_of i s = call_reports own"
    and d: "done_cbs s i = Some (a, c) \<Longrightarrow> c = call_has_pcb own \<and>
        (\<exists>n. vectors s a = Some (map val_data (call_values own), n))" for a c
    using call by (auto simp: call_inv_def)
  have same: "call_reports (own @ [act]) = call_reports own" if "not_done act"
    using that call_reports_snoc by (cases "list_all not_done own") simp_all
  have here: "i \<in> set (called s)" if "value_cbs s i \<noteq> None \<or> done_cbs s i \<noteq> None"
    using g(3) [of i] that by blast
  show ?thesis
  proof (cases act)
    case (Get_Call j a c')
    then have "own = []" "reports_of i s = []"
      using step mine c(1,3) by (auto simp: call_reports_def split: if_splits)
    with Get_Call mine step c(2) same show ?thesis
      by (auto simp: call_inv_def not_done_def reports_of_def call_values_def call_has_pcb_def split: if_splits)
  next
    case (On_Value j v)
    then obtain a where a: "value_cbs s i = Some a" using step mine by (auto split: option.splits)
    with shared_lives [OF g(1) captured_shares(1) [OF a]] obtain bs n where v: "vectors s a = Some (bs, n)" by blast
    have "done_cbs s i = Some (b, c') \<Longrightarrow> b = a" for b c' using g(4) [OF a] by blast
    with On_Value mine step a v c d same here show ?thesis
      by (auto simp: call_inv_def not_done_def reports_of_def get_on_value_def)
  next
    case (On_Done j ok)
    then obtain a c' where a: "done_cbs s i = Some (a, c')" using step mine by (auto split: option.splits)
    then obtain n where v: "c' = call_has_pcb own" "vectors s a = Some (map val_data (call_values own), n)"
      using d by blast
    have fresh: "i \<notin> set (finished s)" using step On_Done mine a by (auto split: if_splits)
    then have all: "list_all not_done own" using c(2) by blast
    have act: "act = On_Done i ok" using On_Done mine by simp
    have s': "s' = s\<lparr>finished := i # finished s,
        reports := reports s @ map (Pair i) (done_report c' (map val_data (call_values own)) ok)\<rparr>"
      using step act a v fresh by simp
    have "reports_of i s' = call_reports (own @ [act])"
      using c(3) v(1) call_reports_snoc(1,2) [OF all] act
      by (simp add: deliver_values s' reports_of_def filter_map o_def)
    then show ?thesis
      unfolding call_inv_def using here a v by (simp add: s' act not_done_def)
  next
    case (Drop_Value_Cb j)
    then obtain a where a: "value_cbs s i = Some a" using step mine by (auto split: option.splits)
    have "\<exists>n. release (vectors s) a b = Some (map val_data (call_values own), n)" if "done_cbs s i = Some (b, c')" for b c'
    proof -
      have "b = a" using g(4) [OF a that] by simp
      with a that have "shares s i a = 2" by (simp add: shares_def)
      with shared_lives [OF g(1) captured_shares(1) [OF a]] d [OF that] \<open>b = a\<close> show ?thesis
        by (auto simp: release_def)
    qed
    with Drop_Value_Cb mine step a c d same here show ?thesis
      by (auto simp: call_inv_def not_done_def reports_of_def)
  next
    case (Drop_Done_Cb j)
    then obtain a c' where a: "done_cbs s i = Some (a, c')" using step mine by (auto split: option.splits)
    with Drop_Done_Cb mine step c d same here show ?thesis
      by (auto simp: call_inv_def not_done_def reports_of_def)
  qed
qed

lemma async_run_inv:
  assumes "async_run acts = Some s"
  shows "heap_inv s \<and> call_inv s i (filter (of_call i) acts)"
  using assms
proof (induction acts arbitrary: s rule: rev_induct)
  case Nil
  then have "s = async_start" by simp
  then show ?case
    using heap_start by (simp add: call_inv_def reports_of_def call_reports_def) (simp add: async_start_def)
next
  case (snoc act acts)
  then obtain s0 where s0: "async_run acts = Some s0" "async_step s0 act = Some s" by (auto split: bind_splits)
  with snoc.IH have h: "heap_inv s0" "call_inv s0 i (filter (of_call i) acts)" by auto
  with heap_step [OF h(1) s0(2)] own_call [OF h(1) s0(2) _ h(2)] other_call [OF h(1) s0(2) _ h(2)] show ?case
    by simp
qed

section \<open>Properties\<close>

text \<open>
  C19. Asynchronous gets do not disturb each other: whatever calls are under way and in whatever order
  the DHT runs and destroys their lambdas, no lambda ever touches a vector that is gone, and each call
  tells exactly what its own events say: nothing before its search has ended, then once, with
  success the blobs handed to it until then, in their order, to its callback if it has one, or the failure
  message. A vector is there exactly as long as a lambda that shares it.
\<close>

theorem async_gets:
  assumes "async_run acts = Some s"
  shows "\<not> dangling s \<and> (\<forall>i. reports_of i s = call_reports (filter (of_call i) acts)) \<and>
     (\<forall>a. vectors s a \<noteq> None \<longleftrightarrow> (\<exists>i c. value_cbs s i = Some a \<or> done_cbs s i = Some (a, c)))"
proof (intro conjI allI)
  have h: "heap_inv s" "call_inv s i (filter (of_call i) acts)" for i using async_run_inv [OF assms] by auto
  then show "\<not> dangling s" "reports_of i s = call_reports (filter (of_call i) acts)" for i
    by (simp_all add: heap_inv_def call_inv_def)
  show "vectors s a \<noteq> None \<longleftrightarrow> (\<exists>i c. value_cbs s i = Some a \<or> done_cbs s i = Some (a, c))" for a
  proof
    assume "vectors s a \<noteq> None"
    with heap_invD(1) [OF h(1), of a] obtain i where "shares s i a > 0" by (auto simp: vector_ok_def)
    then show "\<exists>i c. value_cbs s i = Some a \<or> done_cbs s i = Some (a, c)"
      by (auto simp: shares_def split: if_splits)
  next
    assume "\<exists>i c. value_cbs s i = Some a \<or> done_cbs s i = Some (a, c)"
    then obtain i where "shares s i a > 0" using captured_shares by blast
    then obtain blobs where "vectors s a = Some (blobs, shares s i a)"
      using shared_lives [OF heap_invD(1) [OF h(1)]] by blast
    then show "vectors s a \<noteq> None" by simp
  qed
qed

theorem async_gets_witness:
  "\<exists>s. async_run
       [Get_Call 0 7 True, Get_Call 1 8 False, On_Value 0 (paste_value [1]), On_Value 1 (paste_value [5]),
        On_Value 0 (paste_value [2]), On_Done 1 False, Drop_Done_Cb 1, On_Done 0 True, Drop_Value_Cb 1,
        Get_Call 2 8 True, On_Done 2 True] = Some s \<and>
     \<not> dangling s \<and> reports_of 0 s = [Passed [[1], [2]]] \<and> reports_of 1 s = [Failure_Message] \<and>
     reports_of 2 s = [Passed []] \<and> vectors s 8 \<noteq> None"
proof -
  let ?acts = "[Get_Call 0 7 True, Get_Call 1 8 False, On_Value 0 (paste_value [1]), On_Value 1 (paste_value [5]),
        On_Value 0 (paste_value [2]), On_Done 1 False, Drop_Done_Cb 1, On_Done 0 True, Drop_Value_Cb 1,
        Get_Call 2 8 True, On_Done 2 True]"
  have "async_run ?acts \<noteq> None"
    by (simp add: async_run_def async_start_def release_def get_on_value_def)
  then obtain s where s: "async_run ?acts = Some s" by blast
  have v: "value_cbs s 2 = Some 8"
    using s by (simp add: async_run_def async_start_def release_def get_on_value_def) auto
  have r: "reports_of 0 s = [Passed [[1], [2]]]" "reports_of 1 s = [Failure_Message]" "reports_of 2 s = [Passed []]"
    using async_gets [OF s]
    by (simp_all add: call_reports_def not_done_def done_report_def call_values_def call_has_pcb_def get_on_value_def paste_value_def)
  have "vectors s 8 \<noteq> None" using async_gets [OF s] v by blast
  with s async_gets [OF s] r show ?thesis by blast
qed

end
