(* ===== verification/Spec2Isabelle.thy ===== *)
theory Spec2Isabelle
  imports Main_Prog Node_Blocking Node_Stop Store_Session Process_Uris Escapes
    Confidential Conf_Reference Getopt_Ref Curlpp_Slots Refused_Port Unit_Tests
    Main_History Node_Async
begin

text \<open>
  A verification of \<open>dpaste\<close>, a pastebin over the OpenDHT distributed hash table (C++17, \<open>src/\<close>).

  \<^bold>\<open>The program.\<close> \<open>main\<close> parses its options, constructs a \<open>Bin\<close> and either pastes its
  standard input or gets what is stored under a code. A paste draws a PIN of eight hexadecimal digits
  as location code, encrypts the data (AES under a second PIN, or GPG for recipients) or leaves it as
  it is, with a signature if asked for, packs it with msgpack and hands the packet to an HTTP service,
  and when that fails to a DHT node of its own. It prints \<open>dpaste:\<close>, the code, and for AES the
  password. A get takes the URI apart, fetches the packet from the HTTP service or else from the node,
  unpacks it, chooses the cipher by looking at the data and at the length of the code, decrypts, and
  looks at a signature.

  \<^bold>\<open>The theories\<close>, in the order of their imports:
  \<^item> \<open>Dpaste_Prelude\<close>: bytes and characters, the members of \<open>std::string\<close> the program uses, \<open>getline\<close>.
  \<^item> \<open>Effects\<close>: exceptions as values, the trace of what a run does to the outside, the process state with
    the function-local \<open>static\<close> variables, and procedures over it with sequencing and \<open>try\<close>.
  \<^item> \<open>Log\<close>: \<open>log.cpp\<close>. \<open>Conf\<close>: \<open>conf.h\<close>, \<open>conf.cpp\<close>. \<open>Pin\<close>: \<open>random_pin\<close> and \<open>code_from_dpaste_uri\<close> of
    \<open>bin.cpp\<close>. \<open>Packet\<close>: \<open>Bin::Packet\<close> and \<open>findMapValue\<close>.
  \<^item> \<open>Cipher_Params\<close>, \<open>Aes\<close>, \<open>Gpg\<close>, \<open>Cipher\<close>: \<open>cipher.h\<close>, \<open>aescrypto.cpp\<close>, \<open>gpgcrypto.cpp\<close>, \<open>cipher.cpp\<close>.
  \<^item> \<open>Curlpp_Options\<close>: \<open>curlpp/Options.hpp\<close>, the table of options over the version of libcurl and the flags
    of the build; \<open>Curlpp_Slots\<close>: which of them share a setting.
  \<^item> \<open>Http_Client\<close>: \<open>http_client.h\<close>, \<open>http_client.cpp\<close>: the settings of a request under the names of the table,
    the request, and the nested \<open>try\<close> blocks. \<open>Node\<close>: \<open>node.h\<close>, \<open>node.cpp\<close>, sequentially;
    \<open>Node_Blocking\<close> and \<open>Node_Stop\<close> are the two members that wait for another thread (the blocking \<open>paste\<close>
    and \<open>stop\<close>) as step relations over their mutex, flag and condition variable; \<open>Node_Async\<close> has any number
    of asynchronous \<open>get\<close>s at once, with the reference-counted vectors their lambdas share.
  \<^item> \<open>Bin\<close>: the constructor, \<open>data_from_stream\<close>, \<open>prepare_data\<close>, \<open>paste\<close> and \<open>get\<close> of \<open>bin.h\<close>, \<open>bin.cpp\<close>.
    \<open>Main_Prog\<close>: \<open>main.cpp\<close>.
  \<^item> Over these: \<open>Conf_Reference\<close> (a reference for \<open>load\<close> without streams), \<open>Store_Session\<close> (the transport
    refines an abstract store), \<open>Process_Uris\<close> (many pastes of one process), \<open>Escapes\<close> (which exceptions
    leave which function), \<open>Refused_Port\<close> (a configured port that libcurl refuses), \<open>Confidential\<close>
    (what the network sees of a paste), \<open>Getopt_Ref\<close> (command lines as typed), \<open>Main_Roundtrip\<close> (the
    program run to paste and run again to get), \<open>Main_History\<close> (the program run any number of times by
    all who share a configuration), \<open>Unit_Tests\<close> (the test cases of \<open>src/tests\<close>, which the
    model passes). \<open>Msgpack_Ref\<close> is the part of the msgpack format that packets use, as an instance of the
    library's hypotheses.
  \<^item> This theory: the properties that span the components, from \<open>Bin::paste\<close> to \<open>Bin::get\<close> and from one
    process to the next.

  \<^bold>\<open>State.\<close> A \<open>world\<close> holds the trace and the statics; the members of \<open>Bin\<close>, \<open>Node\<close>,
  \<open>HttpClient\<close>, \<open>GPG\<close> and \<open>ConfigurationFile\<close> are records of the same fields that are passed and returned.
  Uninitialised variables (the scheme of a plain paste, the flags of \<open>GPGParameters\<close>, the port, the flag
  of the blocking paste) are read from an argument \<open>junk\<close>; a statement for all \<open>junk\<close> holds whatever they
  are, and two processes have two of them.

  \<^bold>\<open>Third-party code\<close> is an argument: gpgme, the AES functions of OpenDHT, the DHT, libcurl and the HTTP
  service, msgpack, JSON and base64, the random engine, the file system, \<open>getopt_long\<close>. A function for
  a call that asks the outside is given the trace, so it may answer the same call differently at
  different times. What a property needs of a library is a named predicate (\<open>aes_lib_ok\<close>, \<open>reads_ok\<close>,
  \<open>adds_keys\<close>, \<open>signs_ok\<close>, \<open>msgpack_ok\<close>, \<open>curl_ok\<close>, \<open>http_ok\<close>, \<open>dht_ok\<close>, \<open>getopt_ok\<close>), shown to hold of a concrete instance.

  \<^bold>\<open>Interfaces.\<close> \<open>cipher_scheme\<close> (decryption inverts encryption up to padding; interpreted by AES and
  GPG), \<open>packet_format\<close> (msgpack packets), \<open>config_source\<close> (a loaded configuration keeps its options),
  \<open>blob_store\<close> (what was put is what is got; interpreted by the HTTP client, the node, and the two
  together as the program uses them) and its extension \<open>framed_store\<close> for sessions over many codes.

  \<^bold>\<open>What is shown.\<close> Round trips: paste and get for plain, signed, AES and GPG data, each for the
  whole program, with anything in between that does not store under the same PIN, and in any history of
  runs; packets; PINs; parsed arguments and command lines. Behaviour on every
  branch: \<open>paste\<close>, \<open>get\<close>, the HTTP requests, decryption, deserialisation, options, port, URIs, log lines.
  Errors: what can leave \<open>main\<close>, and that a refused port does, in every run. Confidentiality: an
  encrypted paste sends a cipher text and nothing else, and never falls back to plain text.
  Invariants: the configuration, the constructor, initialisation, the PIN of a process. The concurrent
  members refine the sequential ones, terminate and do not get stuck; asynchronous gets do not disturb each
  other. Some theorems state what
  the code does where that is not what it is meant to do: the AES password equals the location code, the
  uninitialised scheme and flag, the notification after the return, the NUL that GPG data gains.

  \<^bold>\<open>Bounds.\<close> Integers: the port of a node is a 16-bit word, a PIN a 32-bit word, an \<open>InfoHash\<close> 160 bits;
  the port read from the configuration is an \<open>int\<close> clipped to the range of a 64-bit \<open>long\<close>; the log buffer
  has 8192 bytes; members of a packet are assumed shorter than 4 GiB (2 to the power of 32) bytes, the limit of msgpack. Every
  loop is a structural or measured recursion; no fuel is used. The blocking paste makes at most 32 steps and
  \<open>stop\<close> at most 22 besides spurious wake-ups.

  \<^bold>\<open>Not modelled.\<close> The build files; the Catch framework of the unit tests; the option classes of curlpp
  behind the typedefs of \<open>Options.hpp\<close>, which are not in the repository. Running out of memory, and
  exceptions thrown by a library where its documentation gives none. \<open>codeDist_\<close> and \<open>rand_\<close> of \<open>Node\<close> are never used.
\<close>

section \<open>Pasting and getting\<close>

text \<open>
  AES paste and get: whatever was pasted with \<open>--aes-encrypt\<close> is what a later process gets for the
  URI that was printed, byte for byte, whichever of the two transports took it and whatever the
  uninitialised variables of the two processes hold.
\<close>

lemma aes_paste_get:
  assumes ok: "transport_ok L" "msgpack_ok (lib_msgpack L)" "aes_lib_ok (lib_aes L)"
    and ct: "\<And>tr v. length (aesEncrypt (lib_aes L) tr data (pin_text v)) < 2 ^ 32 \<and>
               \<not> isGPGencrypted (lib_gpgme L) (aesEncrypt (lib_aes L) tr data (pin_text v))"
    and free: "transport_free L (bin_http b) w (pin_text (process_pin (lib_rng L) w))"
    and paste: "bin_paste L J b data (Some (AES_Params ap)) w = (Inr uri, w')" "uri \<noteq> []"
    and later: "trace w2 = trace w' @ es" "list_all (spares L (bin_http b) (pin_text (process_pin (lib_rng L) w))) es"
      "bin_http b' = bin_http b"
  shows "fst (bin_get L J' b' uri False w2) = Inr (True, string_of_bytes data)"
  by (rule aes_get_pasted [OF ok ct free paste later])

lemma aes_paste_get_witness:
  "\<exists>uri w'. bin_paste (toy_libs toy_http) junk_a toy_bin [104, 105] (Some (AES_Params aes_parameters_default)) init_world
       = (Inr uri, w') \<and> length uri = 23 \<and>
     fst (bin_get (toy_libs toy_http) junk_a toy_bin uri False w') = Inr (True, ''hi'')"
proof -
  let ?L = "toy_libs toy_http"
  obtain p pwd w1 where prep: "prepare_data ?L junk_a toy_bin [104, 105] (Some (AES_Params aes_parameters_default))
      (after_pin (lib_rng ?L) init_world) = (Inr (p, pwd), w1)" and pwd: "length pwd = 8"
    by (simp add: run_prepare_aes Let_def)
  obtain w' where paste: "bin_paste ?L junk_a toy_bin [104, 105] (Some (AES_Params aes_parameters_default)) init_world
      = (Inr (DPASTE_URI_PREFIX @ pin_text (process_pin (lib_rng ?L) init_world) @ pwd), w')"
    using bin_paste_succeeds [OF prep toy_bin_send(1)] by blast
  have ct: "length (aesEncrypt (lib_aes ?L) tr [104, 105] (pin_text v)) < 2 ^ 32 \<and>
      \<not> isGPGencrypted (lib_gpgme ?L) (aesEncrypt (lib_aes ?L) tr [104, 105] (pin_text v))" for tr v
    using toy_ciphertext [of "[104, 105]" tr v] by simp
  have h: "string_of_bytes [104, 105] = ''hi''"
    by (simp add: string_of_bytes_def char_of_byte_def char_of_def bit_0)
  have a: "aes_lib_ok (lib_aes ?L)" by (simp add: toy_aes_ok)
  have "fst (bin_get ?L junk_a toy_bin (DPASTE_URI_PREFIX @ pin_text (process_pin (lib_rng ?L) init_world) @ pwd) False w')
      = Inr (True, string_of_bytes [104, 105])"
    by (rule aes_paste_get [where es = "[]", OF toy_transport_ok(1) toy_msgpack_ok a ct toy_free paste]) (simp_all add: DPASTE_URI_PREFIX_def)
  with paste pwd h show ?thesis by (simp add: DPASTE_URI_PREFIX_def)
qed

text \<open>
  Plain paste and get: the standard input, cut to \<open>MAX_VALUE_SIZE\<close> bytes without notice, is what
  a later process gets for the printed URI, provided the uninitialised \<open>scheme\<close> does not happen to be
  the value of AES and the data is not itself a PGP message. With or without \<open>--no-decrypt\<close>.
\<close>

lemma plain_paste_get:
  assumes ok: "transport_ok L" "msgpack_ok (lib_msgpack L)" "\<And>tr. gm_create (lib_gpgme L) tr"
    and junk: "junk_scheme J \<noteq> scheme_value AES"
    and size: "MAX_VALUE_SIZE L < 2 ^ 32"
    and data: "\<not> isGPGencrypted (lib_gpgme L) (bytes_of_string (take (MAX_VALUE_SIZE L) input))"
    and free: "transport_free L (bin_http b) w (pin_text (process_pin (lib_rng L) w))"
    and paste: "bin_paste_stream L J b input None w = (Inr uri, w')" "uri \<noteq> []"
    and later: "trace w2 = trace w' @ es" "list_all (spares L (bin_http b) (pin_text (process_pin (lib_rng L) w))) es"
      "bin_http b' = bin_http b"
  shows "fst (bin_get L J' b' uri nd w2) = Inr (True, take (MAX_VALUE_SIZE L) input)"
proof -
  let ?d = "data_from_stream L input"
  have "length ?d < 2 ^ 32" using size by (simp add: data_from_stream_def)
  moreover have "\<not> isGPGencrypted (lib_gpgme L) ?d" using data by (simp add: data_from_stream_def)
  ultimately have "fst (bin_get L J' b' uri nd w2) = Inr (True, string_of_bytes ?d)"
    by (rule plain_get_pasted [OF ok junk _ _ free paste(1) [unfolded bin_paste_stream_def] paste(2) later])
  then show ?thesis by (simp add: data_from_stream_def)
qed

lemma plain_paste_get_witness:
  "\<exists>uri w'. bin_paste_stream (toy_libs toy_http_down) junk_a toy_bin ''hello'' None init_world = (Inr uri, w') \<and>
     length uri = 15 \<and>
     fst (bin_get (toy_libs toy_http_down) junk_a toy_bin uri True w') = Inr (True, ''hello'')"
proof -
  let ?L = "toy_libs toy_http_down"
  have c: "gm_create (lib_gpgme ?L) tr" for tr by simp
  have j: "junk_scheme junk_a \<noteq> scheme_value AES" by (simp add: junk_a_def)
  have m: "MAX_VALUE_SIZE ?L < 2 ^ 32" by simp
  have g: "\<not> isGPGencrypted (lib_gpgme ?L) (bytes_of_string (take (MAX_VALUE_SIZE ?L) ''hello''))"
    by (simp add: isGPGencrypted_def bytes_of_string_def byte_of_char_def PGP_MARK_def)
  have "\<exists>w'. bin_paste ?L junk_a toy_bin (data_from_stream ?L ''hello'') None init_world
      = (Inr (DPASTE_URI_PREFIX @ pin_text (process_pin (lib_rng ?L) init_world) @ []), w')"
    by (rule bin_paste_succeeds [OF run_prepare_none toy_bin_send(2)]) (simp_all add: junk_a_def)
  then obtain w' where paste: "bin_paste_stream ?L junk_a toy_bin ''hello'' None init_world
      = (Inr (DPASTE_URI_PREFIX @ pin_text (process_pin (lib_rng ?L) init_world)), w')"
    by (auto simp: bin_paste_stream_def)
  have "fst (bin_get ?L junk_a toy_bin (DPASTE_URI_PREFIX @ pin_text (process_pin (lib_rng ?L) init_world)) True w')
      = Inr (True, take (MAX_VALUE_SIZE ?L) ''hello'')"
    by (rule plain_paste_get [where es = "[]", OF toy_transport_ok(2) toy_msgpack_ok c j m g toy_free paste])
      (simp_all add: DPASTE_URI_PREFIX_def)
  with paste show ?thesis by (simp add: DPASTE_URI_PREFIX_def)
qed

text \<open>
  GPG paste and get: data encrypted for recipients, one of whose secret keys the getting process
  owns, comes back followed by one NUL byte, the one \<open>GPG::encrypt\<close> appends to the plain text: the
  program does not return what was pasted.
\<close>

lemma gpg_paste_get:
  assumes ok: "transport_ok L" "msgpack_ok (lib_msgpack L)" "\<And>tr. gm_create (lib_gpgme L) tr"
      "gpgme_ok (lib_gpgme L, own)" "adds_keys (lib_gpgme L)"
    and own: "recipient_owned (lib_gpgme L, own) (Some (GPG_Params gp))"
    and ct: "\<And>g v ct v'. gpg_processPlainText (lib_gpgme L) g data (Some (GPG_Params gp)) v = (Inr ct, v') \<Longrightarrow>
               length ct < 2 ^ 32"
    and free: "transport_free L (bin_http b) w (pin_text (process_pin (lib_rng L) w))"
    and paste: "bin_paste L J b data (Some (GPG_Params gp)) w = (Inr uri, w')" "uri \<noteq> []"
    and later: "trace w2 = trace w' @ es" "list_all (spares L (bin_http b) (pin_text (process_pin (lib_rng L) w))) es"
      "bin_http b' = bin_http b"
  shows "fst (bin_get L J' b' uri False w2) = Inr (True, string_of_bytes (data @ [0]))"
  by (rule gpg_get_pasted [OF ok own ct free paste later])

lemma gpg_paste_get_witness:
  "\<exists>uri w'. bin_paste (toy_libs toy_http) junk_a toy_bin [104, 105]
        (Some (GPG_Params (gpg_parameters_full [''me''] False True))) init_world = (Inr uri, w') \<and>
     fst (bin_get (toy_libs toy_http) junk_a toy_bin uri False w') = Inr (True, string_of_bytes [104, 105, 0])"
proof -
  let ?L = "toy_libs toy_http" and ?gp = "gpg_parameters_full [''me''] False True"
  obtain w1 where prep: "prepare_data ?L junk_a toy_bin [104, 105] (Some (GPG_Params ?gp)) (after_pin (lib_rng ?L) init_world) =
      (Inr (\<lparr>pk_data = PGP_MARK @ [104, 105] @ [0, 0], pk_signature = []\<rparr>, []), w1)"
    using toy_prepare_gpg by blast
  obtain w' where paste: "bin_paste ?L junk_a toy_bin [104, 105] (Some (GPG_Params ?gp)) init_world
      = (Inr (DPASTE_URI_PREFIX @ pin_text (process_pin (lib_rng ?L) init_world) @ []), w')"
    using bin_paste_succeeds [OF prep toy_bin_send(1)] by blast
  have c: "gm_create (lib_gpgme ?L) tr" for tr by simp
  have g: "gpgme_ok (lib_gpgme ?L, toy_own)" "adds_keys (lib_gpgme ?L)"
    by (simp_all add: toy_gpgme_ok toy_adds_keys)
  have o: "recipient_owned (lib_gpgme ?L, toy_own) (Some (GPG_Params ?gp))"
    by (simp add: recipient_owned_def gpg_parameters_full_def toy_own_def toy_key_def)
  have l: "length ct < 2 ^ 32"
    if "gpg_processPlainText (lib_gpgme ?L) g [104, 105] (Some (GPG_Params ?gp)) v = (Inr ct, v')" for g v ct v'
    using toy_gpg_length [of g "[104, 105]" ?gp v ct v'] that by simp
  have "fst (bin_get ?L junk_a toy_bin (DPASTE_URI_PREFIX @ pin_text (process_pin (lib_rng ?L) init_world) @ []) False w')
      = Inr (True, string_of_bytes ([104, 105] @ [0]))"
    by (rule gpg_paste_get [where es = "[]", OF toy_transport_ok(1) toy_msgpack_ok c g o l toy_free paste])
      (simp_all add: DPASTE_URI_PREFIX_def)
  with paste show ?thesis by simp
qed

text \<open>
  C8. The password of an AES paste is its location code: \<open>random_pin\<close> gives the second PIN of a process
  equal to the first, so the URI is the prefix and the same eight digits twice, for every generator
  and distribution. Whoever can see the location code under which the packet is stored has the key.
\<close>

theorem aes_uri_repeats_code:
  assumes "never_initialized w" and "bin_paste L J b data (Some (AES_Params ap)) w = (Inr uri, w')"
    and "uri \<noteq> []"
  shows "\<exists>code. length code = 8 \<and> fst (random_pin (lib_rng L) w) = Inr code \<and> uri = ''dpaste:'' @ code @ code"
proof -
  let ?R = "lib_rng L"
  have "process_pin ?R (after_pin ?R w) = process_pin ?R w"
    by (rule process_pin_after_pin [OF assms(1)]) simp
  then show ?thesis
    using bin_paste_Inr [OF assms(2,3)]
    by (auto simp: run_prepare_aes Let_def run_random_pin DPASTE_URI_PREFIX_def)
qed

theorem aes_uri_repeats_code_witness:
  "\<exists>code. fst (bin_paste (toy_libs toy_http) junk_a toy_bin [104, 105] (Some (AES_Params aes_parameters_default)) init_world)
       = Inr (''dpaste:'' @ code @ code) \<and> length code = 8"
proof -
  let ?L = "toy_libs toy_http"
  obtain p pwd w1 where prep: "prepare_data ?L junk_a toy_bin [104, 105] (Some (AES_Params aes_parameters_default))
      (after_pin (lib_rng ?L) init_world) = (Inr (p, pwd), w1)"
    by (simp add: run_prepare_aes Let_def)
  obtain w' where paste: "bin_paste ?L junk_a toy_bin [104, 105] (Some (AES_Params aes_parameters_default)) init_world
      = (Inr (DPASTE_URI_PREFIX @ pin_text (process_pin (lib_rng ?L) init_world) @ pwd), w')"
    using bin_paste_succeeds [OF prep toy_bin_send(1)] by blast
  from aes_uri_repeats_code [OF never_initialized_init paste] paste show ?thesis
    by (auto simp: DPASTE_URI_PREFIX_def)
qed

text \<open>
  C21. When the uninitialised \<open>scheme\<close> of a plain paste happens to be the value of AES, the data is
  encrypted with the empty password while the URI has no password part, and a get of that URI
  returns the cipher text as if it were the data.
\<close>

theorem uninitialised_scheme_loses_data:
  assumes ok: "transport_ok L" "msgpack_ok (lib_msgpack L)" "aes_lib_ok (lib_aes L)"
    and junk: "junk_scheme J = scheme_value AES"
    and ct: "\<And>tr. length (aesEncrypt (lib_aes L) tr data []) < 2 ^ 32 \<and>
               \<not> isGPGencrypted (lib_gpgme L) (aesEncrypt (lib_aes L) tr data [])"
    and free: "transport_free L (bin_http b) w (pin_text (process_pin (lib_rng L) w))"
    and paste: "bin_paste L J b data None w = (Inr uri, w')" "uri \<noteq> []"
    and later: "trace w2 = trace w' @ es" "list_all (spares L (bin_http b) (pin_text (process_pin (lib_rng L) w))) es"
      "bin_http b' = bin_http b"
  shows "\<exists>tr. fst (bin_get L J' b' uri nd w2) = Inr (True, string_of_bytes (aesEncrypt (lib_aes L) tr data []))"
proof -
  obtain p pwd w1 w3 where
    prep: "prepare_data L J b data None (after_pin (lib_rng L) w) = (Inr (p, pwd), w1)"
    and get: "bin_get L J' b' uri nd w2 =
       catchP (bindP (open_packet L J' (serialize (lib_msgpack L) p)
                   (pin_text (process_pin (lib_rng L) w) @ pwd) pwd nd)
                 (\<lambda>data. returnP (True, string_of_bytes data)))
         (get_handler L (serialize (lib_msgpack L) p)) w3"
    using paste_then_get [OF ok(1,2) free paste later] by blast
  obtain tr where p: "p = \<lparr>pk_data = aesEncrypt (lib_aes L) tr data [], pk_signature = []\<rparr>" and pwd: "pwd = []"
    using prep junk ok(3) by (auto simp: run_prepare_none_aes Let_def aes_lib_ok_def)
  have d: "deserialize (lib_msgpack L) (serialize (lib_msgpack L) p) = Inr p"
    using ct [of tr] by (intro deserialize_serialize ok(2)) (simp add: p packet_fits_def)
  have "open_packet L J' (serialize (lib_msgpack L) p) (pin_text (process_pin (lib_rng L) w) @ pwd) pwd nd w3 =
      (Inr (pk_data p), w3)"
    using open_packet_plain [OF d] ct [of tr] by (simp add: p pwd)
  then have "fst (bin_get L J' b' uri nd w2) = Inr (True, string_of_bytes (aesEncrypt (lib_aes L) tr data []))"
    by (simp add: get run_get_try p)
  then show ?thesis ..
qed

theorem uninitialised_scheme_loses_data_witness:
  "\<exists>uri w' tr. bin_paste (toy_libs toy_http) (junk_a\<lparr>junk_scheme := 2\<rparr>) toy_bin [104, 105] None init_world = (Inr uri, w') \<and>
     fst (bin_get (toy_libs toy_http) junk_a toy_bin uri False w') =
       Inr (True, string_of_bytes (aesEncrypt toy_aes tr [104, 105] [])) \<and>
     aesEncrypt toy_aes tr [104, 105] [] \<noteq> [104, 105]"
proof -
  let ?L = "toy_libs toy_http" and ?J = "junk_a\<lparr>junk_scheme := 2\<rparr>"
  have j: "junk_scheme ?J = scheme_value AES" by simp
  obtain p w1 where prep: "prepare_data ?L ?J toy_bin [104, 105] None (after_pin (lib_rng ?L) init_world) = (Inr (p, []), w1)"
    by (simp add: run_prepare_none_aes Let_def)
  obtain w' where paste: "bin_paste ?L ?J toy_bin [104, 105] None init_world
      = (Inr (DPASTE_URI_PREFIX @ pin_text (process_pin (lib_rng ?L) init_world) @ []), w')"
    using bin_paste_succeeds [OF prep toy_bin_send(1)] by blast
  have ct: "length (aesEncrypt (lib_aes ?L) tr [104, 105] []) < 2 ^ 32 \<and>
      \<not> isGPGencrypted (lib_gpgme ?L) (aesEncrypt (lib_aes ?L) tr [104, 105] [])" for tr
    by (simp add: toy_aes_def isGPGencrypted_def PGP_MARK_def)
  have a: "aes_lib_ok (lib_aes ?L)" by (simp add: toy_aes_ok)
  have "\<exists>tr. fst (bin_get ?L junk_a toy_bin (DPASTE_URI_PREFIX @ pin_text (process_pin (lib_rng ?L) init_world) @ []) False w')
      = Inr (True, string_of_bytes (aesEncrypt (lib_aes ?L) tr [104, 105] []))"
    by (rule uninitialised_scheme_loses_data [where es = "[]", OF toy_transport_ok(1) toy_msgpack_ok a j ct toy_free paste])
      (simp_all add: DPASTE_URI_PREFIX_def)
  moreover have "aesEncrypt toy_aes tr [104, 105] [] \<noteq> [104, 105]" for tr
    by (simp add: toy_aes_def)
  ultimately show ?thesis using paste by auto
qed

section \<open>The paths of get and paste\<close>

text \<open>
  C10. What \<open>get\<close> does, on every path: a code shorter than eight characters is an \<open>out_of_range\<close> that
  is not caught, before anything is requested; an exception of the fetch escapes; a code under
  which nothing is found counts as success with an empty text; a GPG or a decryption error is
  reported and makes the get fail; a \<open>type_error\<close> (a blob of an older version) gives the fetched bytes
  as they are; every other exception escapes.
\<close>

theorem get_outcomes:
  "\<exists>code. code_from_dpaste_uri uri = Some code \<and>
     (if length code < 8 then bin_get L J b uri nd w = (Inl Out_Of_Range, w)
      else case fetch_blob L (bin_http b) (take 8 code) w of
          (Inl e, w1) \<Rightarrow> bin_get L J b uri nd w = (Inl e, w1)
        | (Inr data, w1) \<Rightarrow>
            if data = [] then bin_get L J b uri nd w = (Inr (True, []), w1)
            else fst (bin_get L J b uri nd w) =
              (case fst (open_packet L J data code (drop 8 code) nd w1) of
                 Inr d \<Rightarrow> Inr (True, string_of_bytes d)
               | Inl e \<Rightarrow>
                   (case e of
                      Gpg_Exception err msg \<Rightarrow> Inr (False, [])
                    | Decrypt_Error msg \<Rightarrow> Inr (False, [])
                    | Msgpack_Type_Error \<Rightarrow> Inr (True, string_of_bytes data)
                    | _ \<Rightarrow> Inl e)))"
proof -
  obtain code where code: "code_from_dpaste_uri uri = Some code"
    using code_from_uri_total by blast
  obtain r w1 where f: "fetch_blob L (bin_http b) (take 8 code) w = (r, w1)"
    by (cases "fetch_blob L (bin_http b) (take 8 code) w")
  have short: "length code < 8 \<Longrightarrow> bin_get L J b uri nd w = (Inl Out_Of_Range, w)"
    by (simp add: bin_get_def code run_bind_Inr run_bind_Inl run_lift or_out_of_range_def substr_def
        substr_from_def CODE_PASS_OFFSET_def)
  have long: "bin_get L J b uri nd w = bindP (fetch_blob L (bin_http b) (take 8 code)) (\<lambda>data.
      if data \<noteq> [] then
        catchP (bindP (open_packet L J data code (drop 8 code) nd) (\<lambda>data. returnP (True, string_of_bytes data)))
          (get_handler L data)
      else returnP (True, string_of_bytes data)) w" if "\<not> length code < 8"
    using that by (simp add: bin_get_def code run_bind_Inr run_lift or_out_of_range_def substr_def
        substr_from_def CODE_PASS_OFFSET_def)
  show ?thesis
  proof (cases "length code < 8")
    case False
    then show ?thesis
      using long f run_get_try
      by (cases r) (auto simp: code run_bind_Inl run_bind_Inr run_return)
  qed (simp add: code short)
qed

text \<open>
  C14. The order of the transports. A send is one HTTP post of the packet; the DHT is asked to store it
  only when that post was not answered with code 200, or was not made since a setting of it was
  wrong. A fetch is one HTTP request; the DHT is asked only when that gave nothing. Nothing else is
  sent, and both know the packet under the same code. A setting that fails at run time ends a send
  before anything is done.
\<close>

theorem transport_order:
  "\<exists>out ok out'.
     send_blob L J hc code d w =
       (let url = http_url (lib_dht L) hc code; made = put_setup L hc code d w;
            served = (made = Curl_Ok \<and> (\<exists>b. out = Http_Response 200 b)) in
        if made = Curl_Runtime_Error then (Inl Curlpp_Runtime_Error, w)
        else
        (Inr (served \<or> blocking_result (race_done (junk_race J)) (race_early (junk_race J)) ok),
         fold record_event
           ((if made = Curl_Ok then [Http_Perform (put_request url (hc_port hc) (string_of_bytes d)) out] else []) @
            (if served then []
             else Dht_Put (infohash_get (lib_dht L) code) (paste_value d) ok #
                  (if ok then [] else [Stderr (OPERATION_FAILURE_MSG @ '' (put)'' @ [CHR 0x0A])]))) w)) \<and>
     snd (fetch_blob L hc code w) =
       fold record_event
         ((if get_setup L hc code w = Curl_Ok
           then [Http_Perform (get_request (http_url (lib_dht L) hc code) (hc_port hc)) out'] else []) @
          (if fst (http_get (lib_dht L) (lib_http L) hc code w) = Inr []
           then [Dht_Get (infohash_get (lib_dht L) code) DPASTE_USER_TYPE] else [])) w"
  by (rule transport_events)

text \<open>
  C13. What \<open>paste\<close> does, on every path: an exception of the preparation escapes, and then nothing was
  sent, whatever else happened; otherwise the packet is sent once under the PIN drawn first. When that
  returns, so does \<open>paste\<close>, and the result is empty exactly when sending failed, else the URI of the
  PIN and the password; the only exception of it is the \<open>RuntimeError\<close> of a setting, before which
  again nothing was sent.
\<close>

theorem paste_outcomes:
  "case prepare_data L J b data params (after_pin (lib_rng L) w) of
     (Inl e, w1) \<Rightarrow> bin_paste L J b data params w = (Inl e, w1) \<and>
       (\<exists>tr. list_all is_message tr \<and> trace w1 = trace w @ tr)
   | (Inr (p, pwd), w1) \<Rightarrow>
       (let w' = after_msg ''Pasting data...'' [] w1 in \<exists>code. fst (random_pin (lib_rng L) w) = Inr code \<and> length code = 8 \<and>
         (case send_blob L J (bin_http b) code (serialize (lib_msgpack L) p) w' of
            (Inr ok, w2) \<Rightarrow> bin_paste L J b data params w = (Inr (if ok then ''dpaste:'' @ code @ pwd else []), w2)
          | (Inl e, w2) \<Rightarrow> bin_paste L J b data params w = (Inl e, w2) \<and> e = Curlpp_Runtime_Error \<and> w2 = w' \<and>
              (\<exists>tr. list_all is_message tr \<and> trace w2 = trace w @ tr)))"
proof -
  let ?code = "pin_text (process_pin (lib_rng L) w)"
  obtain r w1 where prep: "prepare_data L J b data params (after_pin (lib_rng L) w) = (r, w1)"
    by (cases "prepare_data L J b data params (after_pin (lib_rng L) w)")
  show ?thesis
  proof (cases r)
    case (Inl e)
    then show ?thesis
      using prep prepare_data_frame [OF prep]
      by (simp add: bin_paste_def run_bind_Inr run_bind_Inl run_random_pin)
  next
    case (Inr x)
    obtain p pwd where x: "x = (p, pwd)" by (cases x)
    let ?w1 = "after_msg ''Pasting data...'' [] w1" and ?d = "serialize (lib_msgpack L) p"
    obtain es where "list_all is_message es" "trace w1 = trace w @ es"
      using prepare_data_frame [OF prep] by auto
    moreover obtain fs where "list_all is_message fs" "trace ?w1 = trace w1 @ fs"
      using only_messagesD [OF messages_msg run_msg] by blast
    ultimately have tr: "\<exists>tr. list_all is_message tr \<and> trace ?w1 = trace w @ tr"
      by (intro exI [of _ "es @ fs"]) simp
    have paste: "bin_paste L J b data params w = (case send_blob L J (bin_http b) ?code ?d ?w1 of
        (Inr ok, w2) \<Rightarrow> (Inr (if ok then ''dpaste:'' @ ?code @ pwd else []), w2) | (Inl e, w2) \<Rightarrow> (Inl e, w2))"
      using prep Inr x
      by (auto simp: bin_paste_def run_bind_Inr run_bind_Inl run_random_pin run_then_Inr run_msg
          run_return Let_def DPASTE_URI_PREFIX_def split: prod.split sum.split)
    show ?thesis
      by (cases rule: send_blob_cases [of L J "bin_http b" ?code ?d ?w1])
        (use tr in \<open>simp_all add: prep Inr x run_random_pin Let_def paste\<close>)
  qed
qed

text \<open>
  C27. \<open>--gpg-encrypt\<close> without a recipient encrypts nothing: the packet carries the data in the clear
  (signed at most), also with \<open>--self-recipient\<close>, since \<open>self\<close> is only added to a list of
  recipients that is not empty.
\<close>

theorem gpg_without_recipients_plain:
  assumes "prepare_data L J b data (Some (GPG_Params (gpg_parameters_full [] self_recipient sign))) w
     = (Inr (p, pwd), w')"
  shows "pk_data p = data \<and> pwd = [] \<and>
     (pk_signature p \<noteq> [] \<longrightarrow> sign \<and> map_at (bin_conf b) ''pgp_key_id'' \<noteq> Inr [])"
  using assms
  by (auto simp: prepare_data_def read_params_def bindP_Inr_iff thenP_def cipher_get_by_scheme_def
      gpg_parameters_key_def gpg_parameters_full_def gpg_processPlainText_def liftP_def returnP_def
      split: if_splits)

theorem gpg_without_recipients_plain_witness:
  "\<exists>p w'. prepare_data (toy_libs toy_http) junk_a toy_bin [115, 101, 99]
       (Some (GPG_Params (gpg_parameters_full [] True True))) init_world = (Inr (p, []), w') \<and>
     pk_data p = [115, 101, 99] \<and> pk_signature p = [83, 115, 101, 99]"
proof -
  let ?p = "\<lparr>pk_data = [115, 101, 99], pk_signature = [83, 115, 101, 99]\<rparr>"
  have e: "prepare_data (toy_libs toy_http) junk_a toy_bin [115, 101, 99]
       (Some (GPG_Params (gpg_parameters_full [] True True))) init_world =
      (Inr (?p, []), after_msg ''Signing data...'' [] init_world)"
    by (simp add: prepare_data_def read_params_def proc_defs map_at_def cipher_get_by_scheme_def
      gpg_parameters_key_def gpg_parameters_full_def gpg_new_def getKey_def gpg_processPlainText_def
      sign_with_def gpg_sign_def run_msg Let_def)
  show ?thesis using gpg_without_recipients_plain [OF e] e by auto
qed

text \<open>
  C26. The signature of a packet without cipher decides nothing about the data: a verification that
  fails as a call is thrown (and makes the get fail), but a signature that was checked and found
  bad, or for other data, leaves the result as it is; \<open>no_decrypt\<close> does not turn the check off.
\<close>

theorem signature_never_selects_data:
  assumes "deserialize (lib_msgpack L) buf = Inr p" and "\<And>tr. gm_create (lib_gpgme L) tr"
    and "\<not> isGPGencrypted (lib_gpgme L) (pk_data p)" and "length code \<noteq> 16"
  shows "fst (open_packet L J buf code pwd nd w) =
     (case gm_verify_opaque (lib_gpgme L) (pk_signature p) (pk_data p) of (err, sigs) \<Rightarrow>
        if pk_signature p \<noteq> [] \<and> err_raised err then Inl (Gpg_Exception err []) else Inr (pk_data p))"
  by (rule open_packet_signed [OF assms])

theorem signature_never_selects_data_witness:
  "fst (open_packet (toy_libs toy_http) junk_a
      (serialize ref_msgpack \<lparr>pk_data = [1, 2], pk_signature = [83, 9]\<rparr>) ''B79F2F91'' [] False init_world) = Inr [1, 2]"
proof -
  let ?p = "\<lparr>pk_data = [1, 2], pk_signature = [83, 9]\<rparr>"
  have d: "deserialize (lib_msgpack (toy_libs toy_http)) (serialize ref_msgpack ?p) = Inr ?p"
    using deserialize_serialize [OF ref_msgpack_ok, of ?p] by (simp add: packet_fits_def)
  have c: "gm_create (lib_gpgme (toy_libs toy_http)) tr" for tr by simp
  show ?thesis
    using signature_never_selects_data [OF d c, of "''B79F2F91''" junk_a "[]" False init_world]
    by (simp add: isGPGencrypted_def PGP_MARK_def) (simp add: toy_gpgme_def)
qed

text \<open>
  A get with a code of sixteen characters of an unsigned packet that is not a PGP message: the
  last eight characters are the password of the AES decryption; a failure is reported and makes
  the get fail without output, and with \<open>--no-decrypt\<close> the cipher text is returned, for any password.
\<close>

lemma aes_get_outcomes:
  assumes "code_from_dpaste_uri uri = Some (lcode @ pwd)" and "length lcode = 8" and "length pwd = 8"
    and "fetch_blob L (bin_http b) lcode w = (Inr buf, w1)" and "buf \<noteq> []"
    and "deserialize (lib_msgpack L) buf = Inr p" and "pk_signature p = []"
    and "\<not> isGPGencrypted (lib_gpgme L) (pk_data p)"
  shows "fst (bin_get L J b uri nd w) =
     (if nd then Inr (True, string_of_bytes (pk_data p))
      else case aesDecrypt (lib_aes L) (pk_data p) pwd of
          Inl msg \<Rightarrow> Inr (False, [])
        | Inr d \<Rightarrow> Inr (True, string_of_bytes d))"
proof -
  have "bin_get L J b uri nd w =
     catchP (bindP (open_packet L J buf (lcode @ pwd) pwd nd) (\<lambda>data. returnP (True, string_of_bytes data)))
       (get_handler L buf) w1"
    using run_bin_get [OF assms(1), of L b w buf w1 J nd] assms(2-5) by simp
  moreover have "length (lcode @ pwd) = 16" using assms(2,3) by simp
  note open_packet_aes [OF assms(6-8) this, of J pwd nd w1]
  ultimately show ?thesis
    by (simp add: run_get_try run_aes_decrypt aes_parameters_def split: sum.split)
qed

lemma aes_get_outcomes_witness:
  "fst (bin_get (toy_libs (toy_http\<lparr>http_perform := \<lambda>tr req. Http_Response 200
          (toy_body [string_of_bytes (serialize ref_msgpack \<lparr>pk_data = [7, 7], pk_signature = []\<rparr>)])\<rparr>))
        junk_a toy_bin ''dpaste:B79F2F91C811D5DC'' False init_world) = Inr (False, [])"
proof -
  let ?p = "\<lparr>pk_data = [7, 7], pk_signature = []\<rparr>"
  let ?H = "toy_http\<lparr>http_perform := \<lambda>tr req. Http_Response 200 (toy_body [string_of_bytes (serialize ref_msgpack ?p)])\<rparr>"
  let ?L = "toy_libs ?H"
  have u: "code_from_dpaste_uri ''dpaste:B79F2F91C811D5DC'' = Some (''B79F2F91'' @ ''C811D5DC'')"
    using code_from_pasted [of "''B79F2F91C811D5DC''"] by (simp add: DPASTE_URI_PREFIX_def)
  have ne: "serialize ref_msgpack ?p \<noteq> []" by (rule serialize_not_Nil [OF ref_msgpack_ok])
  have j: "json_ok ?H toy_body" using toy_json_ok(1) by (simp add: json_ok_def)
  have set: "request_setup ?H tr (get_request url 6509) = Curl_Ok" for tr url
    by (simp add: request_setup_def set_code_def get_request_def toy_http_def)
  obtain w1 where f: "fetch_blob ?L (bin_http toy_bin) ''B79F2F91'' init_world = (Inr (serialize ref_msgpack ?p), w1)"
    using ne decode_body_ok [OF j, of "[string_of_bytes (serialize ref_msgpack ?p)]"] set
    by (simp add: fetch_blob_def bindP_def run_http_get Let_def returnP_def)
  have d: "deserialize (lib_msgpack ?L) (serialize ref_msgpack ?p) = Inr ?p"
    using deserialize_serialize [OF ref_msgpack_ok, of ?p] by (simp add: packet_fits_def)
  have g: "\<not> isGPGencrypted (lib_gpgme ?L) (pk_data ?p)"
    by (simp add: isGPGencrypted_def PGP_MARK_def)
  have "fst (bin_get ?L junk_a toy_bin ''dpaste:B79F2F91C811D5DC'' False init_world) =
     (if False then Inr (True, string_of_bytes (pk_data ?p))
      else case aesDecrypt (lib_aes ?L) (pk_data ?p) ''C811D5DC'' of
          Inl msg \<Rightarrow> Inr (False, [])
        | Inr d \<Rightarrow> Inr (True, string_of_bytes d))"
    by (rule aes_get_outcomes [OF u _ _ f ne d _ g]) simp_all
  then show ?thesis by (simp add: toy_aes_def)
qed

section \<open>The program\<close>

text \<open>
  C1. The program, end to end: when \<open>dpaste --aes-encrypt\<close> (with whatever other flags, but no \<open>-g\<close>) exits
  with 0, the last thing it printed is a URI, and \<open>dpaste -g\<close> with that URI, run later with the same
  configuration in any process that starts, exits with 0 and prints the standard input of the
  first, cut to \<open>MAX_VALUE_SIZE\<close> bytes. Whatever happened on the network in between (\<open>hs\<close>), as long as
  it stored nothing under the PIN of the paste.
\<close>

theorem main_aes_roundtrip:
  assumes ok: "transport_ok L" "msgpack_ok (lib_msgpack L)" "aes_lib_ok (lib_aes L)"
    and ct: "\<And>tr v. let ct = aesEncrypt (lib_aes L) tr (data_from_stream L input) (pin_text v)
               in length ct < 2 ^ 32 \<and> \<not> isGPGencrypted (lib_gpgme L) ct"
    and opts: "list_all known_opt (getopt_results getopt argv)"
      "args_of (CHR ''h'') (getopt_results getopt argv) = []" "args_of (CHR ''v'') (getopt_results getopt argv) = []"
      "args_of (CHR ''g'') (getopt_results getopt argv) = []" "args_of (CHR ''3'') (getopt_results getopt argv) \<noteq> []"
    and start: "bin_new L J w0 = (Inr b, wa)" "cipher_init (lib_gpgme L) wa = (Inr (), w)"
    and free: "transport_free L (bin_http b) w (pin_text (process_pin (lib_rng L) w))"
    and run1: "main_prog L J C getopt argv input w0 = (Inr 0, w1)"
    and start': "trace w2 = trace w1 @ hs" "list_all (spares L (bin_http b) (pin_text (process_pin (lib_rng L) w))) hs"
      "bin_new L J' w2 = (Inr b', wb)" "cipher_init (lib_gpgme L) wb = (Inr (), w3)"
      "bin_http b' = bin_http b"
  shows "\<exists>uri. last (trace w1) = Stdout (uri @ [newline]) \<and>
     (\<forall>getopt' argv' input'. getopt_results getopt' argv' = [(CHR ''g'', uri)] \<longrightarrow>
        fst (main_prog L J' C getopt' argv' input' w2) = Inr 0 \<and>
        last (trace (snd (main_prog L J' C getopt' argv' input' w2))) = Stdout (take (MAX_VALUE_SIZE L) input))"
proof -
  have paste: "paste_options (getopt_results getopt argv)" and st: "starts L J w0 b w" "starts L J' w2 b' w3"
    using opts(1-4) start start'(3,4) by (auto simp: paste_options_def starts_def)
  from main_aes_later [OF ok ct paste opts(5) st(1) free run1 start'(1,2) st(2) start'(5)] show ?thesis
    by (simp add: get_options_def)
qed

theorem main_aes_roundtrip_witness:
  "\<exists>w1 uri w2. main_prog (toy_libs toy_http) junk_a toy_build (flag_options ''s3'') [] ''hi'' init_world = (Inr 0, w1) \<and>
     main_prog (toy_libs toy_http) junk_a toy_build (get_option uri) [] [] (init_world\<lparr>trace := trace w1\<rparr>) = (Inr 0, w2) \<and>
     last (trace w2) = Stdout ''hi''"
proof -
  let ?L = "toy_libs toy_http"
  let ?g = "flag_options ''s3''"
  obtain b wa w where start: "bin_new ?L junk_a init_world = (Inr b, wa)"
    "cipher_init (lib_gpgme ?L) wa = (Inr (), w)" and b: "bin_http b = \<lparr>hc_host = ''127.0.0.1'', hc_port = 6509\<rparr>"
    using toy_start [of toy_http "[]"] by (auto simp: init_world_def)
  have opts: "list_all known_opt (getopt_results ?g [])"
    "args_of (CHR ''h'') (getopt_results ?g []) = []" "args_of (CHR ''v'') (getopt_results ?g []) = []"
    "args_of (CHR ''g'') (getopt_results ?g []) = []" "args_of (CHR ''3'') (getopt_results ?g []) \<noteq> []"
    by (simp_all add: known_opt_def args_of_def)
  obtain p pwd wp where prep: "prepare_data ?L junk_a b (data_from_stream ?L ''hi'') (Some (AES_Params (aes_parameters [])))
      (after_pin (lib_rng ?L) w) = (Inr (p, pwd), wp)"
    by (simp add: run_prepare_aes Let_def)
  obtain w' where "bin_paste ?L junk_a b (data_from_stream ?L ''hi'') (Some (AES_Params (aes_parameters []))) w
      = (Inr (DPASTE_URI_PREFIX @ pin_text (process_pin (lib_rng ?L) w) @ pwd), w')"
    using bin_paste_succeeds [OF prep toy_send] b by auto
  then obtain w1 where run1: "main_prog ?L junk_a toy_build ?g [] ''hi'' init_world = (Inr 0, w1)"
    using run_main_prog [OF opts(1-3) start, of toy_build "''hi''"] code_of_known [OF opts(1)] opts(4)
    by (simp add: main_paste_def bin_paste_stream_def params_of_known [OF opts(1)] chosen_params_def Let_def
        args_of_def run_bind_Inr run_then_Inr run_emit run_return DPASTE_URI_PREFIX_def)
  let ?w2 = "init_world\<lparr>trace := trace w1\<rparr>"
  obtain b' wb w3 where start': "bin_new ?L junk_a ?w2 = (Inr b', wb)"
    "cipher_init (lib_gpgme ?L) wb = (Inr (), w3)" and b': "bin_http b' = \<lparr>hc_host = ''127.0.0.1'', hc_port = 6509\<rparr>"
    using toy_start [of toy_http "trace w1"] by blast
  have ct: "let ct = aesEncrypt (lib_aes ?L) tr (data_from_stream ?L ''hi'') (pin_text v)
      in length ct < 2 ^ 32 \<and> \<not> isGPGencrypted (lib_gpgme ?L) ct" for tr v
    using toy_ciphertext [of "data_from_stream ?L ''hi''" tr v] by (simp add: Let_def data_from_stream_def)
  have free: "transport_free ?L (bin_http b) w code" for code
  proof -
    obtain es where "list_all no_store es" "trace w = trace init_world @ es"
      using start_trace [OF start] by blast
    then show ?thesis using transport_cong(1) toy_free by blast
  qed
  have a: "aes_lib_ok (lib_aes ?L)" by (simp add: toy_aes_ok)
  have t: "trace ?w2 = trace w1 @ []"
    "list_all (spares ?L (bin_http b) (pin_text (process_pin (lib_rng ?L) w))) []" by simp_all
  have h: "bin_http b' = bin_http b" using b b' by simp
  obtain uri where u: "fst (main_prog ?L junk_a toy_build (get_option uri) [] [] ?w2) = Inr 0"
    "last (trace (snd (main_prog ?L junk_a toy_build (get_option uri) [] [] ?w2))) = Stdout (take (MAX_VALUE_SIZE ?L) ''hi'')"
    using main_aes_roundtrip [OF toy_transport_ok(1) toy_msgpack_ok a ct opts start free run1 t start' h] toy_options(2)
    by blast
  obtain r v where m: "main_prog ?L junk_a toy_build (get_option uri) [] [] ?w2 = (r, v)"
    by (cases "main_prog ?L junk_a toy_build (get_option uri) [] [] ?w2")
  then have "r = Inr 0" "last (trace v) = Stdout ''hi''" using u by simp_all
  with run1 m show ?thesis by blast
qed

text \<open>
  Command lines that never reach the network: an unknown option exits with 1 and prints nothing,
  whatever stands before or behind it; otherwise \<open>-h\<close> prints the help and \<open>-v\<close> the version, in this
  order of precedence, and both exit with 0.
\<close>

lemma main_early_exits:
  "let opts = getopt_results getopt argv; known = takeWhile known_opt opts in
     (known \<noteq> opts \<longrightarrow> main_prog L J C getopt argv input w = (Inr 1, w)) \<and>
     (known = opts \<and> args_of (CHR ''h'') opts \<noteq> [] \<longrightarrow>
        main_prog L J C getopt argv input w = (Inr 0, record_event (Stdout (help_text C)) w)) \<and>
     (known = opts \<and> args_of (CHR ''h'') opts = [] \<and> args_of (CHR ''v'') opts \<noteq> [] \<longrightarrow>
        main_prog L J C getopt argv input w = (Inr 0, record_event (Stdout (VERSION C @ [newline])) w))"
  unfolding Let_def
  by (intro conjI impI) (auto simp: main_prog_def Let_def parsed_flags print_help_def run_return run_then_Inr run_emit
      simp del: takeWhile_eq_all_conv)

lemma main_early_exits_witness:
  "main_prog (toy_libs toy_http) junk_a toy_build (flag_options ''v?'') [] [] init_world = (Inr 1, init_world) \<and>
   main_prog (toy_libs toy_http) junk_a toy_build (flag_options ''v3'') [] [] init_world =
     (Inr 0, record_event (Stdout (''0.4.0'' @ [newline])) init_world)"
  using main_early_exits [of "flag_options ''v?''" "[]" "toy_libs toy_http" junk_a toy_build "[]" init_world]
    main_early_exits [of "flag_options ''v3''" "[]" "toy_libs toy_http" junk_a toy_build "[]" init_world]
  by (simp add: known_opt_def args_of_def toy_build_def Let_def)

text \<open>
  C31. How a get of the command line ends: with a code of fewer than eight characters by an exception
  that leaves \<open>main\<close>, before anything is requested; when nothing is found under the code with exit
  code 0 and an empty output; when the packet cannot be decrypted with exit code 1 and no output.
\<close>

theorem main_get_endings:
  assumes "list_all known_opt (getopt_results getopt argv)"
    and "args_of (CHR ''h'') (getopt_results getopt argv) = []" "args_of (CHR ''v'') (getopt_results getopt argv) = []"
    and "args_of (CHR ''g'') (getopt_results getopt argv) = [uri]" and "code_from_dpaste_uri uri = Some code" "uri \<noteq> []"
    and "bin_new L J w0 = (Inr b, w1)" and "cipher_init (lib_gpgme L) w1 = (Inr (), w)"
  shows "(length code < 8 \<longrightarrow> main_prog L J C getopt argv input w0 = (Inl Out_Of_Range, w)) \<and>
     (length code \<ge> 8 \<and> fetch_blob L (bin_http b) (take 8 code) w = (Inr [], w') \<longrightarrow>
        main_prog L J C getopt argv input w0 = (Inr 0, record_event (Stdout []) w')) \<and>
     (length code \<ge> 8 \<and> fetch_blob L (bin_http b) (take 8 code) w = (Inr buf, w') \<and> buf \<noteq> [] \<and>
      fst (open_packet L J buf code (drop 8 code) (args_of (CHR ''1'') (getopt_results getopt argv) \<noteq> []) w')
        \<in> {Inl (Decrypt_Error msg), Inl (Gpg_Exception err msg)} \<longrightarrow>
        fst (main_prog L J C getopt argv input w0) = Inr 1)"
proof -
  let ?pa = "parseArgs getopt argv" and ?nd = "args_of (CHR ''1'') (getopt_results getopt argv) \<noteq> []"
  have pa: "pa_code ?pa = uri" "pa_no_decrypt ?pa = ?nd"
    using assms(4) by (simp_all add: code_of_known [OF assms(1)] parsed_flags parse_known [OF assms(1)])
  have m: "main_prog L J C getopt argv input w0 = main_get L J b ?pa w"
    using run_main_prog [OF assms(1-3,7,8), of C input] assms(6) pa by simp
  have short: "length code < 8 \<Longrightarrow> bin_get L J b uri ?nd w = (Inl Out_Of_Range, w)"
    by (simp add: bin_get_def assms(5) run_bind_Inr run_bind_Inl run_lift or_out_of_range_def substr_def
        substr_from_def CODE_PASS_OFFSET_def)
  have none: "\<lbrakk>length code \<ge> 8; fetch_blob L (bin_http b) (take 8 code) w = (Inr [], w')\<rbrakk> \<Longrightarrow>
      bin_get L J b uri ?nd w = (Inr (True, []), w')"
    by (simp add: bin_get_def assms(5) run_bind_Inr run_return run_lift or_out_of_range_def substr_def
        substr_from_def CODE_PASS_OFFSET_def)
  have fails: "fst (bin_get L J b uri ?nd w) = Inr (False, [])"
    if "length code \<ge> 8" "fetch_blob L (bin_http b) (take 8 code) w = (Inr buf, w')" "buf \<noteq> []"
      "fst (open_packet L J buf code (drop 8 code) ?nd w') \<in> {Inl (Decrypt_Error msg), Inl (Gpg_Exception err msg)}"
    using run_bin_get [OF assms(5) that(1-3)] that(4) by (auto simp: run_get_try)
  show ?thesis
    using short none fails run_main_get [of L J b ?pa w False "[]"]
    by (auto simp: m pa main_get_def run_bind_Inl run_bind_Inr run_then_Inr run_emit run_return)
qed

theorem main_get_endings_witness:
  "\<exists>w w'. main_prog (toy_libs toy_http) junk_a toy_build (get_option ''dpaste:B79F'') [] [] init_world = (Inl Out_Of_Range, w) \<and>
     main_prog (toy_libs toy_http) junk_a toy_build (get_option ''dpaste:B79F2F91'') [] [] init_world =
       (Inr 0, record_event (Stdout []) w')"
proof -
  let ?L = "toy_libs toy_http" and ?M = "\<lambda>uri. main_prog (toy_libs toy_http) junk_a toy_build (get_option uri) [] [] init_world"
  obtain b wa w where start: "bin_new ?L junk_a init_world = (Inr b, wa)" "cipher_init (lib_gpgme ?L) wa = (Inr (), w)"
    and b: "bin_http b = \<lparr>hc_host = ''127.0.0.1'', hc_port = 6509\<rparr>"
    using toy_start [of toy_http "[]"] by (auto simp: init_world_def)
  obtain es where es: "list_all no_store es" "trace w = trace init_world @ es"
    using start_trace [OF start] by blast
  have code: "code_from_dpaste_uri (DPASTE_URI_PREFIX @ c) = Some c" for c by (rule code_from_pasted)
  have opts: "list_all known_opt (getopt_results (get_option uri) [])"
    "args_of (CHR ''h'') (getopt_results (get_option uri) []) = []"
    "args_of (CHR ''v'') (getopt_results (get_option uri) []) = []"
    "args_of (CHR ''g'') (getopt_results (get_option uri) []) = [uri]" for uri
    by (simp_all add: known_opt_def args_of_def)
  have ne: "DPASTE_URI_PREFIX @ c \<noteq> []" for c by (simp add: DPASTE_URI_PREFIX_def)
  obtain w' where f: "fetch_blob ?L (bin_http b) ''B79F2F91'' w = (Inr [], w')"
    using toy_fetch_nothing [of "bin_http b" w "''B79F2F91''"] transport_cong(1) [OF es(2,1)] toy_free b by auto
  have "?M (DPASTE_URI_PREFIX @ ''B79F'') = (Inl Out_Of_Range, w)"
    using main_get_endings [where C = toy_build and input = "[]", OF opts code ne start] by simp
  moreover have "?M (DPASTE_URI_PREFIX @ ''B79F2F91'') = (Inr 0, record_event (Stdout []) w')"
    using main_get_endings [where C = toy_build and input = "[]" and w' = w', OF opts code ne start, of "''B79F2F91''"] f by simp
  ultimately show ?thesis by (auto simp: DPASTE_URI_PREFIX_def)
qed

end
